(* ===== verification/Prelude.thy ===== *)
theory Prelude
  imports Main "HOL-Library.Word" "HOL-Library.Multiset" "HOL-Library.AList"
begin

text \<open>
  Shared ground of the development: the machine types of the Go sources, big-endian
  byte order (package \<^verbatim>\<open>encoding/binary\<close>), slices, the address types of package
  \<^verbatim>\<open>net/netip\<close>, results with an error, Go maps as association lists, and the
  transition-system interface that the state invariants of the server and of the
  daemon are proved through.
\<close>

unbundle bit_operations_syntax

section \<open>Machine types\<close>

type_synonym byte = "8 word"
type_synonym bytes = "byte list"
type_synonym u8 = "8 word"
type_synonym u16 = "16 word"
type_synonym u32 = "32 word"
type_synonym u64 = "64 word"

text \<open>Durations and instants are nanoseconds, as in Go's package \<^verbatim>\<open>time\<close>.\<close>

type_synonym duration = int
type_synonym instant = int

abbreviation millisecond :: duration where "millisecond \<equiv> 1000000"
abbreviation second :: duration where "second \<equiv> 1000000000"
abbreviation minute :: duration where "minute \<equiv> 60000000000"

text \<open>The whole seconds of an instant: Go's \<open>Time.Unix\<close>, which rounds down.\<close>

definition unix :: "instant \<Rightarrow> int" where
  "unix t = t div second"

named_theorems wire_defs "definitions of the wire formats"
named_theorems wire_simps "layout facts of the wire formats"
named_theorems peer_defs "definitions of the operations on one link"
named_theorems store_defs "definitions of the storage operations"
named_theorems store_frame "what a storage operation leaves alone"

section \<open>Slices\<close>

text \<open>\<open>slice a b xs\<close> is Go's \<open>xs[a:b]\<close>, for \<open>a \<le> b \<le> length xs\<close>.\<close>

definition slice :: "nat \<Rightarrow> nat \<Rightarrow> 'a list \<Rightarrow> 'a list" where
  "slice a b xs = take (b - a) (drop a xs)"

lemma length_slice [simp]: "b \<le> length xs \<Longrightarrow> length (slice a b xs) = b - a"
  by (simp add: slice_def)

lemma slice_0: "slice 0 b xs = take b xs"
  by (simp add: slice_def)

lemma slice_append_left: "b \<le> length xs \<Longrightarrow> slice a b (xs @ ys) = slice a b xs"
  by (cases "a \<le> length xs") (simp_all add: slice_def)

lemma slice_append_right:
  "length xs \<le> a \<Longrightarrow> slice a b (xs @ ys) = slice (a - length xs) (b - length xs) ys"
  by (simp add: slice_def)

lemma slice_whole: "length xs = b \<Longrightarrow> slice 0 b xs = xs"
  by (simp add: slice_def)

lemma slice_Cons_Suc: "slice (Suc a) (Suc b) (x # xs) = slice a b xs"
  by (simp add: slice_def)

lemma find_SomeD: "find P xs = Some x \<Longrightarrow> x \<in> set xs \<and> P x"
  by (induction xs) (auto split: if_splits)

lemma list_split_at:
  assumes "n \<le> length xs"
  obtains ys zs where "xs = ys @ zs" "length ys = n"
  using assms by (metis append_take_drop_id length_take min.absorb2)

section \<open>Big-endian integers\<close>

text \<open>
  \<open>be_put n w\<close> is the \<open>n\<close>-byte big-endian encoding of a word, most significant byte
  first (\<open>binary.BigEndian.PutUint16/32/64\<close> are the instances 2, 4 and 8), and
  \<open>be_get\<close> reads one back (\<open>binary.BigEndian.Uint16/32/64\<close>).
\<close>

fun be_put :: "nat \<Rightarrow> 'a::len word \<Rightarrow> bytes" where
  "be_put 0 w = []"
| "be_put (Suc n) w = ucast (drop_bit (8 * n) w) # be_put n w"

definition be_step :: "'a::len word \<Rightarrow> byte \<Rightarrow> 'a word" where
  "be_step acc b = push_bit 8 acc OR ucast b"

definition be_get :: "bytes \<Rightarrow> 'a::len word" where
  "be_get bs = foldl be_step 0 bs"

lemma length_be_put [simp]: "length (be_put n w) = n"
  by (induction n) simp_all

lemma foldl_be_step_put:
  "foldl be_step (acc :: 'a::len word) (be_put n w) = push_bit (8 * n) acc OR take_bit (8 * n) w"
proof (induction n arbitrary: acc)
  case 0
  then show ?case by simp
next
  case (Suc n)
  show ?case
    unfolding be_put.simps foldl_Cons Suc
  proof (rule bit_word_eqI)
    fix i assume "i < LENGTH('a)"
    then show "bit (push_bit (8 * n) (be_step acc (ucast (drop_bit (8 * n) w))) OR take_bit (8 * n) w) i
      = bit (push_bit (8 * Suc n) acc OR take_bit (8 * Suc n) w) i"
      by (cases "i < 8 * n"; cases "i < 8 * Suc n")
        (auto simp: be_step_def bit_simps not_less le_add_diff_inverse diff_diff_eq add.commute)
  qed
qed

lemma be_get_put: "8 * n = LENGTH('a::len) \<Longrightarrow> be_get (be_put n (w :: 'a word)) = w"
  by (simp add: be_get_def foldl_be_step_put take_bit_word_eq_self)

lemma bit_foldl_be_step:
  "bit (foldl be_step (acc :: 'a::len word) bs) (8 * length bs + i) \<longleftrightarrow>
     8 * length bs + i < LENGTH('a) \<and> bit acc i"
proof (induction bs arbitrary: acc i)
  case Nil
  then show ?case by (auto dest: bit_imp_le_length)
next
  case (Cons b bs)
  have "8 * length (b # bs) + i = 8 * length bs + (8 + i)" by simp
  then show ?case
    unfolding foldl_Cons by (simp only: Cons.IH) (auto simp: be_step_def bit_simps dest: bit_imp_le_length)
qed

lemma be_put_foldl:
  "8 * length bs \<le> LENGTH('a) \<Longrightarrow> be_put (length bs) (foldl be_step (acc :: 'a::len word) bs) = bs"
proof (induction bs arbitrary: acc)
  case Nil
  then show ?case by simp
next
  case (Cons b bs)
  have "ucast (drop_bit (8 * length bs) (foldl be_step (be_step acc b) bs)) = b"
  proof (rule bit_word_eqI)
    fix i assume "i < LENGTH(8)"
    with Cons.prems show
      "bit (ucast (drop_bit (8 * length bs) (foldl be_step (be_step acc b) bs)) :: byte) i = bit b i"
      by (simp add: bit_simps bit_foldl_be_step be_step_def)
  qed
  with Cons show ?case by simp
qed

lemma be_put_get:
  "length bs = n \<Longrightarrow> 8 * n \<le> LENGTH('a) \<Longrightarrow> be_put n (be_get bs :: 'a::len word) = bs"
  using be_put_foldl [of bs "0 :: 'a word"] by (simp add: be_get_def)

lemma be_put_inject:
  "8 * n = LENGTH('a::len) \<Longrightarrow> be_put n (v :: 'a word) = be_put n w \<longleftrightarrow> v = w"
  by (metis be_get_put)

abbreviation put16 :: "u16 \<Rightarrow> bytes" where "put16 \<equiv> be_put 2"
abbreviation put32 :: "u32 \<Rightarrow> bytes" where "put32 \<equiv> be_put 4"
abbreviation put64 :: "u64 \<Rightarrow> bytes" where "put64 \<equiv> be_put 8"
abbreviation get16 :: "bytes \<Rightarrow> u16" where "get16 \<equiv> be_get"
abbreviation get32 :: "bytes \<Rightarrow> u32" where "get32 \<equiv> be_get"
abbreviation get64 :: "bytes \<Rightarrow> u64" where "get64 \<equiv> be_get"

lemma get_put [simp]: "get16 (put16 a) = a" "get32 (put32 b) = b" "get64 (put64 c) = c"
  by (simp_all add: be_get_put)

lemma put16_unfold: "put16 w = [ucast (drop_bit 8 w), ucast w]"
  by (simp add: numeral_2_eq_2)

lemma put_get:
  "length bs = 2 \<Longrightarrow> put16 (get16 bs) = bs"
  "length bs = 4 \<Longrightarrow> put32 (get32 bs) = bs"
  "length bs = 8 \<Longrightarrow> put64 (get64 bs) = bs"
  by (simp_all add: be_put_get)

section \<open>Addresses\<close>

text \<open>
  \<open>netip.Addr\<close>: the zero value, an IPv4 address, or an IPv6 address (zones are not
  used by the program). \<open>netip.AddrPort\<close> is an address with a port.
\<close>

datatype addr = NoAddr | Addr4 u32 | Addr16 "128 word"

type_synonym addrport = "addr \<times> u16"

definition addr_valid :: "addr \<Rightarrow> bool" where
  "addr_valid a \<longleftrightarrow> a \<noteq> NoAddr"

fun is4 :: "addr \<Rightarrow> bool" where
  "is4 (Addr4 _) = True"
| "is4 _ = False"

definition addrport_valid :: "addrport \<Rightarrow> bool" where
  "addrport_valid ap \<longleftrightarrow> addr_valid (fst ap)"

abbreviation no_addrport :: addrport where "no_addrport \<equiv> (NoAddr, 0)"

definition addr_from4 :: "bytes \<Rightarrow> addr" where
  "addr_from4 bs = Addr4 (be_get bs)"

definition addr_from16 :: "bytes \<Rightarrow> addr" where
  "addr_from16 bs = Addr16 (be_get bs)"

text \<open>\<open>Addr.As4\<close>: only called on an address that \<open>Is4\<close>; Go panics on the zero address.\<close>

fun as4 :: "addr \<Rightarrow> bytes" where
  "as4 (Addr4 w) = be_put 4 w"
| "as4 (Addr16 w) = be_put 4 (ucast w :: u32)"
| "as4 NoAddr = []"

fun is_multicast :: "addr \<Rightarrow> bool" where
  "is_multicast (Addr4 w) = (drop_bit 28 w = 0xE)"
| "is_multicast (Addr16 w) = (drop_bit 120 w = 0xFF)"
| "is_multicast NoAddr = False"

lemma addr_simps [simp]:
  "\<not> addr_valid NoAddr" "addr_valid (Addr4 w)" "addr_valid (Addr16 v)"
  by (simp_all add: addr_valid_def)

lemma addrport_valid_simps [simp]:
  "\<not> addrport_valid (NoAddr, p)" "addrport_valid (Addr4 w, p)" "addrport_valid (Addr16 v, p)"
  by (simp_all add: addrport_valid_def)

lemma is4_E: "is4 a \<Longrightarrow> (\<And>w. a = Addr4 w \<Longrightarrow> P) \<Longrightarrow> P"
  by (cases a) auto

lemma length_as4 [simp]: "is4 a \<Longrightarrow> length (as4 a) = 4"
  by (cases a) auto

lemma addr_from4_as4 [simp]: "is4 a \<Longrightarrow> addr_from4 (as4 a) = a"
  by (cases a) (auto simp: addr_from4_def be_get_put)

lemma is4_addr_from4 [simp]: "is4 (addr_from4 bs)"
  by (simp add: addr_from4_def)

lemma as4_addr_from4: "length bs = 4 \<Longrightarrow> as4 (addr_from4 bs) = bs"
  by (simp add: addr_from4_def be_put_get)

section \<open>Go maps\<close>

text \<open>
  A Go map is an association list with distinct keys; the order of the list is the
  order one iteration visits the entries in, which Go leaves unspecified.
\<close>

type_synonym ('k, 'v) gomap = "('k \<times> 'v) list"

abbreviation lookup :: "('k, 'v) gomap \<Rightarrow> 'k \<Rightarrow> 'v option" where
  "lookup \<equiv> map_of"

abbreviation store :: "'k \<Rightarrow> 'v \<Rightarrow> ('k, 'v) gomap \<Rightarrow> ('k, 'v) gomap" where
  "store \<equiv> AList.update"

abbreviation remove :: "'k \<Rightarrow> ('k, 'v) gomap \<Rightarrow> ('k, 'v) gomap" where
  "remove \<equiv> AList.delete"

lemma lookup_store [simp]: "lookup (store k v m) k' = (if k' = k then Some v else lookup m k')"
  by (simp add: update_conv)

lemma lookup_remove [simp]: "lookup (remove k m) k' = (if k' = k then None else lookup m k')"
  by (simp add: delete_conv)

lemma distinct_store [simp]: "distinct (map fst m) \<Longrightarrow> distinct (map fst (store k v m))"
  by (rule distinct_update)

lemma distinct_remove [simp]: "distinct (map fst m) \<Longrightarrow> distinct (map fst (remove k m))"
  by (rule distinct_delete)

lemma set_store_subset: "set (store k v m) \<subseteq> insert (k, v) (set m)"
  by (induction m) auto

lemma set_remove_subset: "set (remove k m) \<subseteq> set m"
  by (auto simp: AList.delete_eq)

section \<open>Transition systems\<close>

text \<open>
  What a stateful component promises: an initial state, steps, and an invariant that
  both keep. Every component instantiates it with its own operations and gets the
  invariant of all reachable states.
\<close>

locale invariant_system =
  fixes init :: "'s \<Rightarrow> bool"
    and step :: "'s \<Rightarrow> 's \<Rightarrow> bool"
    and inv :: "'s \<Rightarrow> bool"
  assumes inv_init: "init s \<Longrightarrow> inv s"
    and inv_step: "inv s \<Longrightarrow> step s t \<Longrightarrow> inv t"
begin

lemma inv_steps: "step\<^sup>*\<^sup>* s t \<Longrightarrow> inv s \<Longrightarrow> inv t"
  by (induction rule: rtranclp_induct) (auto intro: inv_step)

lemma inv_reachable: "init s \<Longrightarrow> step\<^sup>*\<^sup>* s t \<Longrightarrow> inv t"
  by (blast intro: inv_init inv_steps)

end

end
