(* ===== verification/Go_Text.thy ===== *)
theory Go_Text
  imports Prelude
begin

text \<open>
  What the sources use of Go's packages \<^verbatim>\<open>strings\<close>, \<^verbatim>\<open>strconv\<close> and \<^verbatim>\<open>net/netip\<close> on text.
  A Go string is a list of bytes, here a list of \<open>char\<close>; where the library looks at runes,
  the runes that matter are given by their encoding.
\<close>

section \<open>Characters\<close>

abbreviation code :: "char \<Rightarrow> nat" where "code c \<equiv> of_char c"

definition is_lower :: "char \<Rightarrow> bool" where
  "is_lower c \<longleftrightarrow> 97 \<le> code c \<and> code c \<le> 122"

definition is_upper :: "char \<Rightarrow> bool" where
  "is_upper c \<longleftrightarrow> 65 \<le> code c \<and> code c \<le> 90"

definition is_digit :: "char \<Rightarrow> bool" where
  "is_digit c \<longleftrightarrow> 48 \<le> code c \<and> code c \<le> 57"

definition lower_char :: "char \<Rightarrow> char" where
  "lower_char c = (if is_upper c then char_of (code c + 32) else c)"

lemma code_lower_char: "code (lower_char c) = (if is_upper c then code c + 32 else code c)"
  by (simp add: lower_char_def is_upper_def)

section \<open>Package strings\<close>

text \<open>
  \<open>TrimSpace\<close>: Unicode white space, each rune by its UTF-8 encoding.
\<close>

definition space_seqs :: "string list" where
  "space_seqs =
     map (\<lambda>b. [char_of (b :: nat)]) [9, 10, 11, 12, 13, 32] @
     map (map (\<lambda>b. char_of (b :: nat)))
       ([[0xC2, 0x85], [0xC2, 0xA0], [0xE1, 0x9A, 0x80]] @
        map (\<lambda>b. [0xE2, 0x80, b]) [0x80, 0x81, 0x82, 0x83, 0x84, 0x85, 0x86, 0x87, 0x88, 0x89, 0x8A] @
        [[0xE2, 0x80, 0xA8], [0xE2, 0x80, 0xA9], [0xE2, 0x80, 0xAF], [0xE2, 0x81, 0x9F],
         [0xE3, 0x80, 0x80]])"

definition starts_with :: "'a list \<Rightarrow> 'a list \<Rightarrow> bool" where
  "starts_with p s \<longleftrightarrow> take (length p) s = p"

fun drop_seqs :: "nat \<Rightarrow> string list \<Rightarrow> string \<Rightarrow> string" where
  "drop_seqs 0 seqs s = s"
| "drop_seqs (Suc n) seqs s =
     (case find (\<lambda>p. starts_with p s) seqs of
        None \<Rightarrow> s
      | Some p \<Rightarrow> drop_seqs n seqs (drop (length p) s))"

text \<open>Each round drops at least one byte, so the length is enough rounds.\<close>

definition TrimSpace :: "string \<Rightarrow> string" where
  "TrimSpace s =
     (let s = drop_seqs (length s) space_seqs s
      in rev (drop_seqs (length s) (map rev space_seqs) (rev s)))"

definition TrimRight :: "string \<Rightarrow> string \<Rightarrow> string" where
  "TrimRight s cutset = rev (dropWhile (\<lambda>c. c \<in> set cutset) (rev s))"

text \<open>The part after the last of the given characters, or all of it.\<close>

definition after_last :: "string \<Rightarrow> string \<Rightarrow> string" where
  "after_last chars s = rev (takeWhile (\<lambda>c. c \<notin> set chars) (rev s))"

text \<open>\<open>Cut\<close> around a one-character separator: before, after, found.\<close>

definition Cut :: "string \<Rightarrow> char \<Rightarrow> string \<times> string \<times> bool" where
  "Cut s sep =
     (if sep \<in> set s
      then (takeWhile (\<lambda>c. c \<noteq> sep) s, drop 1 (dropWhile (\<lambda>c. c \<noteq> sep) s), True)
      else (s, [], False))"

text \<open>\<open>EqualFold\<close> against an ASCII word without \<open>k\<close> and \<open>s\<close>, the letters with other folds.\<close>

definition equal_fold :: "string \<Rightarrow> string \<Rightarrow> bool" where
  "equal_fold a b \<longleftrightarrow> map lower_char a = map lower_char b"

section \<open>Decimal numbers\<close>

definition digit :: "nat \<Rightarrow> char" where
  "digit n = char_of (48 + n)"

fun dec :: "nat \<Rightarrow> string" where
  "dec n = (if n < 10 then [digit n] else dec (n div 10) @ [digit (n mod 10)])"

declare dec.simps [simp del]

definition FormatInt :: "int \<Rightarrow> string" where
  "FormatInt i = (if i < 0 then CHR ''-'' # dec (nat (- i)) else dec (nat i))"

definition dec_value :: "string \<Rightarrow> nat" where
  "dec_value s = foldl (\<lambda>acc c. acc * 10 + (code c - 48)) 0 s"

lemma code_digit: "n < 10 \<Longrightarrow> code (digit n) = 48 + n"
  by (simp add: digit_def)

lemma is_digit_digit: "n < 10 \<Longrightarrow> is_digit (digit n)"
  by (simp add: is_digit_def code_digit)

lemma dec_digits: "c \<in> set (dec n) \<Longrightarrow> is_digit c"
  by (induction n arbitrary: c rule: dec.induct)
    (subst (asm) (2) dec.simps, auto simp: is_digit_digit split: if_splits)

lemma dec_value_dec: "dec_value (dec n) = n"
proof (induction n rule: dec.induct)
  case (1 n)
  show ?case
  proof (cases "n < 10")
    case True
    then show ?thesis by (subst dec.simps) (simp add: dec_value_def code_digit)
  next
    case False
    have "dec_value (xs @ [c]) = dec_value xs * 10 + (code c - 48)" for xs c
      by (simp add: dec_value_def)
    with 1 [OF False] False show ?thesis by (subst dec.simps) (simp add: code_digit)
  qed
qed

lemma dec_inject: "dec a = dec b \<longleftrightarrow> a = b"
  using dec_value_dec by metis

lemma dec_Cons: "\<exists>c cs. dec n = c # cs \<and> is_digit c"
proof -
  have "dec n \<noteq> []" by (subst dec.simps) simp
  then show ?thesis using dec_digits [of _ n] by (cases "dec n") auto
qed

lemma FormatInt_inject: "FormatInt a = FormatInt b \<longleftrightarrow> a = b"
proof -
  have "CHR ''-'' # xs \<noteq> dec n" for xs n
    using dec_Cons [of n] by (auto simp: is_digit_def)
  then show ?thesis
    by (auto simp: FormatInt_def dec_inject) (metis)?
qed

section \<open>Prefixes and addresses of package net/netip\<close>

record prefix =
  pfx_addr :: addr
  pfx_bits :: nat

text \<open>The host bits of a prefix, \<open>^uint32(0) >> bits\<close>, and \<open>Prefix.Masked\<close>, \<open>Prefix.Contains\<close>.\<close>

definition host_mask :: "nat \<Rightarrow> 'a::len word" where
  "host_mask bits = drop_bit bits (- 1)"

fun masked :: "prefix \<Rightarrow> addr" where
  "masked \<lparr>pfx_addr = Addr4 w, pfx_bits = bits\<rparr> = Addr4 (w AND NOT (host_mask bits))"
| "masked \<lparr>pfx_addr = Addr16 w, pfx_bits = bits\<rparr> = Addr16 (w AND NOT (host_mask bits))"
| "masked \<lparr>pfx_addr = NoAddr, pfx_bits = bits\<rparr> = NoAddr"

fun prefix_contains :: "prefix \<Rightarrow> addr \<Rightarrow> bool" where
  "prefix_contains \<lparr>pfx_addr = Addr4 p, pfx_bits = bits\<rparr> (Addr4 w) =
     ((w XOR p) AND NOT (host_mask bits) = 0)"
| "prefix_contains \<lparr>pfx_addr = Addr16 p, pfx_bits = bits\<rparr> (Addr16 w) =
     ((w XOR p) AND NOT (host_mask bits) = 0)"
| "prefix_contains _ _ = False"

text \<open>\<open>Addr.Next\<close>: the zero address after the last one.\<close>

fun addr_next :: "addr \<Rightarrow> addr" where
  "addr_next (Addr4 w) = (if w = - 1 then NoAddr else Addr4 (w + 1))"
| "addr_next (Addr16 w) = (if w = - 1 then NoAddr else Addr16 (w + 1))"
| "addr_next NoAddr = NoAddr"

text \<open>
  IPv4 addresses and prefixes as text, \<open>Addr.String\<close>, \<open>ParseAddr\<close> and \<open>ParsePrefix\<close>. The program only
  ever writes IPv4 here (every group has the subnet of \<open>DefaultSubnet\<close>), so IPv6 text is
  not parsed.
\<close>

definition ipv4_String :: "u32 \<Rightarrow> string" where
  "ipv4_String w =
     dec (unat (drop_bit 24 w)) @ ''.'' @ dec (unat (drop_bit 16 w AND 0xff)) @ ''.'' @
     dec (unat (drop_bit 8 w AND 0xff)) @ ''.'' @ dec (unat (w AND 0xff))"

fun split_on :: "char \<Rightarrow> string \<Rightarrow> string list" where
  "split_on sep [] = [[]]"
| "split_on sep (c # cs) =
     (if c = sep then [] # split_on sep cs
      else case split_on sep cs of [] \<Rightarrow> [[c]] | f # fs \<Rightarrow> (c # f) # fs)"

text \<open>A decimal field without sign or leading zero, at most \<open>limit\<close>.\<close>

definition dec_field :: "nat \<Rightarrow> string \<Rightarrow> nat option" where
  "dec_field limit s =
     (if s = [] \<or> \<not> list_all is_digit s \<or> (length s > 1 \<and> hd s = CHR ''0'') \<or> dec_value s > limit
      then None else Some (dec_value s))"

definition parse_ipv4 :: "string \<Rightarrow> u32 option" where
  "parse_ipv4 s =
     (case map (dec_field 255) (split_on CHR ''.'' s) of
        [Some a, Some b, Some c, Some d] \<Rightarrow> Some (of_nat (((a * 256 + b) * 256 + c) * 256 + d))
      | _ \<Rightarrow> None)"

definition ParseAddr :: "string \<Rightarrow> addr option" where
  "ParseAddr s = map_option Addr4 (parse_ipv4 s)"

definition ParsePrefix :: "string \<Rightarrow> prefix option" where
  "ParsePrefix s =
     (case rev (split_on CHR ''/'' s) of
        bits # rest # extra \<Rightarrow>
          (if extra \<noteq> [] then None
           else case (parse_ipv4 rest, dec_field 32 bits) of
                  (Some w, Some n) \<Rightarrow> Some \<lparr>pfx_addr = Addr4 w, pfx_bits = n\<rparr>
                | _ \<Rightarrow> None)
      | _ \<Rightarrow> None)"

lemma split_on_append:
  "sep \<notin> set xs \<Longrightarrow> split_on sep (xs @ sep # ys) = xs # split_on sep ys"
  by (induction xs) auto

lemma split_on_none: "sep \<notin> set xs \<Longrightarrow> split_on sep xs = [xs]"
  by (induction xs) auto

lemma dec_no_dot: "CHR ''.'' \<notin> set (dec n)"
  using dec_digits [of "CHR ''.''" n] by (auto simp: is_digit_def)

text \<open>Distinct addresses have distinct text.\<close>

lemma ipv4_fields:
  "split_on CHR ''.'' (ipv4_String w) =
     [dec (unat (drop_bit 24 w)), dec (unat (drop_bit 16 w AND 0xff)),
      dec (unat (drop_bit 8 w AND 0xff)), dec (unat (w AND 0xff))]"
  by (simp add: ipv4_String_def split_on_append split_on_none dec_no_dot)

lemma and_255: "bit ((w :: u32) AND 0xff) n \<longleftrightarrow> n < 8 \<and> bit w n"
proof -
  have "w AND 0xff = take_bit 8 w" by (simp add: take_bit_eq_mask mask_eq_exp_minus_1)
  then show ?thesis by (simp add: bit_take_bit_iff)
qed

lemma ipv4_String_inject: "ipv4_String v = ipv4_String w \<longleftrightarrow> v = w"
proof
  assume "ipv4_String v = ipv4_String w"
  then have "split_on CHR ''.'' (ipv4_String v) = split_on CHR ''.'' (ipv4_String w)" by simp
  then have eq: "drop_bit 24 v = drop_bit 24 w" "drop_bit 16 v AND 0xff = drop_bit 16 w AND 0xff"
    "drop_bit 8 v AND 0xff = drop_bit 8 w AND 0xff" "v AND 0xff = w AND 0xff"
    by (simp_all add: ipv4_fields dec_inject word_unat_eq_iff)
  show "v = w"
  proof (rule bit_eqI)
    fix n
    assume "possible_bit TYPE(u32) n"
    then have n: "n < 32" by simp
    have part: "bit v (k + m) = bit w (k + m)"
      if "drop_bit k v AND 0xff = drop_bit k w AND 0xff" "m < 8" for k m
    proof -
      have "bit (drop_bit k v AND 0xff) m = bit (drop_bit k w AND 0xff) m" using that(1) by simp
      with that(2) show ?thesis by (simp add: and_255 bit_drop_bit_eq)
    qed
    have "bit v n = bit w n" if "24 \<le> n"
      using arg_cong [OF eq(1), of "\<lambda>x. bit x (n - 24)"] that by (simp add: bit_drop_bit_eq)
    moreover have "bit v n = bit w n" if "16 \<le> n" "n < 24" using part [OF eq(2), of "n - 16"] that by simp
    moreover have "bit v n = bit w n" if "8 \<le> n" "n < 16" using part [OF eq(3), of "n - 8"] that by simp
    moreover have "bit v n = bit w n" if "n < 8" using part [of 0 n] eq(4) that by simp
    ultimately show "bit v n = bit w n" by linarith
  qed
qed simp

end
