(* ===== verification/Invite.thy ===== *)
theory Invite
  imports Go_Text
begin

text \<open>
  Invite codes: package \<^verbatim>\<open>protocol/invite\<close>, and the random identifiers and codes of
  \<^verbatim>\<open>server/storage\<close> (\<open>NewID\<close>, \<open>NewInviteCode\<close>), which share an alphabet.
\<close>

definition Length :: nat where "Length = 8"

text \<open>
  \<open>Normalize\<close> lowers the runes and keeps the letters and digits of ASCII. Two runes outside
  ASCII have a lower case inside it: the Kelvin sign (E2 84 AA) becomes \<open>k\<close> and the dotted
  capital I (C4 B0) becomes \<open>i\<close>. Every other byte from 80 on belongs to a rune that is dropped.
\<close>

fun Normalize :: "string \<Rightarrow> string" where
  "Normalize [] = []"
| "Normalize (c # cs) =
     (if code c = 0xE2 \<and> starts_with [char_of (0x84 :: nat), char_of (0xAA :: nat)] cs
      then CHR ''k'' # Normalize (drop 2 cs)
      else if code c = 0xC4 \<and> starts_with [char_of (0xB0 :: nat)] cs
      then CHR ''i'' # Normalize (drop 1 cs)
      else if is_lower (lower_char c) \<or> is_digit c then lower_char c # Normalize cs
      else Normalize cs)"

definition Parse :: "string \<Rightarrow> string" where
  "Parse input =
     (let trimmed = TrimRight (TrimSpace input) ''/'';
          trimmed = after_last [CHR ''/'', CHR 0x5C] trimmed;
          trimmed = fst (Cut trimmed CHR ''?'');
          trimmed = fst (Cut trimmed CHR ''#'')
      in Normalize trimmed)"

definition Path :: string where "Path = ''/join/''"

definition Link :: "string \<Rightarrow> string \<Rightarrow> string" where
  "Link base c = (if base = [] \<or> c = [] then [] else TrimRight base ''/'' @ ''/'' @ c)"

definition Scheme :: string where "Scheme = ''net192168''"

definition DeepLink :: "string \<Rightarrow> string" where
  "DeepLink c = (if c = [] then [] else Scheme @ '':/'' @ Path @ c)"

section \<open>Random identifiers\<close>

text \<open>Base 32 without padding, over an alphabet of 32 characters.\<close>

definition idAlphabet :: string where
  "idAlphabet = ''abcdefghijkmnpqrstuvwxyz23456789''"

definition byte_bits :: "byte \<Rightarrow> bool list" where
  "byte_bits b = map (bit b) [7, 6, 5, 4, 3, 2, 1, 0]"

definition bits_value :: "bool list \<Rightarrow> nat" where
  "bits_value bs = foldl (\<lambda>acc b. 2 * acc + of_bool b) 0 bs"

fun quintets :: "bool list \<Rightarrow> string" where
  "quintets [] = []"
| "quintets (a # bs) =
     (let q = take 5 (a # bs)
      in (idAlphabet ! bits_value (q @ replicate (5 - length q) False)) # quintets (drop 4 bs))"

definition base32 :: "bytes \<Rightarrow> string" where
  "base32 raw = quintets (concat (map byte_bits raw))"

text \<open>The bytes drawn are an argument, \<open>None\<close> when the system has no randomness to give.\<close>

definition inviteCodeBytes :: nat where "inviteCodeBytes = 5"

definition NewInviteCode :: "bytes option \<Rightarrow> string option" where
  "NewInviteCode raw = map_option base32 raw"

definition NewID :: "string \<Rightarrow> bytes option \<Rightarrow> string option" where
  "NewID pre raw = map_option (\<lambda>raw. pre @ ''_'' @ base32 raw) raw"

section \<open>Codes that survive a trip through a link\<close>

definition code_char :: "char \<Rightarrow> bool" where
  "code_char c \<longleftrightarrow> is_lower c \<or> is_digit c"

lemma Normalize_code_chars: "list_all code_char s \<Longrightarrow> Normalize s = s"
  by (induction s)
    (auto simp: code_char_def is_lower_def is_digit_def lower_char_def is_upper_def)

lemma Normalize_image: "list_all code_char (Normalize s)"
proof (induction s rule: Normalize.induct)
  case (2 c cs)
  then show ?case
    by (auto simp: code_char_def is_lower_def is_digit_def is_upper_def lower_char_def)
qed simp

lemma drop_seqs_none:
  assumes "\<forall>p\<in>set seqs. \<not> starts_with p s"
  shows "drop_seqs n seqs s = s"
proof -
  have "find (\<lambda>p. starts_with p s) seqs = None" using assms by (simp add: find_None_iff)
  then show ?thesis by (cases n) simp_all
qed

definition plain :: "char \<Rightarrow> bool" where
  "plain c \<longleftrightarrow> 33 \<le> code c \<and> code c < 128"

lemma space_not_plain: "p \<in> set space_seqs \<Longrightarrow> plain c \<Longrightarrow> \<not> starts_with p (c # cs)"
  by (auto simp: space_seqs_def starts_with_def plain_def)

lemma space_rev_not_plain: "p \<in> set space_seqs \<Longrightarrow> plain c \<Longrightarrow> \<not> starts_with (rev p) (c # cs)"
  by (auto simp: space_seqs_def starts_with_def plain_def)

lemma TrimSpace_plain:
  assumes "s \<noteq> []" "plain (hd s)" "plain (last s)"
  shows "TrimSpace s = s"
proof -
  obtain c cs where s: "s = c # cs" using assms(1) by (cases s) auto
  obtain d ds where r: "rev s = d # ds" using assms(1) by (cases "rev s") auto
  have d: "plain d" using assms(1,3) r by (metis hd_rev list.sel(1))
  have "drop_seqs n space_seqs s = s" for n
    using space_not_plain [of _ c cs] assms(2) s by (intro drop_seqs_none) auto
  moreover have "drop_seqs n (map rev space_seqs) (rev s) = rev s" for n
    using space_rev_not_plain [of _ d ds] d r by (intro drop_seqs_none) auto
  ultimately show ?thesis by (simp add: TrimSpace_def Let_def)
qed

lemma code_char_plain: "code_char c \<Longrightarrow> plain c"
  by (auto simp: code_char_def plain_def is_lower_def is_digit_def)

lemma code_char_not_special:
  "code_char c \<Longrightarrow> c \<noteq> CHR ''/'' \<and> c \<noteq> CHR 0x5C \<and> c \<noteq> CHR ''?'' \<and> c \<noteq> CHR ''#''"
  by (auto simp: code_char_def is_lower_def is_digit_def)

text \<open>A code at the end of any text whose last separator is right before it is found again.\<close>

lemma Parse_ends_with_code:
  assumes c: "list_all code_char c" "c \<noteq> []" and "plain (hd (pre @ c))"
    and pre: "pre = [] \<or> last pre = CHR ''/''"
  shows "Parse (pre @ c) = c"
proof -
  obtain d ds where r: "rev c = d # ds" using c(2) by (cases "rev c") auto
  have all: "code_char x" if "x \<in> set c" for x using c(1) that by (simp add: list_all_iff)
  have d: "code_char d" using all [of d] r by (metis list.set_intros(1) set_rev)
  have "last (pre @ c) = d" using c(2) r by (metis hd_rev last_appendR list.sel(1))
  then have "TrimSpace (pre @ c) = pre @ c"
    using assms(3) c(2) code_char_plain [OF d] by (intro TrimSpace_plain) simp_all
  moreover have "TrimRight (pre @ c) ''/'' = pre @ c"
  proof -
    have "c = rev ds @ [d]" using r by (simp add: rev_swap)
    with code_char_not_special [OF d] show ?thesis by (simp add: TrimRight_def)
  qed
  moreover have "after_last [CHR ''/'', CHR 0x5C] (pre @ c) = c"
  proof -
    have clean: "\<forall>x\<in>set (rev c). x \<notin> set [CHR ''/'', CHR 0x5C]"
      using all code_char_not_special by auto
    have "takeWhile (\<lambda>x. x \<notin> set [CHR ''/'', CHR 0x5C]) (rev c @ rev pre) = rev c"
    proof (cases "pre = []")
      case True
      then show ?thesis using clean by (simp only: rev.simps append_Nil2 takeWhile_eq_all_conv)
    next
      case False
      then obtain ps where "rev pre = CHR ''/'' # ps"
        using pre by (metis hd_rev list.collapse rev_is_Nil_conv)
      then show ?thesis using clean by (subst takeWhile_append2) auto
    qed
    then show ?thesis by (simp add: after_last_def)
  qed
  moreover have "fst (Cut c CHR ''?'') = c" "fst (Cut c CHR ''#'') = c"
    using all code_char_not_special by (auto simp: Cut_def)
  ultimately show ?thesis using Normalize_code_chars [OF c(1)] by (simp add: Parse_def Let_def)
qed

lemma Parse_code: "list_all code_char c \<Longrightarrow> Parse c = c"
proof (cases "c = []")
  case True
  then show ?thesis by (simp add: Parse_def TrimSpace_def TrimRight_def after_last_def Cut_def)
next
  case False
  assume c: "list_all code_char c"
  then have "plain (hd c)" using False by (cases c) (auto intro: code_char_plain)
  with c False show ?thesis using Parse_ends_with_code [of c "[]"] by simp
qed

section \<open>Base 32\<close>

lemma idAlphabet_props: "length idAlphabet = 32" "distinct idAlphabet" "list_all code_char idAlphabet"
  by (simp_all add: idAlphabet_def code_char_def is_lower_def is_digit_def)

lemma bits_value_append: "bits_value (xs @ [b]) = 2 * bits_value xs + of_bool b"
  by (simp add: bits_value_def)

lemma bits_value_less: "bits_value xs < 2 ^ length xs"
proof (induction xs rule: rev_induct)
  case (snoc b xs)
  then show ?case by (cases b) (auto simp: bits_value_append)
qed (simp add: bits_value_def)

lemma bits_value_inject:
  "length xs = length ys \<Longrightarrow> bits_value xs = bits_value ys \<Longrightarrow> xs = ys"
proof (induction xs arbitrary: ys rule: rev_induct)
  case (snoc b xs)
  from snoc.prems(1) obtain ys' b' where ys: "ys = ys' @ [b']" by (cases ys rule: rev_cases) auto
  with snoc.prems(2) have "2 * bits_value xs + of_bool b = 2 * bits_value ys' + of_bool b'"
    by (simp add: bits_value_append)
  then have "bits_value xs = bits_value ys' \<and> b = b'"
    by (cases b; cases b') (auto; presburger)+
  with snoc.IH [of ys'] snoc.prems(1) ys show ?case by simp
qed simp

lemma quintet_eq:
  "length q = 5 \<Longrightarrow> quintets (q @ bs) = (idAlphabet ! bits_value q) # quintets bs"
  by (auto simp: numeral_eq_Suc length_Suc_conv)

lemma quintets_props:
  "length bs = 5 * n \<Longrightarrow> length (quintets bs) = n \<and> list_all code_char (quintets bs)"
proof (induction n arbitrary: bs)
  case (Suc n)
  then obtain q rest where q: "bs = q @ rest" "length q = 5" "length rest = 5 * n"
    by (metis append_take_drop_id length_take length_drop min.absorb2 mult_Suc_right le_add1 add_diff_cancel_left')
  have "bits_value q < length idAlphabet" using bits_value_less [of q] q(2) by (simp add: idAlphabet_props)
  then have "code_char (idAlphabet ! bits_value q)"
    using idAlphabet_props(3) by (simp add: list_all_length)
  with Suc.IH [OF q(3)] q show ?case by (simp add: quintet_eq)
qed simp

lemma quintets_inject:
  "length bs = 5 * n \<Longrightarrow> length cs = 5 * n \<Longrightarrow> quintets bs = quintets cs \<Longrightarrow> bs = cs"
proof (induction n arbitrary: bs cs)
  case (Suc n)
  have split: "\<exists>q rest. bs = q @ rest \<and> length q = 5 \<and> length rest = 5 * n" if "length bs = 5 * Suc n"
    for bs :: "bool list"
    using that by (intro exI [of _ "take 5 bs"] exI [of _ "drop 5 bs"]) simp
  obtain q r where q: "bs = q @ r" "length q = 5" "length r = 5 * n" using split [OF Suc.prems(1)] by blast
  obtain q' r' where q': "cs = q' @ r'" "length q' = 5" "length r' = 5 * n" using split [OF Suc.prems(2)] by blast
  have "idAlphabet ! bits_value q = idAlphabet ! bits_value q'" "quintets r = quintets r'"
    using Suc.prems(3) q q' by (simp_all add: quintet_eq)
  moreover have "bits_value q < 32" "bits_value q' < 32"
    using bits_value_less [of q] bits_value_less [of q'] q q' by simp_all
  ultimately have "bits_value q = bits_value q'"
    using idAlphabet_props by (simp add: nth_eq_iff_index_eq)
  with bits_value_inject [of q q'] Suc.IH [OF q(3) q'(3) \<open>quintets r = quintets r'\<close>] q q'
  show ?case by simp
qed simp

lemma length_byte_bits: "length (byte_bits b) = 8"
  by (simp add: byte_bits_def)

lemma byte_bits_inject: "byte_bits a = byte_bits b \<Longrightarrow> a = b"
proof (rule bit_eqI)
  fix n
  assume eq: "byte_bits a = byte_bits b" and "possible_bit TYPE(byte) n"
  then have "n \<in> {0, 1, 2, 3, 4, 5, 6, 7}" by auto
  with eq show "bit a n = bit b n" by (auto simp: byte_bits_def)
qed

lemma length_all_bits: "length (concat (map byte_bits raw)) = 8 * length raw"
  by (induction raw) (simp_all add: length_byte_bits)

lemma all_bits_inject:
  "length xs = length ys \<Longrightarrow> concat (map byte_bits xs) = concat (map byte_bits ys) \<Longrightarrow> xs = ys"
  by (induction xs ys rule: list_induct2) (auto simp: length_byte_bits dest: byte_bits_inject)

lemma base32_props:
  assumes "length raw = 5 * n"
  shows "length (base32 raw) = 8 * n" "list_all code_char (base32 raw)"
  using quintets_props [of "concat (map byte_bits raw)" "8 * n"] assms
  by (simp_all add: base32_def length_all_bits)

lemma base32_inject:
  "length a = 5 * n \<Longrightarrow> length b = 5 * n \<Longrightarrow> base32 a = base32 b \<longleftrightarrow> a = b"
  using quintets_inject [of "concat (map byte_bits a)" "8 * n" "concat (map byte_bits b)"]
    all_bits_inject [of a b]
  by (auto simp: base32_def length_all_bits)

lemma Parse_Link:
  assumes "list_all code_char c" "c \<noteq> []" "base \<noteq> []" "plain (hd base)"
  shows "Parse (Link base c) = c"
proof -
  let ?b = "TrimRight base ''/''"
  have "plain (hd ((?b @ ''/'') @ c))"
  proof (cases "?b = []")
    case False
    then have "hd ?b = hd base"
      unfolding TrimRight_def
      by (metis append.right_neutral assms(3) hd_append2 rev_append rev_is_Nil_conv rev_rev_ident
          takeWhile_dropWhile_id)
    with False assms(4) show ?thesis by simp
  qed (simp add: plain_def)
  from Parse_ends_with_code [OF assms(1,2) this] show ?thesis using assms(2,3) by (simp add: Link_def)
qed

text \<open>
C37: a code finds its way back out of every link it is sent in. A code made from five random
bytes has eight characters, different bytes make different codes, and the code is read back
unchanged from itself, from the web link around it whatever slashes the base ends in, and
from the link that opens the app.
\<close>

theorem invite_code_roundtrip:
  assumes "length raw = inviteCodeBytes" and "length raw' = inviteCodeBytes"
    and "base \<noteq> []" and "plain (hd base)"
  shows "length (base32 raw) = Length \<and> (base32 raw = base32 raw' \<longleftrightarrow> raw = raw') \<and>
    Parse (base32 raw) = base32 raw \<and> Parse (Link base (base32 raw)) = base32 raw \<and>
    Parse (DeepLink (base32 raw)) = base32 raw"
proof -
  let ?c = "base32 raw"
  have c: "length ?c = 8" "list_all code_char ?c" "?c \<noteq> []"
    using base32_props [of raw 1] assms(1) by (auto simp: inviteCodeBytes_def)
  have "Parse (Link base ?c) = ?c" using c(2,3) assms(3,4) by (rule Parse_Link)
  moreover have "Parse (DeepLink ?c) = ?c"
    using Parse_ends_with_code [OF c(2,3), of "''net192168:/'' @ ''/join/''"] c(3)
    by (simp add: DeepLink_def Scheme_def Path_def plain_def)
  ultimately show ?thesis
    using c Parse_code [OF c(2)] base32_inject [of raw 1 raw'] assms(1,2)
    by (simp add: Length_def inviteCodeBytes_def)
qed

theorem invite_code_roundtrip_witness:
  "Parse (Link ''https://example.org/join/'' (base32 [1, 2, 3, 4, 5])) = base32 [1, 2, 3, 4, 5]"
  using invite_code_roundtrip [of "[1, 2, 3, 4, 5]" "[1, 2, 3, 4, 5]" "''https://example.org/join/''"]
  by (simp add: inviteCodeBytes_def plain_def)

end
