(* ===== verification/Storage.thy ===== *)
theory Storage
  imports Invite
begin

text \<open>
  The coordination server's database: package \<^verbatim>\<open>server/storage\<close>. A table is the list of its
  rows in the order they were inserted, with the columns and constraints the migrations
  leave behind: a statement that would break a UNIQUE, PRIMARY KEY or FOREIGN KEY constraint
  fails, and a transaction that fails leaves the database as it was. Faults of the disk and
  of the driver are not modelled. The time of a call is its argument \<open>now\<close>, and the bytes a
  call draws at random are arguments too, \<open>None\<close> when the system has none to give.
\<close>

datatype store_error =
    ErrNotFound | ErrConflict | ErrBanned | ErrForbidden | ErrGroupFull
  | ErrBadSubnet | ErrRandom | ErrNoFreeCode | ErrConstraint | ErrScan

datatype role = RoleMember | RoleOwner

record device =
  dev_id :: string
  dev_public_key :: string
  dev_transport_key :: string
  dev_name :: string
  dev_nickname :: string
  dev_created_at :: int
  dev_last_seen_at :: int

record token_row =
  tok_hash :: string
  tok_device_id :: string
  tok_created_at :: int
  tok_revoked_at :: "int option"

record group_row =
  grp_id :: string
  grp_name :: string
  grp_icon :: string
  grp_color :: string
  grp_subnet :: string
  grp_invite_code :: string
  grp_created_by :: string
  grp_created_at :: int

record membership_row =
  mem_id :: string
  mem_group_id :: string
  mem_device_id :: string
  mem_created_at :: int
  mem_revoked_at :: "int option"
  mem_banned_at :: "int option"
  mem_virtual_ip :: "string option"
  mem_role :: role

record session_row =
  ses_id :: string
  ses_group_id :: string
  ses_membership_id :: string
  ses_endpoint :: "(string \<times> int) option"
  ses_connected_at :: int
  ses_last_seen_at :: int

record db =
  db_devices :: "device list"
  db_tokens :: "token_row list"
  db_nonces :: "(string \<times> int) list"
  db_groups :: "group_row list"
  db_memberships :: "membership_row list"
  db_sessions :: "session_row list"

definition empty_db :: db where
  "empty_db = \<lparr>db_devices = [], db_tokens = [], db_nonces = [], db_groups = [],
     db_memberships = [], db_sessions = []\<rparr>"

section \<open>What the API is handed\<close>

record group =
  G_ID :: string
  G_Name :: string
  G_Icon :: string
  G_Color :: string
  G_Subnet :: string
  G_InviteCode :: string

record membership =
  M_ID :: string
  M_GroupID :: string
  M_GroupName :: string
  M_GroupIcon :: string
  M_GroupColor :: string
  M_DeviceID :: string
  M_Subnet :: string
  M_VirtualIP :: string
  M_Role :: role
  M_CreatedAt :: int
  M_InviteCode :: string
  M_OnlineMembers :: "nat option"
  M_Members :: "nat option"

record member =
  mb_DeviceID :: string
  mb_Nickname :: string
  mb_VirtualIP :: string
  mb_Role :: role
  mb_Online :: bool

record session_info =
  S_ID :: string
  S_GroupID :: string
  S_MembershipID :: string
  S_DeviceID :: string
  S_VirtualIP :: string

record session_peer =
  sp_DeviceID :: string
  sp_Nickname :: string
  sp_VirtualIP :: string
  sp_TransportKey :: string
  sp_Endpoint :: "(string \<times> int) option"

section \<open>Statements and transactions\<close>

definition update_where :: "('a \<Rightarrow> bool) \<Rightarrow> ('a \<Rightarrow> 'a) \<Rightarrow> 'a list \<Rightarrow> 'a list" where
  "update_where P f rows = map (\<lambda>r. if P r then f r else r) rows"

definition delete_where :: "('a \<Rightarrow> bool) \<Rightarrow> 'a list \<Rightarrow> 'a list" where
  "delete_where P rows = filter (\<lambda>r. \<not> P r) rows"

definition store_write :: "db \<Rightarrow> (store_error + 'a \<times> db) \<Rightarrow> (store_error + 'a) \<times> db" where
  "store_write db work = (case work of Inl e \<Rightarrow> (Inl e, db) | Inr (x, db') \<Rightarrow> (Inr x, db'))"

abbreviation active :: "membership_row \<Rightarrow> bool" where
  "active m \<equiv> mem_revoked_at m = None"

definition is_place :: "string \<Rightarrow> string \<Rightarrow> membership_row \<Rightarrow> bool" where
  "is_place g d m \<longleftrightarrow> mem_group_id m = g \<and> mem_device_id m = d"

definition place :: "string \<Rightarrow> string \<Rightarrow> db \<Rightarrow> membership_row option" where
  "place g d db = find (is_place g d) (db_memberships db)"

definition group_row_by_id :: "string \<Rightarrow> db \<Rightarrow> group_row option" where
  "group_row_by_id g db = find (\<lambda>r. grp_id r = g) (db_groups db)"

definition device_row :: "string \<Rightarrow> db \<Rightarrow> device option" where
  "device_row d db = find (\<lambda>r. dev_id r = d) (db_devices db)"

definition membership_by_id :: "string \<Rightarrow> db \<Rightarrow> membership_row option" where
  "membership_by_id i db = find (\<lambda>r. mem_id r = i) (db_memberships db)"

section \<open>Addresses\<close>

definition takenAddresses :: "string \<Rightarrow> db \<Rightarrow> string list" where
  "takenAddresses g db =
     List.map_filter mem_virtual_ip
       (filter (\<lambda>m. mem_group_id m = g \<and> active m) (db_memberships db))"

text \<open>The loop of \<open>freeAddress\<close>, at a candidate address.\<close>

function free_from :: "prefix \<Rightarrow> string list \<Rightarrow> u32 \<Rightarrow> store_error + string" where
  "free_from p taken candidate =
     (if \<not> prefix_contains p (Addr4 candidate) then Inl ErrGroupFull
      else if \<not> prefix_contains p (addr_next (Addr4 candidate)) then Inl ErrGroupFull
      else if ipv4_String candidate \<notin> set taken then Inr (ipv4_String candidate)
      else free_from p taken (candidate + 1))"
  by auto

termination free_from
proof (relation "measure (\<lambda>(p, taken, w). 2 ^ 32 - unat w)")
  fix p taken and w :: u32
  assume "\<not> \<not> prefix_contains p (addr_next (Addr4 w))"
  then have "1 + w \<noteq> 0" by (cases p) (auto simp: add_eq_0_iff split: if_splits)
  then have "unat (w + 1) = Suc (unat w)" using unatSuc [of w] by (simp add: add.commute)
  moreover have "unat (w + 1) < 2 ^ 32" using unsigned_less [of "w + 1"] by simp
  ultimately show "((p, taken, w + 1), p, taken, w) \<in> measure (\<lambda>(p, taken, w). 2 ^ 32 - unat w)" by simp
qed simp

declare free_from.simps [simp del]

definition freeAddress :: "string \<Rightarrow> string list \<Rightarrow> store_error + string" where
  "freeAddress subnet taken =
     (case ParsePrefix subnet of
        None \<Rightarrow> Inl ErrBadSubnet
      | Some p \<Rightarrow>
          (case addr_next (masked p) of
             Addr4 candidate \<Rightarrow> free_from p taken candidate
           | _ \<Rightarrow> Inl ErrGroupFull))"

text \<open>
  \<open>UPDATE memberships SET virtual_ip\<close>, under the index that lets no two active memberships
  of a group hold one address.
\<close>

definition set_address :: "string \<Rightarrow> string \<Rightarrow> string \<Rightarrow> db \<Rightarrow> store_error + db" where
  "set_address g d address db =
     (if \<exists>m\<in>set (db_memberships db). \<not> is_place g d m \<and> mem_group_id m = g \<and> active m \<and>
           mem_virtual_ip m = Some address
      then Inl ErrConstraint
      else Inr (db\<lparr>db_memberships := update_where (is_place g d)
                    (\<lambda>m. m\<lparr>mem_virtual_ip := Some address\<rparr>) (db_memberships db)\<rparr>))"

definition assignAddress ::
  "group \<Rightarrow> string \<Rightarrow> string \<Rightarrow> db \<Rightarrow> store_error + string \<times> db" where
  "assignAddress g d previous db =
     (let taken = takenAddresses (G_ID g) db;
          chosen = (if previous = [] \<or> previous \<in> set taken then freeAddress (G_Subnet g) taken
                    else Inr previous)
      in case chosen of
           Inl e \<Rightarrow> Inl e
         | Inr address \<Rightarrow>
             (case set_address (G_ID g) d address db of
                Inl e \<Rightarrow> Inl e
              | Inr db \<Rightarrow> Inr (address, db)))"

section \<open>Joining\<close>

text \<open>\<open>INSERT INTO memberships ... ON CONFLICT (group_id, device_id) DO UPDATE\<close>.\<close>

definition upsert_membership ::
  "string \<Rightarrow> string \<Rightarrow> string \<Rightarrow> int \<Rightarrow> db \<Rightarrow> store_error + db" where
  "upsert_membership i g d at db =
     (if membership_by_id i db \<noteq> None then Inl ErrConstraint
      else case place g d db of
        Some _ \<Rightarrow>
          Inr (db\<lparr>db_memberships := update_where (is_place g d)
                  (\<lambda>m. m\<lparr>mem_revoked_at := None, mem_virtual_ip := None\<rparr>) (db_memberships db)\<rparr>)
      | None \<Rightarrow>
          if group_row_by_id g db = None \<or> device_row d db = None then Inl ErrConstraint
          else Inr (db\<lparr>db_memberships := db_memberships db @
                 [\<lparr>mem_id = i, mem_group_id = g, mem_device_id = d, mem_created_at = at,
                   mem_revoked_at = None, mem_banned_at = None, mem_virtual_ip = None,
                   mem_role = RoleMember\<rparr>]\<rparr>))"

definition insertMembership ::
  "bytes option \<Rightarrow> group \<Rightarrow> string \<Rightarrow> instant \<Rightarrow> db \<Rightarrow> store_error + membership \<times> db" where
  "insertMembership raw g d now db =
     (case NewID ''mem'' raw of
        None \<Rightarrow> Inl ErrRandom
      | Some i \<Rightarrow>
          let previous = (case place (G_ID g) d db of
                            None \<Rightarrow> []
                          | Some m \<Rightarrow> (case mem_virtual_ip m of None \<Rightarrow> [] | Some ip \<Rightarrow> ip))
          in case upsert_membership i (G_ID g) d (unix now) db of
               Inl e \<Rightarrow> Inl e
             | Inr db \<Rightarrow>
                 (case assignAddress g d previous db of
                    Inl e \<Rightarrow> Inl e
                  | Inr (address, db) \<Rightarrow>
                      (case place (G_ID g) d db of
                         None \<Rightarrow> Inl ErrScan
                       | Some m \<Rightarrow>
                           Inr (\<lparr>M_ID = mem_id m, M_GroupID = G_ID g, M_GroupName = G_Name g,
                                 M_GroupIcon = G_Icon g, M_GroupColor = G_Color g, M_DeviceID = d,
                                 M_Subnet = G_Subnet g, M_VirtualIP = address, M_Role = mem_role m,
                                 M_CreatedAt = mem_created_at m, M_InviteCode = G_InviteCode g,
                                 M_OnlineMembers = None, M_Members = None\<rparr>, db))))"

definition AddMembership ::
  "bytes option \<Rightarrow> group \<Rightarrow> string \<Rightarrow> instant \<Rightarrow> db \<Rightarrow> (store_error + membership) \<times> db" where
  "AddMembership raw g d now db =
     store_write db
       (case place (G_ID g) d db of
          Some m \<Rightarrow> if mem_banned_at m \<noteq> None then Inl ErrBanned else insertMembership raw g d now db
        | None \<Rightarrow> insertMembership raw g d now db)"

section \<open>Invite codes\<close>

fun free_code :: "bytes option list \<Rightarrow> db \<Rightarrow> store_error + string" where
  "free_code [] db = Inl ErrNoFreeCode"
| "free_code (raw # draws) db =
     (case NewInviteCode raw of
        None \<Rightarrow> Inl ErrRandom
      | Some c \<Rightarrow> if c \<in> grp_invite_code ` set (db_groups db) then free_code draws db else Inr c)"

definition freeInviteCode :: "(nat \<Rightarrow> bytes option) \<Rightarrow> db \<Rightarrow> store_error + string" where
  "freeInviteCode draws db = free_code (map draws [0..<5]) db"

definition setInviteCode ::
  "(nat \<Rightarrow> bytes option) \<Rightarrow> string \<Rightarrow> db \<Rightarrow> store_error + string \<times> db" where
  "setInviteCode draws g db =
     (case freeInviteCode draws db of
        Inl e \<Rightarrow> Inl e
      | Inr c \<Rightarrow>
          if group_row_by_id g db = None then Inl ErrNotFound
          else Inr (c, db\<lparr>db_groups := update_where (\<lambda>r. grp_id r = g)
                            (\<lambda>r. r\<lparr>grp_invite_code := c\<rparr>) (db_groups db)\<rparr>))"

definition to_group :: "group_row \<Rightarrow> group" where
  "to_group r = \<lparr>G_ID = grp_id r, G_Name = grp_name r, G_Icon = grp_icon r, G_Color = grp_color r,
     G_Subnet = grp_subnet r, G_InviteCode = grp_invite_code r\<rparr>"

definition GroupByID :: "string \<Rightarrow> db \<Rightarrow> store_error + group" where
  "GroupByID g db =
     (case group_row_by_id g db of None \<Rightarrow> Inl ErrNotFound | Some r \<Rightarrow> Inr (to_group r))"

definition GroupByInviteCode :: "string \<Rightarrow> db \<Rightarrow> store_error + group" where
  "GroupByInviteCode c db =
     (let normalized = Normalize c
      in if normalized = [] then Inl ErrNotFound
         else case find (\<lambda>r. grp_invite_code r = normalized) (db_groups db) of
                None \<Rightarrow> Inl ErrNotFound
              | Some r \<Rightarrow> Inr (to_group r))"

definition MemberCount :: "string \<Rightarrow> db \<Rightarrow> nat" where
  "MemberCount g db = length (filter (\<lambda>m. mem_group_id m = g \<and> active m) (db_memberships db))"

section \<open>Groups\<close>

definition insert_group :: "group \<Rightarrow> string \<Rightarrow> string \<Rightarrow> int \<Rightarrow> db \<Rightarrow> store_error + db" where
  "insert_group g c d at db =
     (if group_row_by_id (G_ID g) db \<noteq> None \<or> c \<in> grp_invite_code ` set (db_groups db) \<or>
         device_row d db = None
      then Inl ErrConstraint
      else Inr (db\<lparr>db_groups := db_groups db @
             [\<lparr>grp_id = G_ID g, grp_name = G_Name g, grp_icon = G_Icon g, grp_color = G_Color g,
               grp_subnet = G_Subnet g, grp_invite_code = c, grp_created_by = d, grp_created_at = at\<rparr>]\<rparr>))"

definition CreateGroup ::
  "(nat \<Rightarrow> bytes option) \<Rightarrow> bytes option \<Rightarrow> group \<Rightarrow> string \<Rightarrow> instant \<Rightarrow> db \<Rightarrow>
     (store_error + membership) \<times> db" where
  "CreateGroup draws raw g d now db =
     store_write db
       (case freeInviteCode draws db of
          Inl e \<Rightarrow> Inl e
        | Inr c \<Rightarrow>
            let g = g\<lparr>G_InviteCode := c\<rparr>
            in case insert_group g c d (unix now) db of
                 Inl e \<Rightarrow> Inl e
               | Inr db \<Rightarrow>
                   (case insertMembership raw g d now db of
                      Inl e \<Rightarrow> Inl e
                    | Inr (m, db) \<Rightarrow>
                        Inr (m\<lparr>M_Role := RoleOwner\<rparr>,
                             db\<lparr>db_memberships := update_where (\<lambda>r. mem_id r = M_ID m)
                                  (\<lambda>r. r\<lparr>mem_role := RoleOwner\<rparr>) (db_memberships db)\<rparr>)))"

text \<open>Reading an address that was never assigned into a Go string fails.\<close>

definition scan_all :: "('a \<Rightarrow> store_error + 'b) \<Rightarrow> 'a list \<Rightarrow> store_error + 'b list" where
  "scan_all f rows =
     foldr (\<lambda>r acc. case f r of Inl e \<Rightarrow> Inl e
                      | Inr x \<Rightarrow> (case acc of Inl e \<Rightarrow> Inl e | Inr xs \<Rightarrow> Inr (x # xs))) rows (Inr [])"

definition to_membership :: "db \<Rightarrow> membership_row \<Rightarrow> group_row \<Rightarrow> store_error + membership" where
  "to_membership db m g =
     (case mem_virtual_ip m of
        None \<Rightarrow> Inl ErrScan
      | Some ip \<Rightarrow>
          Inr \<lparr>M_ID = mem_id m, M_GroupID = mem_group_id m, M_GroupName = grp_name g,
               M_GroupIcon = grp_icon g, M_GroupColor = grp_color g, M_DeviceID = mem_device_id m,
               M_Subnet = grp_subnet g, M_VirtualIP = ip, M_Role = mem_role m,
               M_CreatedAt = mem_created_at m, M_InviteCode = grp_invite_code g,
               M_OnlineMembers = None, M_Members = None\<rparr>)"

definition MembershipsByDevice :: "string \<Rightarrow> db \<Rightarrow> store_error + membership list" where
  "MembershipsByDevice d db =
     scan_all
       (\<lambda>(m, g). case to_membership db m g of
          Inl e \<Rightarrow> Inl e
        | Inr x \<Rightarrow> Inr (x\<lparr>M_OnlineMembers := Some (length (filter (\<lambda>s. ses_group_id s = mem_group_id m)
                                                      (db_sessions db))),
                          M_Members := Some (MemberCount (mem_group_id m) db)\<rparr>))
       (sort_key (\<lambda>(m, g). mem_created_at m)
         [(m, g). m \<leftarrow> db_memberships db, mem_device_id m = d \<and> active m,
                  g \<leftarrow> db_groups db, grp_id g = mem_group_id m])"

definition Members :: "string \<Rightarrow> db \<Rightarrow> store_error + member list" where
  "Members g db =
     scan_all
       (\<lambda>(m, d). case mem_virtual_ip m of
          None \<Rightarrow> Inl ErrScan
        | Some ip \<Rightarrow> Inr \<lparr>mb_DeviceID = mem_device_id m, mb_Nickname = dev_nickname d,
                           mb_VirtualIP = ip, mb_Role = mem_role m,
                           mb_Online = (\<exists>s\<in>set (db_sessions db). ses_membership_id s = mem_id m)\<rparr>)
       (sort_key (\<lambda>(m, d). mem_created_at m)
         [(m, d). m \<leftarrow> db_memberships db, mem_group_id m = g \<and> active m,
                  d \<leftarrow> db_devices db, dev_id d = mem_device_id m])"

definition Membership :: "string \<Rightarrow> string \<Rightarrow> db \<Rightarrow> store_error + membership" where
  "Membership g d db =
     (case place g d db of
        None \<Rightarrow> Inl ErrNotFound
      | Some m \<Rightarrow>
          if \<not> active m then Inl ErrNotFound
          else case group_row_by_id g db of
                 None \<Rightarrow> Inl ErrNotFound
               | Some r \<Rightarrow> to_membership db m r)"

text \<open>
  \<open>RevokeMembership\<close> is two statements outside a transaction; other calls may run between
  them, so each is a definition of its own.
\<close>

definition revoke_row :: "string \<Rightarrow> string \<Rightarrow> instant \<Rightarrow> db \<Rightarrow> (store_error + unit) \<times> db" where
  "revoke_row g d now db =
     (case find (\<lambda>m. is_place g d m \<and> active m) (db_memberships db) of
        None \<Rightarrow> (Inl ErrNotFound, db)
      | Some _ \<Rightarrow>
          (Inr (), db\<lparr>db_memberships := update_where (\<lambda>m. is_place g d m \<and> active m)
                        (\<lambda>m. m\<lparr>mem_revoked_at := Some (unix now)\<rparr>) (db_memberships db)\<rparr>))"

definition end_sessions :: "string \<Rightarrow> string \<Rightarrow> db \<Rightarrow> db" where
  "end_sessions g d db =
     db\<lparr>db_sessions := delete_where
          (\<lambda>s. ses_membership_id s \<in> mem_id ` set (filter (is_place g d) (db_memberships db)))
          (db_sessions db)\<rparr>"

definition RevokeMembership :: "string \<Rightarrow> string \<Rightarrow> instant \<Rightarrow> db \<Rightarrow> (store_error + unit) \<times> db" where
  "RevokeMembership g d now db =
     (case revoke_row g d now db of
        (Inl e, db) \<Rightarrow> (Inl e, db)
      | (Inr _, db) \<Rightarrow> (Inr (), end_sessions g d db))"

definition ownerOnly :: "string \<Rightarrow> string \<Rightarrow> db \<Rightarrow> store_error option" where
  "ownerOnly g d db =
     (case find (\<lambda>m. is_place g d m \<and> active m) (db_memberships db) of
        None \<Rightarrow> Some ErrNotFound
      | Some m \<Rightarrow> if mem_role m \<noteq> RoleOwner then Some ErrForbidden else None)"

definition RemoveMember ::
  "string \<Rightarrow> string \<Rightarrow> string \<Rightarrow> instant \<Rightarrow> db \<Rightarrow> (store_error + unit) \<times> db" where
  "RemoveMember g owner target now db =
     (if owner = target then (Inl ErrForbidden, db)
      else store_write db
        (case ownerOnly g owner db of
           Some e \<Rightarrow> Inl e
         | None \<Rightarrow>
             if \<not> (\<exists>m\<in>set (db_memberships db). is_place g target m \<and> active m) then Inl ErrNotFound
             else
               let db = db\<lparr>db_memberships := update_where (\<lambda>m. is_place g target m \<and> active m)
                            (\<lambda>m. m\<lparr>mem_revoked_at := Some (unix now), mem_banned_at := Some (unix now)\<rparr>)
                            (db_memberships db)\<rparr>
               in Inr ((), db\<lparr>db_sessions := delete_where
                         (\<lambda>s. ses_group_id s = g \<and>
                              ses_membership_id s \<in> mem_id ` set (filter (is_place g target) (db_memberships db)))
                         (db_sessions db)\<rparr>)))"

definition RenameGroup :: "string \<Rightarrow> string \<Rightarrow> string \<Rightarrow> db \<Rightarrow> (store_error + unit) \<times> db" where
  "RenameGroup g owner name db =
     store_write db
       (case ownerOnly g owner db of
          Some e \<Rightarrow> Inl e
        | None \<Rightarrow> Inr ((), db\<lparr>db_groups := update_where (\<lambda>r. grp_id r = g)
                               (\<lambda>r. r\<lparr>grp_name := name\<rparr>) (db_groups db)\<rparr>))"

definition SetGroupAppearance ::
  "string \<Rightarrow> string \<Rightarrow> string \<Rightarrow> string \<Rightarrow> db \<Rightarrow> (store_error + unit) \<times> db" where
  "SetGroupAppearance g owner icon color db =
     store_write db
       (case ownerOnly g owner db of
          Some e \<Rightarrow> Inl e
        | None \<Rightarrow> Inr ((), db\<lparr>db_groups := update_where (\<lambda>r. grp_id r = g)
                               (\<lambda>r. r\<lparr>grp_icon := icon, grp_color := color\<rparr>) (db_groups db)\<rparr>))"

definition TransferOwnership ::
  "string \<Rightarrow> string \<Rightarrow> string \<Rightarrow> db \<Rightarrow> (store_error + unit) \<times> db" where
  "TransferOwnership g owner target db =
     store_write db
       (case ownerOnly g owner db of
          Some e \<Rightarrow> Inl e
        | None \<Rightarrow>
            if \<not> (\<exists>m\<in>set (db_memberships db). is_place g target m \<and> active m) then Inl ErrNotFound
            else
              let ms = update_where (\<lambda>m. is_place g target m \<and> active m)
                         (\<lambda>m. m\<lparr>mem_role := RoleOwner\<rparr>) (db_memberships db);
                  ms = update_where (is_place g owner) (\<lambda>m. m\<lparr>mem_role := RoleMember\<rparr>) ms
              in Inr ((), db\<lparr>db_memberships := ms\<rparr>))"

definition DeleteGroup :: "string \<Rightarrow> string \<Rightarrow> db \<Rightarrow> (store_error + unit) \<times> db" where
  "DeleteGroup g owner db =
     store_write db
       (case ownerOnly g owner db of
          Some e \<Rightarrow> Inl e
        | None \<Rightarrow>
            if group_row_by_id g db = None then Inl ErrNotFound
            else
              let gone = mem_id ` set (filter (\<lambda>m. mem_group_id m = g) (db_memberships db))
              in Inr ((), db\<lparr>db_groups := delete_where (\<lambda>r. grp_id r = g) (db_groups db),
                             db_memberships := delete_where (\<lambda>m. mem_group_id m = g) (db_memberships db),
                             db_sessions := delete_where
                               (\<lambda>s. ses_group_id s = g \<or> ses_membership_id s \<in> gone) (db_sessions db)\<rparr>))"

definition ResetInviteCode ::
  "(nat \<Rightarrow> bytes option) \<Rightarrow> string \<Rightarrow> string \<Rightarrow> db \<Rightarrow> (store_error + string) \<times> db" where
  "ResetInviteCode draws g owner db =
     store_write db
       (case ownerOnly g owner db of
          Some e \<Rightarrow> Inl e
        | None \<Rightarrow> setInviteCode draws g db)"

section \<open>Sessions\<close>

definition CreateSession ::
  "bytes option \<Rightarrow> membership \<Rightarrow> instant \<Rightarrow> db \<Rightarrow> (store_error + session_info) \<times> db" where
  "CreateSession raw m now db =
     (case NewID ''ses'' raw of
        None \<Rightarrow> (Inl ErrRandom, db)
      | Some i \<Rightarrow>
          store_write db
            (let rest = delete_where (\<lambda>s. ses_membership_id s = M_ID m) (db_sessions db)
             in if i \<in> ses_id ` set rest \<or> group_row_by_id (M_GroupID m) db = None \<or>
                   membership_by_id (M_ID m) db = None
                then Inl ErrConstraint
                else Inr (\<lparr>S_ID = i, S_GroupID = M_GroupID m, S_MembershipID = M_ID m,
                           S_DeviceID = M_DeviceID m, S_VirtualIP = M_VirtualIP m\<rparr>,
                          db\<lparr>db_sessions := rest @
                            [\<lparr>ses_id = i, ses_group_id = M_GroupID m, ses_membership_id = M_ID m,
                              ses_endpoint = None, ses_connected_at = unix now,
                              ses_last_seen_at = unix now\<rparr>]\<rparr>)))"

definition SessionByID :: "string \<Rightarrow> db \<Rightarrow> store_error + session_info" where
  "SessionByID i db =
     (case find (\<lambda>s. ses_id s = i) (db_sessions db) of
        None \<Rightarrow> Inl ErrNotFound
      | Some s \<Rightarrow>
          (case membership_by_id (ses_membership_id s) db of
             None \<Rightarrow> Inl ErrNotFound
           | Some m \<Rightarrow>
               (case mem_virtual_ip m of
                  None \<Rightarrow> Inl ErrScan
                | Some ip \<Rightarrow> Inr \<lparr>S_ID = i, S_GroupID = ses_group_id s, S_MembershipID = ses_membership_id s,
                                   S_DeviceID = mem_device_id m, S_VirtualIP = ip\<rparr>)))"

definition PeersInGroup :: "string \<Rightarrow> string \<Rightarrow> db \<Rightarrow> store_error + session_peer list" where
  "PeersInGroup g except db =
     scan_all
       (\<lambda>(s, m, d). case mem_virtual_ip m of
          None \<Rightarrow> Inl ErrScan
        | Some ip \<Rightarrow> Inr \<lparr>sp_DeviceID = mem_device_id m, sp_Nickname = dev_nickname d,
                           sp_VirtualIP = ip, sp_TransportKey = dev_transport_key d,
                           sp_Endpoint = ses_endpoint s\<rparr>)
       (sort_key (\<lambda>(s, m, d). ses_connected_at s)
         [(s, m, d). s \<leftarrow> db_sessions db, ses_group_id s = g,
                     m \<leftarrow> db_memberships db, mem_id m = ses_membership_id s \<and>
                       mem_device_id m \<noteq> except \<and> active m,
                     d \<leftarrow> db_devices db, dev_id d = mem_device_id m])"

definition update_session ::
  "string \<Rightarrow> (session_row \<Rightarrow> session_row) \<Rightarrow> db \<Rightarrow> (store_error + unit) \<times> db" where
  "update_session i f db =
     (if i \<notin> ses_id ` set (db_sessions db) then (Inl ErrNotFound, db)
      else (Inr (), db\<lparr>db_sessions := update_where (\<lambda>s. ses_id s = i) f (db_sessions db)\<rparr>))"

definition SetSessionEndpoint ::
  "string \<Rightarrow> string \<Rightarrow> int \<Rightarrow> instant \<Rightarrow> db \<Rightarrow> (store_error + unit) \<times> db" where
  "SetSessionEndpoint i address port now db =
     update_session i (\<lambda>s. s\<lparr>ses_endpoint := Some (address, port), ses_last_seen_at := unix now\<rparr>) db"

definition TouchSession :: "string \<Rightarrow> instant \<Rightarrow> db \<Rightarrow> (store_error + unit) \<times> db" where
  "TouchSession i now db = update_session i (\<lambda>s. s\<lparr>ses_last_seen_at := unix now\<rparr>) db"

definition DeleteSession :: "string \<Rightarrow> db \<Rightarrow> (store_error + unit) \<times> db" where
  "DeleteSession i db =
     (if i \<notin> ses_id ` set (db_sessions db) then (Inl ErrNotFound, db)
      else (Inr (), db\<lparr>db_sessions := delete_where (\<lambda>s. ses_id s = i) (db_sessions db)\<rparr>))"

text \<open>The session id, group and device of each session that expired.\<close>

definition ExpireSessions ::
  "duration \<Rightarrow> instant \<Rightarrow> db \<Rightarrow> (string \<times> string \<times> string) list \<times> db" where
  "ExpireSessions olderThan now db =
     (let cutoff = unix (now - olderThan);
          stale = [(ses_id s, ses_group_id s, mem_device_id m).
                     s \<leftarrow> db_sessions db, ses_last_seen_at s \<le> cutoff,
                     m \<leftarrow> db_memberships db, mem_id m = ses_membership_id s]
      in if stale = [] then ([], db)
         else (stale, db\<lparr>db_sessions := delete_where (\<lambda>s. ses_last_seen_at s \<le> cutoff) (db_sessions db)\<rparr>))"

section \<open>Devices\<close>

text \<open>The token a call draws is an argument, and so is the hash it is stored under.\<close>

definition upsert_device :: "device \<Rightarrow> int \<Rightarrow> db \<Rightarrow> store_error + db" where
  "upsert_device d at db =
     (if \<exists>r\<in>set (db_devices db). dev_id r \<noteq> dev_id d \<and> dev_public_key r = dev_public_key d
      then Inl ErrConflict
      else case device_row (dev_id d) db of
             Some _ \<Rightarrow>
               Inr (db\<lparr>db_devices := update_where (\<lambda>r. dev_id r = dev_id d)
                 (\<lambda>r. r\<lparr>dev_public_key := dev_public_key d, dev_transport_key := dev_transport_key d,
                        dev_name := dev_name d,
                        dev_nickname := (if dev_nickname r = [] then dev_nickname d else dev_nickname r),
                        dev_last_seen_at := at\<rparr>) (db_devices db)\<rparr>)
           | None \<Rightarrow>
               Inr (db\<lparr>db_devices := db_devices db @
                      [d\<lparr>dev_created_at := at, dev_last_seen_at := at\<rparr>]\<rparr>))"

definition RegisterDevice ::
  "(string \<Rightarrow> string) \<Rightarrow> string option \<Rightarrow> device \<Rightarrow> instant \<Rightarrow> db \<Rightarrow> (store_error + string) \<times> db" where
  "RegisterDevice hashToken newToken d now db =
     (case newToken of
        None \<Rightarrow> (Inl ErrRandom, db)
      | Some token \<Rightarrow>
          store_write db
            (case upsert_device d (unix now) db of
               Inl e \<Rightarrow> Inl e
             | Inr db \<Rightarrow>
                 if hashToken token \<in> tok_hash ` set (db_tokens db) then Inl ErrConstraint
                 else Inr (token, db\<lparr>db_tokens := db_tokens db @
                        [\<lparr>tok_hash = hashToken token, tok_device_id = dev_id d,
                          tok_created_at = unix now, tok_revoked_at = None\<rparr>]\<rparr>)))"

definition DeviceByToken ::
  "(string \<Rightarrow> string) \<Rightarrow> string \<Rightarrow> instant \<Rightarrow> db \<Rightarrow> (store_error + device) \<times> db" where
  "DeviceByToken hashToken token now db =
     (case find (\<lambda>t. tok_hash t = hashToken token \<and> tok_revoked_at t = None) (db_tokens db) of
        None \<Rightarrow> (Inl ErrNotFound, db)
      | Some t \<Rightarrow>
          (case device_row (tok_device_id t) db of
             None \<Rightarrow> (Inl ErrNotFound, db)
           | Some d \<Rightarrow>
               (Inr d, db\<lparr>db_devices := update_where (\<lambda>r. dev_id r = dev_id d)
                           (\<lambda>r. r\<lparr>dev_last_seen_at := unix now\<rparr>) (db_devices db)\<rparr>)))"

definition SetDeviceNickname :: "string \<Rightarrow> string \<Rightarrow> db \<Rightarrow> (store_error + unit) \<times> db" where
  "SetDeviceNickname d nickname db =
     (if device_row d db = None then (Inl ErrNotFound, db)
      else (Inr (), db\<lparr>db_devices := update_where (\<lambda>r. dev_id r = d)
                        (\<lambda>r. r\<lparr>dev_nickname := nickname\<rparr>) (db_devices db)\<rparr>))"

definition ConnectedGroupIDs :: "string \<Rightarrow> db \<Rightarrow> string list" where
  "ConnectedGroupIDs d db =
     remdups [ses_group_id s. s \<leftarrow> db_sessions db,
                m \<leftarrow> db_memberships db, mem_id m = ses_membership_id s \<and> mem_device_id m = d]"

definition ClaimRegisterNonce :: "string \<Rightarrow> duration \<Rightarrow> instant \<Rightarrow> db \<Rightarrow> bool \<times> db" where
  "ClaimRegisterNonce nonce keepFor now db =
     (let kept = delete_where (\<lambda>(n, at). at \<le> unix (now - keepFor)) (db_nonces db);
          db = db\<lparr>db_nonces := kept\<rparr>
      in if nonce \<in> fst ` set kept then (False, db)
         else (True, db\<lparr>db_nonces := kept @ [(nonce, unix now)]\<rparr>))"

end
