(* ===== verification/Storage_Addr.thy ===== *)
theory Storage_Addr
  imports Storage
begin

text \<open>
  How the store hands out addresses: a prefix is an interval of addresses, the loop of
  \<^verbatim>\<open>freeAddress\<close> finds the lowest host address nobody holds, and the text of an address
  reads back as the address.
\<close>

section \<open>Prefixes as intervals\<close>

lemma unat_drop_bit: "unat (drop_bit k (x :: u32)) = unat x div 2 ^ k"
proof -
  have "unat x < 2 ^ 32" using unsigned_less [of x] by simp
  then show ?thesis unfolding unsigned_drop_bit_eq by (simp add: drop_bit_eq_div take_bit_eq_mod)
qed

lemma drop_bit_eq_iff_div: "drop_bit k (v :: u32) = drop_bit k w \<longleftrightarrow> unat v div 2 ^ k = unat w div 2 ^ k"
  by (simp only: word_unat_eq_iff unat_drop_bit)

lemma host_mask_bit: "bit (host_mask bits :: u32) n \<longleftrightarrow> n + bits < 32"
  by (auto simp: host_mask_def bit_simps)

lemma contains_iff_drop_bit:
  assumes "bits \<le> 32"
  shows "(w XOR p) AND NOT (host_mask bits) = 0 \<longleftrightarrow> drop_bit (32 - bits) (w :: u32) = drop_bit (32 - bits) p"
proof
  assume L: "(w XOR p) AND NOT (host_mask bits) = 0"
  show "drop_bit (32 - bits) w = drop_bit (32 - bits) p"
  proof (rule bit_word_eqI)
    fix n
    assume "n < LENGTH(32)"
    have "\<not> bit ((w XOR p) AND NOT (host_mask bits)) (32 - bits + n)" using L by simp
    then show "bit (drop_bit (32 - bits) w) n = bit (drop_bit (32 - bits) p) n"
      using assms by (auto simp: bit_simps host_mask_bit dest: bit_imp_le_length)
  qed
next
  assume R: "drop_bit (32 - bits) w = drop_bit (32 - bits) p"
  show "(w XOR p) AND NOT (host_mask bits) = 0"
  proof (rule bit_word_eqI)
    fix n
    assume "n < LENGTH(32)"
    have "bit (drop_bit (32 - bits) w) (n - (32 - bits)) = bit (drop_bit (32 - bits) p) (n - (32 - bits))"
      using R by simp
    then show "bit ((w XOR p) AND NOT (host_mask bits)) n = bit 0 n"
      using assms \<open>n < LENGTH(32)\<close> by (cases "32 - bits \<le> n") (auto simp: bit_simps host_mask_bit)
  qed
qed

lemma prefix_contains_div:
  assumes "bits \<le> 32"
  shows "prefix_contains \<lparr>pfx_addr = Addr4 p, pfx_bits = bits\<rparr> (Addr4 w) \<longleftrightarrow>
    unat w div 2 ^ (32 - bits) = unat p div 2 ^ (32 - bits)"
  using assms by (simp add: contains_iff_drop_bit drop_bit_eq_iff_div)

lemma unat_masked:
  assumes "bits \<le> 32"
  shows "unat ((p :: u32) AND NOT (host_mask bits)) = unat p div 2 ^ (32 - bits) * 2 ^ (32 - bits)"
proof -
  have "p AND NOT (host_mask bits) = push_bit (32 - bits) (drop_bit (32 - bits) p)"
    using assms by (intro bit_word_eqI) (auto simp: bit_simps host_mask_bit)
  also have "unat \<dots> = unat p div 2 ^ (32 - bits) * 2 ^ (32 - bits)"
  proof -
    have "unat p div 2 ^ (32 - bits) * 2 ^ (32 - bits) \<le> unat p" by simp
    also have "unat p < 2 ^ 32" using unsigned_less [of p] by simp
    finally have "unat p div 2 ^ (32 - bits) * 2 ^ (32 - bits) < 2 ^ 32" .
    then show ?thesis
      unfolding unsigned_push_bit_eq unat_drop_bit by (simp add: push_bit_eq_mult take_bit_eq_mod)
  qed
  finally show ?thesis .
qed

section \<open>The lowest free address\<close>

text \<open>The host part of an address, and the addresses of a subnet a machine can have.\<close>

definition hosts :: "u32 \<Rightarrow> nat \<Rightarrow> u32 set" where
  "hosts p bits =
     {w. unat w div 2 ^ (32 - bits) = unat p div 2 ^ (32 - bits) \<and>
         0 < unat w mod 2 ^ (32 - bits) \<and> Suc (unat w mod 2 ^ (32 - bits)) < 2 ^ (32 - bits)}"

lemma Suc_div_same: "0 < K \<Longrightarrow> Suc n div K = n div K \<longleftrightarrow> Suc (n mod K) < K" for n K :: nat
  using mod_less_divisor [of K n] by (auto simp: div_Suc mod_Suc simp del: mod_less_divisor)

lemma next_contains:
  assumes bits: "bits \<le> 32" and at: "unat c div 2 ^ (32 - bits) = unat q div 2 ^ (32 - bits)"
  shows "prefix_contains \<lparr>pfx_addr = Addr4 q, pfx_bits = bits\<rparr> (addr_next (Addr4 c)) \<longleftrightarrow>
    Suc (unat c mod 2 ^ (32 - bits)) < 2 ^ (32 - bits)"
proof (cases "c = - 1")
  case True
  have "(2 :: nat) ^ 32 = 2 ^ bits * 2 ^ (32 - bits)" using bits by (simp flip: power_add)
  then have "Suc (unat c) = 2 ^ bits * 2 ^ (32 - bits)"
    using True by (simp add: unsigned_minus_1_eq_mask mask_eq_exp_minus_1)
  then have "Suc (unat c) mod 2 ^ (32 - bits) = 0" by simp
  then have "Suc (unat c mod 2 ^ (32 - bits)) = 2 ^ (32 - bits)" by (simp add: mod_Suc split: if_splits)
  then show ?thesis using True by simp
next
  case False
  then have "1 + c \<noteq> 0" by (metis add.commute add_eq_0_iff)
  then have "unat (c + 1) = Suc (unat c)" using unatSuc [of c] by (simp add: add.commute)
  then show ?thesis
    using False at Suc_div_same [of "2 ^ (32 - bits)" "unat c"] bits
    by (simp add: prefix_contains_div del: prefix_contains.simps)
qed

lemma unat_next:
  assumes "prefix_contains p (addr_next (Addr4 c))"
  shows "unat (c + 1) = Suc (unat c)"
proof -
  have "1 + c \<noteq> 0" using assms by (cases p) (auto simp: add_eq_0_iff split: if_splits)
  then show ?thesis using unatSuc [of c] by (simp add: add.commute)
qed

lemma host_bounds:
  assumes "w \<in> hosts q bits"
  shows "unat q div 2 ^ (32 - bits) * 2 ^ (32 - bits) < unat w"
    and "Suc (unat w) < Suc (unat q div 2 ^ (32 - bits)) * 2 ^ (32 - bits)"
  using assms div_mult_mod_eq [of "unat w" "2 ^ (32 - bits)"] by (auto simp: hosts_def)

lemma free_from_result:
  assumes "bits \<le> 32" and "p = \<lparr>pfx_addr = Addr4 q, pfx_bits = bits\<rparr>"
    and "unat q div 2 ^ (32 - bits) * 2 ^ (32 - bits) < unat c"
  shows "case free_from p taken c of
           Inl e \<Rightarrow> e = ErrGroupFull \<and> (\<forall>w\<in>hosts q bits. c \<le> w \<longrightarrow> ipv4_String w \<in> set taken)
         | Inr a \<Rightarrow> \<exists>w\<in>hosts q bits. a = ipv4_String w \<and> a \<notin> set taken \<and>
                     (\<forall>v\<in>hosts q bits. c \<le> v \<and> v < w \<longrightarrow> ipv4_String v \<in> set taken)"
  using assms
proof (induction p taken c rule: free_from.induct)
  case (1 p taken c)
  let ?K = "2 ^ (32 - bits) :: nat"
  note p = "1.prems"(2)
  show ?case
  proof (cases "prefix_contains p (Addr4 c)")
    case False
    then have "unat c div ?K \<noteq> unat q div ?K" using "1.prems"(1) p by (simp add: prefix_contains_div del: prefix_contains.simps)
    moreover have "unat q div ?K \<le> unat c div ?K"
      using div_le_mono [OF less_imp_le [OF "1.prems"(3)], of ?K] by simp
    ultimately have "\<not> c \<le> w" if "w \<in> hosts q bits" for w
      using that div_le_mono [of "unat c" "unat w" ?K] by (auto simp: hosts_def word_le_nat_alt)
    then show ?thesis using False by (auto simp: free_from.simps [of p taken c])
  next
    case in_p: True
    then have at: "unat c div ?K = unat q div ?K" using "1.prems"(1) p by (simp add: prefix_contains_div del: prefix_contains.simps)
    have step: "prefix_contains p (addr_next (Addr4 c)) \<longleftrightarrow> Suc (unat c mod ?K) < ?K"
      using next_contains [OF "1.prems"(1) at] p by simp
    have pos: "0 < unat c mod ?K"
      using "1.prems"(3) at div_mult_mod_eq [of "unat c" ?K] by (cases "unat c mod ?K") auto
    show ?thesis
    proof (cases "prefix_contains p (addr_next (Addr4 c))")
      case False
      have "\<not> c \<le> w" if "w \<in> hosts q bits" for w
        using host_bounds(2) [OF that] False step at div_mult_mod_eq [of "unat c" ?K]
        by (auto simp: word_le_nat_alt)
      then show ?thesis using False in_p by (auto simp: free_from.simps [of p taken c])
    next
      case next_in: True
      then have host: "c \<in> hosts q bits" using at pos step by (simp add: hosts_def)
      show ?thesis
      proof (cases "ipv4_String c \<in> set taken")
        case False
        then show ?thesis using in_p next_in host by (auto simp: free_from.simps [of p taken c])
      next
        case True
        have after: "c \<le> v \<longleftrightarrow> v = c \<or> c + 1 \<le> v" for v
          using unat_next [OF next_in] by (auto simp: word_le_nat_alt word_unat_eq_iff)
        have "free_from p taken c = free_from p taken (c + 1)"
          using in_p next_in True by (simp add: free_from.simps [of p taken c])
        with "1.IH" in_p next_in True "1.prems" unat_next [OF next_in] show ?thesis
          by (auto simp: after split: sum.splits)
      qed
    qed
  qed
qed

lemma ParsePrefix_shape:
  "ParsePrefix s = Some p \<Longrightarrow> \<exists>q bits. p = \<lparr>pfx_addr = Addr4 q, pfx_bits = bits\<rparr> \<and> bits \<le> 32"
  by (auto simp: ParsePrefix_def dec_field_def split: list.splits if_splits option.splits)


lemma freeAddress_cases:
  assumes "ParsePrefix subnet = Some \<lparr>pfx_addr = Addr4 q, pfx_bits = bits\<rparr>"
  shows "case freeAddress subnet taken of
           Inl e \<Rightarrow> e = ErrGroupFull \<and> (\<forall>w\<in>hosts q bits. ipv4_String w \<in> set taken)
         | Inr a \<Rightarrow> \<exists>w\<in>hosts q bits. a = ipv4_String w \<and> a \<notin> set taken \<and>
                     (\<forall>v\<in>hosts q bits. v < w \<longrightarrow> ipv4_String v \<in> set taken)"
proof -
  let ?p = "\<lparr>pfx_addr = Addr4 q, pfx_bits = bits\<rparr>" and ?net = "q AND NOT (host_mask bits)"
  have bits: "bits \<le> 32" using ParsePrefix_shape [OF assms] by simp
  show ?thesis
  proof (cases "?net = - 1")
    case True
    have "hosts q bits = {}"
    proof (intro equals0I)
      fix w
      assume "w \<in> hosts q bits"
      then have "unat ?net < unat w" using unat_masked [OF bits, of q] host_bounds(1) by simp
      moreover have "unat w \<le> unat ?net"
        using True word_order.extremum [of w] by (simp add: word_le_nat_alt)
      ultimately show False by simp
    qed
    then show ?thesis using assms True by (simp add: freeAddress_def)
  next
    case False
    then have "unat (?net + 1) = Suc (unat ?net)"
      by (metis add.commute add_eq_0_iff unatSuc)
    then have least: "?net + 1 \<le> w" if "w \<in> hosts q bits" for w
      using unat_masked [OF bits, of q] host_bounds(1) [of _ q bits] that
      by (auto simp: word_le_nat_alt Suc_le_eq)
    have "freeAddress subnet taken = free_from ?p taken (?net + 1)"
      using assms False by (simp add: freeAddress_def)
    then show ?thesis
      using free_from_result [OF bits refl, of q "?net + 1" taken] unat_masked [OF bits, of q]
        \<open>unat (?net + 1) = Suc (unat ?net)\<close> least
      by (auto split: sum.splits)
  qed
qed


section \<open>Addresses as text\<close>

lemma dec_head: "hd (dec n) = CHR ''0'' \<Longrightarrow> n = 0"
proof (induction n rule: dec.induct)
  case (1 n)
  show ?case
  proof (cases "n < 10")
    case True
    with "1.prems" have "code (digit n) = code CHR ''0''" by (subst (asm) dec.simps) simp
    with True show ?thesis by (simp add: code_digit)
  next
    case False
    obtain c cs where "dec (n div 10) = c # cs" using dec_Cons [of "n div 10"] by blast
    with "1.prems" False have "hd (dec (n div 10)) = CHR ''0''" by (subst (asm) dec.simps) simp
    with "1.IH" False have "n div 10 = 0" by simp
    with False show ?thesis by simp
  qed
qed

lemma length_dec_0: "length (dec 0) = 1"
  by (subst dec.simps) simp

lemma dec_field_dec: "n \<le> limit \<Longrightarrow> dec_field limit (dec n) = Some n"
  using dec_head [of n] dec_Cons [of n] length_dec_0 
  by (auto simp: dec_field_def dec_value_dec list_all_iff dest: dec_digits)

lemma of_nat_unat_eq: "unat (w :: u32) = n \<Longrightarrow> w = of_nat n"
  by auto

lemma parse_ipv4_String: "parse_ipv4 (ipv4_String w) = Some w"
proof -
  have byte: "v AND 0xff = v mod 256" for v :: u32
    using take_bit_eq_mod [of 8 v] by (simp add: take_bit_eq_mask mask_eq_exp_minus_1)
  have part: "unat (drop_bit k w AND 0xff) = unat w div 2 ^ k mod 256" for k
    by (simp only: byte unat_mod unat_drop_bit) simp
  have low: "unat (w AND 0xff) = unat w mod 256"
    using part [of 0] by simp
  have high: "unat (drop_bit 24 w) = unat w div 2 ^ 24" "unat w div 2 ^ 24 \<le> 255"
  proof -
    have "unat w < 2 ^ 32" using unsigned_less [of w] by simp
    then show "unat w div 2 ^ 24 \<le> 255" by simp
  qed (rule unat_drop_bit)
  have "unat w = (((unat w div 2 ^ 24) * 256 + unat w div 2 ^ 16 mod 256) * 256 + unat w div 2 ^ 8 mod 256) * 256 +
      unat w mod 256" 
  proof -
    have "unat w div 2 ^ 24 = unat w div 256 div 256 div 256" "unat w div 2 ^ 16 = unat w div 256 div 256"
      "unat w div 2 ^ 8 = unat w div 256"
      by (simp_all flip: div_mult2_eq)
    then show ?thesis by (simp only: div_mult_mod_eq)
  qed
  then have "w = of_nat ((((unat w div 2 ^ 24) * 256 + unat w div 2 ^ 16 mod 256) * 256 + unat w div 2 ^ 8 mod 256) * 256 +
      unat w mod 256)" by (rule of_nat_unat_eq)
  then show ?thesis
    unfolding parse_ipv4_def ipv4_fields part low high(1)
    using high(2) by (simp add: dec_field_dec)
qed


section \<open>The reference: the hosts of a subnet in order\<close>

definition host_list :: "u32 \<Rightarrow> nat \<Rightarrow> u32 list" where
  "host_list q bits =
     map (\<lambda>i. of_nat (unat q div 2 ^ (32 - bits) * 2 ^ (32 - bits) + i)) [1..<2 ^ (32 - bits) - 1]"

lemma find_least:
  assumes "sorted_wrt (<) xs" "w \<in> set xs" "P w" "\<forall>v\<in>set xs. v < w \<longrightarrow> \<not> P v"
  shows "find P xs = Some (w :: 'a :: linorder)"
  using assms by (induction xs) auto

lemma network_bound:
  assumes "bits \<le> 32"
  shows "unat (q :: u32) div 2 ^ (32 - bits) * 2 ^ (32 - bits) + 2 ^ (32 - bits) \<le> 2 ^ 32"
proof -
  have split: "(2 :: nat) ^ 32 = 2 ^ bits * 2 ^ (32 - bits)" using assms by (simp flip: power_add)
  have "unat q < 2 ^ 32" using unsigned_less [of q] by simp
  then have "unat q div 2 ^ (32 - bits) < 2 ^ bits" unfolding split by (simp add: less_mult_imp_div_less)
  then have "Suc (unat q div 2 ^ (32 - bits)) * 2 ^ (32 - bits) \<le> 2 ^ bits * 2 ^ (32 - bits)"
    by (intro mult_le_mono1) simp
  then show ?thesis unfolding split by simp
qed

lemma host_list_nth:
  assumes "bits \<le> 32" "i < 2 ^ (32 - bits)"
  shows "unat (of_nat (unat (q :: u32) div 2 ^ (32 - bits) * 2 ^ (32 - bits) + i) :: u32) =
    unat q div 2 ^ (32 - bits) * 2 ^ (32 - bits) + i"
proof -
  have "unat q div 2 ^ (32 - bits) * 2 ^ (32 - bits) + i < 2 ^ 32"
    using network_bound [OF assms(1), of q] assms(2) by simp
  then show ?thesis by (simp only: unsigned_of_nat) (simp add: take_bit_eq_mod)
qed

lemma set_host_list:
  assumes "bits \<le> 32"
  shows "set (host_list q bits) = hosts q bits"
proof (intro set_eqI iffI)
  fix w
  assume "w \<in> set (host_list q bits)"
  then obtain i where i: "0 < i" "i < 2 ^ (32 - bits) - 1"
    and w: "w = of_nat (unat q div 2 ^ (32 - bits) * 2 ^ (32 - bits) + i)"
    by (auto simp: host_list_def simp del: of_nat_add of_nat_mult) (metis One_nat_def Suc_le_eq)
  have "unat w = unat q div 2 ^ (32 - bits) * 2 ^ (32 - bits) + i"
    using i unfolding w by (intro host_list_nth assms) simp
  with i show "w \<in> hosts q bits" by (simp add: hosts_def)
next
  fix w
  assume w: "w \<in> hosts q bits"
  have "w = of_nat (unat q div 2 ^ (32 - bits) * 2 ^ (32 - bits) + unat w mod 2 ^ (32 - bits))"
    using w div_mult_mod_eq [of "unat w" "2 ^ (32 - bits)"] by (intro of_nat_unat_eq) (simp add: hosts_def)
  then show "w \<in> set (host_list q bits)"
    using w unfolding host_list_def hosts_def by (auto intro!: image_eqI)
qed

lemma sorted_host_list:
  assumes "bits \<le> 32"
  shows "sorted_wrt (<) (host_list q bits)"
  unfolding host_list_def sorted_wrt_map
proof (rule sorted_wrt_mono_rel [OF _ sorted_wrt_upt])
  fix i j
  assume "i \<in> set [1..<2 ^ (32 - bits) - 1]" "j \<in> set [1..<2 ^ (32 - bits) - 1]" "i < (j :: nat)"
  then show "(of_nat (unat q div 2 ^ (32 - bits) * 2 ^ (32 - bits) + i) :: u32) <
    of_nat (unat q div 2 ^ (32 - bits) * 2 ^ (32 - bits) + j)"
    by (simp add: word_less_nat_alt host_list_nth [OF assms] del: of_nat_add of_nat_mult)
qed

text \<open>A list of taken addresses shorter than the subnet leaves one free.\<close>

lemma card_hosts:
  assumes "bits \<le> 32"
  shows "card (hosts q bits) = 2 ^ (32 - bits) - 2"
proof -
  have "distinct (host_list q bits)"
    using sorted_host_list [OF assms, of q] by (simp add: strict_sorted_iff)
  then have "card (hosts q bits) = length (host_list q bits)"
    by (simp add: distinct_card flip: set_host_list [OF assms])
  then show ?thesis by (simp add: host_list_def)
qed

lemma freeAddress_room:
  assumes parse: "ParsePrefix subnet = Some \<lparr>pfx_addr = Addr4 q, pfx_bits = bits\<rparr>"
    and room: "length taken < 2 ^ (32 - bits) - 2"
  shows "\<exists>a. freeAddress subnet taken = Inr a"
proof (cases "freeAddress subnet taken")
  case (Inl e)
  have bits: "bits \<le> 32" using ParsePrefix_shape [OF parse] by simp
  have "ipv4_String ` hosts q bits \<subseteq> set taken" using freeAddress_cases [OF parse, of taken] Inl by auto
  then have "card (ipv4_String ` hosts q bits) \<le> length taken"
    by (meson List.finite_set card_length card_mono le_trans)
  moreover have "card (ipv4_String ` hosts q bits) = card (hosts q bits)"
    by (intro card_image inj_onI) (simp add: ipv4_String_inject)
  ultimately show ?thesis using room card_hosts [OF bits] by simp
qed simp

text \<open>
C31: choosing an address is a search for the lowest one: \<open>freeAddress\<close> runs through the host
addresses of the subnet in increasing order, without the network and the broadcast address, and
answers the first one that no active member holds; it answers that the group is full exactly when
every host address is held.
\<close>

theorem freeAddress_reference:
  assumes "ParsePrefix subnet = Some \<lparr>pfx_addr = Addr4 q, pfx_bits = bits\<rparr>"
  shows "freeAddress subnet taken =
    (case find (\<lambda>w. ipv4_String w \<notin> set taken) (host_list q bits) of
       None \<Rightarrow> Inl ErrGroupFull | Some w \<Rightarrow> Inr (ipv4_String w))"
proof -
  have bits: "bits \<le> 32" using ParsePrefix_shape [OF assms] by simp
  show ?thesis
    using freeAddress_cases [OF assms, of taken]
      find_least [OF sorted_host_list [OF bits], of _ q "\<lambda>w. ipv4_String w \<notin> set taken"]
    by (auto simp: set_host_list [OF bits] find_None_iff split: sum.splits option.splits)
qed


theorem freeAddress_reference_witness:
  "freeAddress ''10.69.0.0/30'' [''10.69.0.1''] = Inr ''10.69.0.2''"
proof -
  have net: "ParsePrefix ''10.69.0.0/30'' = Some \<lparr>pfx_addr = Addr4 0x0a450000, pfx_bits = 30\<rparr>"
    by (simp add: ParsePrefix_def parse_ipv4_def dec_field_def is_digit_def dec_value_def)
  have list: "host_list 0x0a450000 30 = [0x0a450001, 0x0a450002]"
    by (simp add: host_list_def upt_rec)
  have string: "ipv4_String 0x0a450001 = ''10.69.0.1''" "ipv4_String 0x0a450002 = ''10.69.0.2''"
    by (simp_all add: ipv4_String_def drop_bit_eq_div dec.simps digit_def char_of_def bit_0)
  show ?thesis using freeAddress_reference [OF net, of "[''10.69.0.1'']"] by (simp add: list string)
qed

end
