(* ===== verification/Storage_Inv.thy ===== *)
theory Storage_Inv
  imports Storage_Addr
begin

text \<open>
  What the store keeps true across every statement and transaction: the UNIQUE and FOREIGN KEY
  constraints, no two active members of a group on one address, every address a host address of the
  group's subnet, at most one owner, one session per membership. \<open>store_step\<close> is any one call of
  the store, and \<open>db_runs\<close> lifts the invariant to every state a server can reach.
\<close>

section \<open>Tables\<close>

lemma set_update_where: "set (update_where P f rows) = (\<lambda>r. if P r then f r else r) ` set rows"
  by (simp add: update_where_def)

lemma map_update_where:
  "(\<And>r. P r \<Longrightarrow> k (f r) = k r) \<Longrightarrow> map k (update_where P f rows) = map k rows"
  by (simp add: update_where_def)

lemma image_update_where:
  "(\<And>r. P r \<Longrightarrow> k (f r) = k r) \<Longrightarrow> k ` set (update_where P f rows) = k ` set rows"
  by (simp only: map_update_where flip: set_map)

lemma update_where_fuse:
  "(\<And>r. P r \<Longrightarrow> Q (f r) \<and> h (f r) = h' r) \<Longrightarrow> (\<And>r. \<not> P r \<Longrightarrow> \<not> Q r) \<Longrightarrow>
     update_where Q h (update_where P f rows) = update_where P h' rows"
  by (auto simp: update_where_def)

lemma update_whereE:
  assumes "m \<in> set (update_where P f rows)"
  obtains r where "r \<in> set rows" "P r" "m = f r" | "m \<in> set rows" "\<not> P m"
  using assms by (auto simp: update_where_def split: if_splits)

lemma bex_update_where:
  assumes "\<And>r. P r \<Longrightarrow> P (f r)"
  shows "(\<exists>m\<in>set (update_where P f rows). \<not> P m \<and> Q m) \<longleftrightarrow> (\<exists>m\<in>set rows. \<not> P m \<and> Q m)"
  using assms by (auto simp: update_where_def)

lemma set_delete_where: "set (delete_where P rows) = {r \<in> set rows. \<not> P r}"
  by (auto simp: delete_where_def)

lemma distinct_delete_where: "distinct (map k rows) \<Longrightarrow> distinct (map k (delete_where P rows))"
  by (simp add: delete_where_def distinct_map_filter)

lemma unique_key:
  "distinct (map k rows) \<Longrightarrow> r \<in> set rows \<Longrightarrow> r' \<in> set rows \<Longrightarrow> k r = k r' \<Longrightarrow> r = r'"
  by (auto simp: distinct_map dest: inj_onD)

lemma find_key:
  "distinct (map k rows) \<Longrightarrow> find (\<lambda>r. k r = x) rows = Some r \<longleftrightarrow> r \<in> set rows \<and> k r = x"
  by (induction rows) auto

lemma find_eq_None: "find P rows = None \<longleftrightarrow> (\<forall>r\<in>set rows. \<not> P r)"
  by (induction rows) auto

lemmas table_simps = set_update_where map_update_where image_update_where set_delete_where
  distinct_delete_where find_eq_None

section \<open>What the constraints and the code keep true\<close>

definition mem_place :: "membership_row \<Rightarrow> string \<times> string" where
  "mem_place m = (mem_group_id m, mem_device_id m)"

lemma is_place_iff: "is_place g d m \<longleftrightarrow> mem_place m = (g, d)"
  by (auto simp: is_place_def mem_place_def)

definition devices_ok :: "db \<Rightarrow> bool" where
  "devices_ok db \<longleftrightarrow> distinct (map dev_id (db_devices db)) \<and> distinct (map dev_public_key (db_devices db))"

definition tokens_ok :: "db \<Rightarrow> bool" where
  "tokens_ok db \<longleftrightarrow> distinct (map tok_hash (db_tokens db)) \<and>
     tok_device_id ` set (db_tokens db) \<subseteq> dev_id ` set (db_devices db)"

definition groups_ok :: "db \<Rightarrow> bool" where
  "groups_ok db \<longleftrightarrow> distinct (map grp_id (db_groups db)) \<and> distinct (map grp_invite_code (db_groups db)) \<and>
     grp_created_by ` set (db_groups db) \<subseteq> dev_id ` set (db_devices db) \<and>
     (\<forall>g\<in>set (db_groups db). grp_invite_code g \<noteq> [] \<and> list_all code_char (grp_invite_code g))"

definition members_ok :: "db \<Rightarrow> bool" where
  "members_ok db \<longleftrightarrow> distinct (map mem_id (db_memberships db)) \<and> distinct (map mem_place (db_memberships db)) \<and>
     mem_group_id ` set (db_memberships db) \<subseteq> grp_id ` set (db_groups db) \<and>
     mem_device_id ` set (db_memberships db) \<subseteq> dev_id ` set (db_devices db) \<and>
     (\<forall>m\<in>set (db_memberships db). mem_banned_at m \<noteq> None \<longrightarrow> \<not> active m)"

text \<open>An address a machine of the subnet can have.\<close>

definition host_text :: "string \<Rightarrow> string \<Rightarrow> bool" where
  "host_text subnet ip \<longleftrightarrow> (\<exists>q bits w. ParsePrefix subnet = Some \<lparr>pfx_addr = Addr4 q, pfx_bits = bits\<rparr> \<and>
     w \<in> hosts q bits \<and> ip = ipv4_String w)"

definition grp_net :: "group_row \<Rightarrow> string \<times> string" where
  "grp_net r = (grp_id r, grp_subnet r)"

definition fits_net :: "membership_row \<Rightarrow> string \<times> string \<Rightarrow> bool" where
  "fits_net m r \<longleftrightarrow> (fst r = mem_group_id m \<longrightarrow> pred_option (host_text (snd r)) (mem_virtual_ip m))"

definition addresses_ok :: "db \<Rightarrow> bool" where
  "addresses_ok db \<longleftrightarrow>
     (\<forall>m\<in>set (db_memberships db). active m \<longrightarrow> mem_virtual_ip m \<noteq> None) \<and>
     inj_on (\<lambda>m. (mem_group_id m, mem_virtual_ip m)) {m \<in> set (db_memberships db). active m} \<and>
     (\<forall>m\<in>set (db_memberships db). \<forall>r\<in>grp_net ` set (db_groups db). fits_net m r)"

definition owners_ok :: "db \<Rightarrow> bool" where
  "owners_ok db \<longleftrightarrow> inj_on mem_group_id {m \<in> set (db_memberships db). mem_role m = RoleOwner}"

definition sessions_ok :: "db \<Rightarrow> bool" where
  "sessions_ok db \<longleftrightarrow> distinct (map ses_id (db_sessions db)) \<and>
     distinct (map ses_membership_id (db_sessions db)) \<and>
     (\<lambda>s. (ses_membership_id s, ses_group_id s)) ` set (db_sessions db)
       \<subseteq> (\<lambda>m. (mem_id m, mem_group_id m)) ` set (db_memberships db)"

definition store_inv :: "db \<Rightarrow> bool" where
  "store_inv db \<longleftrightarrow> devices_ok db \<and> tokens_ok db \<and> distinct (map fst (db_nonces db)) \<and> groups_ok db \<and>
     members_ok db \<and> addresses_ok db \<and> owners_ok db \<and> sessions_ok db"

lemmas ok_defs = devices_ok_def tokens_ok_def groups_ok_def members_ok_def addresses_ok_def
  owners_ok_def sessions_ok_def

section \<open>The parts of the store that change together\<close>

lemma frame_nonces [simp]:
  "devices_ok (db\<lparr>db_nonces := x\<rparr>) = devices_ok db" "tokens_ok (db\<lparr>db_nonces := x\<rparr>) = tokens_ok db"
  "groups_ok (db\<lparr>db_nonces := x\<rparr>) = groups_ok db" "members_ok (db\<lparr>db_nonces := x\<rparr>) = members_ok db"
  "addresses_ok (db\<lparr>db_nonces := x\<rparr>) = addresses_ok db" "owners_ok (db\<lparr>db_nonces := x\<rparr>) = owners_ok db"
  "sessions_ok (db\<lparr>db_nonces := x\<rparr>) = sessions_ok db"
  by (simp_all add: ok_defs)

lemma frame_sessions [simp]:
  "devices_ok (db\<lparr>db_sessions := x\<rparr>) = devices_ok db" "tokens_ok (db\<lparr>db_sessions := x\<rparr>) = tokens_ok db"
  "groups_ok (db\<lparr>db_sessions := x\<rparr>) = groups_ok db" "members_ok (db\<lparr>db_sessions := x\<rparr>) = members_ok db"
  "addresses_ok (db\<lparr>db_sessions := x\<rparr>) = addresses_ok db" "owners_ok (db\<lparr>db_sessions := x\<rparr>) = owners_ok db"
  by (simp_all add: ok_defs)

lemma frame_memberships [simp]:
  "devices_ok (db\<lparr>db_memberships := x\<rparr>) = devices_ok db" "tokens_ok (db\<lparr>db_memberships := x\<rparr>) = tokens_ok db"
  "groups_ok (db\<lparr>db_memberships := x\<rparr>) = groups_ok db"
  by (simp_all add: ok_defs)

lemma frame_groups [simp]:
  "devices_ok (db\<lparr>db_groups := x\<rparr>) = devices_ok db" "tokens_ok (db\<lparr>db_groups := x\<rparr>) = tokens_ok db"
  "owners_ok (db\<lparr>db_groups := x\<rparr>) = owners_ok db" "sessions_ok (db\<lparr>db_groups := x\<rparr>) = sessions_ok db"
  by (simp_all add: ok_defs)

lemma frame_tokens [simp]:
  "devices_ok (db\<lparr>db_tokens := x\<rparr>) = devices_ok db" "groups_ok (db\<lparr>db_tokens := x\<rparr>) = groups_ok db"
  "members_ok (db\<lparr>db_tokens := x\<rparr>) = members_ok db" "addresses_ok (db\<lparr>db_tokens := x\<rparr>) = addresses_ok db"
  "owners_ok (db\<lparr>db_tokens := x\<rparr>) = owners_ok db" "sessions_ok (db\<lparr>db_tokens := x\<rparr>) = sessions_ok db"
  by (simp_all add: ok_defs)

lemma frame_devices [simp]:
  "addresses_ok (db\<lparr>db_devices := x\<rparr>) = addresses_ok db"
  "owners_ok (db\<lparr>db_devices := x\<rparr>) = owners_ok db" "sessions_ok (db\<lparr>db_devices := x\<rparr>) = sessions_ok db"
  by (simp_all add: ok_defs)

lemma store_invD:
  assumes "store_inv db"
  shows "devices_ok db" "tokens_ok db" "distinct (map fst (db_nonces db))" "groups_ok db" "members_ok db"
    "addresses_ok db" "owners_ok db" "sessions_ok db"
  using assms by (simp_all add: store_inv_def)

lemma store_inv_empty: "store_inv empty_db"
  by (simp add: store_inv_def ok_defs empty_db_def)

lemma store_inv_devices:
  assumes "store_inv db" "dev_id ` set (db_devices db) \<subseteq> dev_id ` set ds"
    "distinct (map dev_id ds)" "distinct (map dev_public_key ds)"
  shows "store_inv (db\<lparr>db_devices := ds\<rparr>)"
proof -
  have "tokens_ok (db\<lparr>db_devices := ds\<rparr>)"
    using store_invD(2) [OF assms(1)] subset_trans [OF _ assms(2)] by (simp add: tokens_ok_def)
  moreover have "groups_ok (db\<lparr>db_devices := ds\<rparr>)"
    using store_invD(4) [OF assms(1)] subset_trans [OF _ assms(2)] by (simp add: groups_ok_def)
  moreover have "members_ok (db\<lparr>db_devices := ds\<rparr>)"
    using store_invD(5) [OF assms(1)] subset_trans [OF _ assms(2)] by (simp add: members_ok_def)
  ultimately show ?thesis using assms by (simp add: store_inv_def devices_ok_def)
qed

lemma store_inv_sessions:
  assumes "store_inv db" "sessions_ok (db\<lparr>db_sessions := ss\<rparr>)"
  shows "store_inv (db\<lparr>db_sessions := ss\<rparr>)"
  using assms by (simp add: store_inv_def)

lemma store_inv_groups:
  assumes "store_inv db" "\<And>r. P r \<Longrightarrow> grp_id (f r) = grp_id r \<and> grp_subnet (f r) = grp_subnet r"
    and "groups_ok (db\<lparr>db_groups := update_where P f (db_groups db)\<rparr>)"
  shows "store_inv (db\<lparr>db_groups := update_where P f (db_groups db)\<rparr>)"
proof -
  have "members_ok (db\<lparr>db_groups := update_where P f (db_groups db)\<rparr>)"
    using store_invD(5) [OF assms(1)] assms(2) by (simp add: members_ok_def image_update_where)
  moreover have "addresses_ok (db\<lparr>db_groups := update_where P f (db_groups db)\<rparr>)"
    using store_invD(6) [OF assms(1)] image_update_where [of P grp_net f "db_groups db"] assms(2)
    by (simp add: addresses_ok_def grp_net_def)
  ultimately show ?thesis using assms(1,3) by (simp add: store_inv_def)
qed

text \<open>A change of the memberships that keeps who is where.\<close>

lemma store_inv_memberships:
  assumes "store_inv db" and keep: "\<And>r. P r \<Longrightarrow> mem_id (f r) = mem_id r \<and> mem_place (f r) = mem_place r"
    and "\<And>r. r \<in> set (db_memberships db) \<Longrightarrow> P r \<Longrightarrow> mem_banned_at (f r) \<noteq> None \<Longrightarrow> \<not> active (f r)"
    and "addresses_ok (db\<lparr>db_memberships := update_where P f (db_memberships db)\<rparr>)"
    and "owners_ok (db\<lparr>db_memberships := update_where P f (db_memberships db)\<rparr>)"
  shows "store_inv (db\<lparr>db_memberships := update_where P f (db_memberships db)\<rparr>)"
proof -
  let ?ms = "update_where P f (db_memberships db)" and ?db = "db\<lparr>db_memberships := update_where P f (db_memberships db)\<rparr>"
  have keep': "mem_id (f r) = mem_id r" "mem_group_id (f r) = mem_group_id r" "mem_device_id (f r) = mem_device_id r"
    "mem_place (f r) = mem_place r" if "P r" for r
    using keep [OF that] by (simp_all add: mem_place_def)
  have "\<forall>m\<in>set ?ms. mem_banned_at m \<noteq> None \<longrightarrow> \<not> active m"
    using store_invD(5) [OF assms(1)] assms(3) by (auto simp: members_ok_def set_update_where)
  then have "members_ok ?db"
    using store_invD(5) [OF assms(1)] by (simp add: members_ok_def map_update_where image_update_where keep')
  moreover have "sessions_ok ?db"
    using store_invD(8) [OF assms(1)] by (simp add: sessions_ok_def image_update_where keep')
  ultimately show ?thesis using assms(1,4,5) by (simp add: store_inv_def)
qed


lemma is_place_updates [simp]:
  "is_place g d (m\<lparr>mem_revoked_at := a\<rparr>) = is_place g d m" "is_place g d (m\<lparr>mem_banned_at := b\<rparr>) = is_place g d m"
  "is_place g d (m\<lparr>mem_virtual_ip := c\<rparr>) = is_place g d m" "is_place g d (m\<lparr>mem_role := e\<rparr>) = is_place g d m"
  by (simp_all add: is_place_def)

section \<open>Joining, in one step\<close>

lemma set_takenAddresses:
  "set (takenAddresses g db) =
     {ip. \<exists>m\<in>set (db_memberships db). mem_group_id m = g \<and> active m \<and> mem_virtual_ip m = Some ip}"
  by (force simp: takenAddresses_def List.map_filter_def)

text \<open>The row a join leaves behind, and everything else as it was.\<close>

definition others_hold :: "string \<Rightarrow> string \<Rightarrow> db \<Rightarrow> string set" where
  "others_hold g d db =
     {ip. \<exists>m\<in>set (db_memberships db). \<not> is_place g d m \<and> mem_group_id m = g \<and> active m \<and>
            mem_virtual_ip m = Some ip}"

definition previous_address :: "string \<Rightarrow> string \<Rightarrow> db \<Rightarrow> string" where
  "previous_address g d db =
     (case place g d db of None \<Rightarrow> [] | Some m \<Rightarrow> (case mem_virtual_ip m of None \<Rightarrow> [] | Some ip \<Rightarrow> ip))"

definition seated :: "string \<Rightarrow> string \<Rightarrow> string \<Rightarrow> int \<Rightarrow> string \<Rightarrow> db \<Rightarrow> db" where
  "seated i g d at ip db =
     db\<lparr>db_memberships :=
       (case place g d db of
          Some _ \<Rightarrow> update_where (is_place g d) (\<lambda>m. m\<lparr>mem_revoked_at := None, mem_virtual_ip := Some ip\<rparr>)
                      (db_memberships db)
        | None \<Rightarrow> db_memberships db @
            [\<lparr>mem_id = i, mem_group_id = g, mem_device_id = d, mem_created_at = at,
              mem_revoked_at = None, mem_banned_at = None, mem_virtual_ip = Some ip,
              mem_role = RoleMember\<rparr>])\<rparr>"

lemma upsert_membership_cases:
  assumes "upsert_membership i g d at db = Inr db1"
  shows "membership_by_id i db = None"
    and "place g d db = None \<Longrightarrow> group_row_by_id g db \<noteq> None \<and> device_row d db \<noteq> None"
    and "set (takenAddresses g db1) = others_hold g d db"
    and "set_address g d ip db1 =
      (if ip \<in> others_hold g d db then Inl ErrConstraint else Inr (seated i g d at ip db))"
proof -
  show "membership_by_id i db = None"
    and new: "place g d db = None \<Longrightarrow> group_row_by_id g db \<noteq> None \<and> device_row d db \<noteq> None"
    using assms by (auto simp: upsert_membership_def split: if_splits option.splits)
  have "set (takenAddresses g db1) = others_hold g d db \<and> set_address g d ip db1 =
      (if ip \<in> others_hold g d db then Inl ErrConstraint else Inr (seated i g d at ip db))"
  proof (cases "place g d db")
    case None
    then have db1: "db1 = db\<lparr>db_memberships := db_memberships db @
        [\<lparr>mem_id = i, mem_group_id = g, mem_device_id = d, mem_created_at = at,
          mem_revoked_at = None, mem_banned_at = None, mem_virtual_ip = None, mem_role = RoleMember\<rparr>]\<rparr>"
      using assms by (auto simp: upsert_membership_def split: if_splits)
    have free: "\<not> is_place g d m" if "m \<in> set (db_memberships db)" for m
      using None that by (auto simp: place_def find_eq_None)
    then have id: "update_where (is_place g d) f (db_memberships db) = db_memberships db" for f
      by (simp add: update_where_def map_idI)
    have others: "others_hold g d db = {ip. \<exists>m\<in>set (db_memberships db). mem_group_id m = g \<and> active m \<and>
        mem_virtual_ip m = Some ip}"
      using free by (auto simp: others_hold_def)
    have "set (takenAddresses g db1) = others_hold g d db"
      by (auto simp: db1 set_takenAddresses others)
    moreover have "(\<exists>m\<in>set (db_memberships db1). \<not> is_place g d m \<and> mem_group_id m = g \<and> active m \<and>
        mem_virtual_ip m = Some ip) \<longleftrightarrow> ip \<in> others_hold g d db"
      using free by (auto simp: db1 others is_place_def)
    moreover have "update_where (is_place g d) (\<lambda>m. m\<lparr>mem_virtual_ip := Some ip\<rparr>) (db_memberships db1) =
        db_memberships (seated i g d at ip db)"
      using None id [of "\<lambda>m. m\<lparr>mem_virtual_ip := Some ip\<rparr>"]
      by (simp add: db1 seated_def update_where_def is_place_def)
    ultimately show ?thesis by (simp add: set_address_def db1 seated_def)
  next
    case (Some m)
    then have db1: "db1 = db\<lparr>db_memberships := update_where (is_place g d)
        (\<lambda>m. m\<lparr>mem_revoked_at := None, mem_virtual_ip := None\<rparr>) (db_memberships db)\<rparr>"
      using assms by (auto simp: upsert_membership_def split: if_splits)
    have held: "(\<exists>m\<in>set (db_memberships db1). \<not> is_place g d m \<and> mem_group_id m = g \<and> active m \<and>
        mem_virtual_ip m = Some ip) \<longleftrightarrow> ip \<in> others_hold g d db" for ip
      by (simp add: db1 others_hold_def bex_update_where)
    have "update_where (is_place g d) (\<lambda>m. m\<lparr>mem_virtual_ip := Some ip\<rparr>) (db_memberships db1) =
        db_memberships (seated i g d at ip db)"
      unfolding db1 using Some by (simp add: seated_def) (rule update_where_fuse; simp add: is_place_def)
    then have "set_address g d ip db1 =
        (if ip \<in> others_hold g d db then Inl ErrConstraint else Inr (seated i g d at ip db))"
      unfolding set_address_def held by (simp add: db1 seated_def)
    moreover have "set (takenAddresses g db1) = others_hold g d db"
    proof -
      have "mem_virtual_ip m = None" if "m \<in> set (db_memberships db1)" "is_place g d m" for m
        using that by (auto simp: db1 elim!: update_whereE)
      then have "set (takenAddresses g db1) = {ip. \<exists>m\<in>set (db_memberships db1). \<not> is_place g d m \<and>
          mem_group_id m = g \<and> active m \<and> mem_virtual_ip m = Some ip}"
        by (auto simp: set_takenAddresses) (metis option.distinct(1))
      then show ?thesis using held by simp
    qed
    ultimately show ?thesis by blast
  qed
  then show "set (takenAddresses g db1) = others_hold g d db"
    and "set_address g d ip db1 =
      (if ip \<in> others_hold g d db then Inl ErrConstraint else Inr (seated i g d at ip db))" by blast+
qed


lemma insertMembership_Inr:
  assumes "insertMembership raw g d now db = Inr (mm, db')"
  obtains i taken m where "NewID ''mem'' raw = Some i" "membership_by_id i db = None"
    "place (G_ID g) d db = None \<Longrightarrow> group_row_by_id (G_ID g) db \<noteq> None \<and> device_row d db \<noteq> None"
    "db' = seated i (G_ID g) d (unix now) (M_VirtualIP mm) db"
    "M_VirtualIP mm \<notin> others_hold (G_ID g) d db" "set taken = others_hold (G_ID g) d db"
    "if previous_address (G_ID g) d db = [] \<or> previous_address (G_ID g) d db \<in> others_hold (G_ID g) d db
     then freeAddress (G_Subnet g) taken = Inr (M_VirtualIP mm)
     else M_VirtualIP mm = previous_address (G_ID g) d db"
    "place (G_ID g) d db' = Some m" "M_ID mm = mem_id m" "M_Role mm = mem_role m" "M_GroupID mm = G_ID g"
    "M_DeviceID mm = d" "M_Subnet mm = G_Subnet g"
proof -
  obtain i db1 where i: "NewID ''mem'' raw = Some i" and up: "upsert_membership i (G_ID g) d (unix now) db = Inr db1"
    and rest: "(case assignAddress g d (previous_address (G_ID g) d db) db1 of
         Inl e \<Rightarrow> Inl e
       | Inr (address, db) \<Rightarrow>
           (case place (G_ID g) d db of
              None \<Rightarrow> Inl ErrScan
            | Some m \<Rightarrow>
                Inr (\<lparr>M_ID = mem_id m, M_GroupID = G_ID g, M_GroupName = G_Name g,
                      M_GroupIcon = G_Icon g, M_GroupColor = G_Color g, M_DeviceID = d,
                      M_Subnet = G_Subnet g, M_VirtualIP = address, M_Role = mem_role m,
                      M_CreatedAt = mem_created_at m, M_InviteCode = G_InviteCode g,
                      M_OnlineMembers = None, M_Members = None\<rparr>, db))) = Inr (mm, db')"
    using assms by (auto simp: insertMembership_def previous_address_def Let_def split: option.splits sum.splits)
  from rest obtain ip m where assign: "assignAddress g d (previous_address (G_ID g) d db) db1 = Inr (ip, db')"
    and m: "place (G_ID g) d db' = Some m" "M_ID mm = mem_id m" "M_Role mm = mem_role m" "M_GroupID mm = G_ID g"
    "M_DeviceID mm = d" "M_Subnet mm = G_Subnet g" and ip: "M_VirtualIP mm = ip"
    by (auto split: sum.splits option.splits)
  note up = upsert_membership_cases [OF up]
  let ?taken = "takenAddresses (G_ID g) db1" and ?prev = "previous_address (G_ID g) d db"
  from assign have set: "set_address (G_ID g) d ip db1 = Inr db'"
    and choice: "(if ?prev = [] \<or> ?prev \<in> set ?taken then freeAddress (G_Subnet g) ?taken else Inr ?prev) = Inr ip"
    by (auto simp: assignAddress_def Let_def split: sum.splits)
  show thesis
    using that [OF i up(1,2) _ _ up(3) _ m] set choice by (simp add: up(3,4) ip split: if_splits)
qed

lemma AddMembership_Inr:
  assumes "AddMembership raw g d now db = (Inr mm, db')"
  shows "insertMembership raw g d now db = Inr (mm, db')"
    and "\<And>m. place (G_ID g) d db = Some m \<Longrightarrow> mem_banned_at m = None"
  using assms by (auto simp: AddMembership_def store_write_def split: option.splits sum.splits if_splits)

lemma freeAddress_host_text:
  "freeAddress subnet taken = Inr ip \<Longrightarrow> host_text subnet ip \<and> ip \<notin> set taken"
proof -
  assume free: "freeAddress subnet taken = Inr ip"
  then obtain p where "ParsePrefix subnet = Some p" by (auto simp: freeAddress_def split: option.splits)
  moreover from this obtain q bits where "p = \<lparr>pfx_addr = Addr4 q, pfx_bits = bits\<rparr>" using ParsePrefix_shape by blast
  ultimately show ?thesis using free freeAddress_cases [of subnet q bits taken] by (auto simp: host_text_def)
qed

lemma host_text_not_Nil: "host_text subnet ip \<Longrightarrow> ip \<noteq> []"
  by (auto simp: host_text_def ipv4_String_def)

section \<open>Every operation keeps the invariant\<close>

lemma inj_on_update_where:
  assumes "inj_on k {m \<in> set rows. Q m}" "\<And>r. P r \<Longrightarrow> Q (f r) \<Longrightarrow> Q r \<and> k (f r) = k r"
  shows "inj_on k {m \<in> set (update_where P f rows). Q m}"
proof (rule inj_onI)
  have origin: "\<exists>r\<in>{m \<in> set rows. Q m}. k r = k m \<and> m = (if P r then f r else r)"
    if "m \<in> {m \<in> set (update_where P f rows). Q m}" for m
    using that assms(2) by (auto elim!: update_whereE)
  fix a b
  assume "a \<in> {m \<in> set (update_where P f rows). Q m}" "b \<in> {m \<in> set (update_where P f rows). Q m}" "k a = k b"
  then show "a = b" using origin inj_onD [OF assms(1)] by metis
qed

lemma place_unique:
  "members_ok db \<Longrightarrow> m \<in> set (db_memberships db) \<Longrightarrow> m' \<in> set (db_memberships db) \<Longrightarrow>
     is_place g d m \<Longrightarrow> is_place g d m' \<Longrightarrow> m = m'"
  unfolding members_ok_def is_place_iff by (metis unique_key)


lemma store_write_inv:
  "store_inv db \<Longrightarrow> (\<And>x db'. work = Inr (x, db') \<Longrightarrow> store_inv db') \<Longrightarrow> store_inv (snd (store_write db work))"
  by (auto simp: store_write_def split: sum.splits)

lemma row_by_key:
  "device_row d db = None \<longleftrightarrow> d \<notin> dev_id ` set (db_devices db)"
  "group_row_by_id g db = None \<longleftrightarrow> g \<notin> grp_id ` set (db_groups db)"
  "membership_by_id i db = None \<longleftrightarrow> i \<notin> mem_id ` set (db_memberships db)"
  "place g d db = None \<longleftrightarrow> (g, d) \<notin> mem_place ` set (db_memberships db)"
  by (auto simp: device_row_def group_row_by_id_def membership_by_id_def place_def is_place_iff find_eq_None
      intro: image_eqI [OF sym])

subsection \<open>Devices\<close>

lemma store_inv_touch_devices:
  assumes "store_inv db" "\<And>r. P r \<Longrightarrow> dev_id (f r) = dev_id r \<and> dev_public_key (f r) = dev_public_key r"
  shows "store_inv (db\<lparr>db_devices := update_where P f (db_devices db)\<rparr>)"
  using store_invD(1) [OF assms(1)] assms(2)
  by (intro store_inv_devices [OF assms(1)]) (simp_all add: devices_ok_def map_update_where image_update_where)

lemma upsert_device_inv:
  assumes inv: "store_inv db" and up: "upsert_device d at db = Inr db'"
  shows "store_inv db' \<and> dev_id d \<in> dev_id ` set (db_devices db') \<and> db_tokens db' = db_tokens db"
proof -
  have fresh: "dev_public_key r \<noteq> dev_public_key d" if "r \<in> set (db_devices db)" "dev_id r \<noteq> dev_id d" for r
    using up that by (auto simp: upsert_device_def split: if_splits)
  have ids: "distinct (map dev_id (db_devices db))" and keys: "distinct (map dev_public_key (db_devices db))"
    using store_invD(1) [OF inv] by (simp_all add: devices_ok_def)
  show ?thesis
  proof (cases "device_row (dev_id d) db")
    case None
    then have db': "db' = db\<lparr>db_devices := db_devices db @ [d\<lparr>dev_created_at := at, dev_last_seen_at := at\<rparr>]\<rparr>"
      and new: "dev_id d \<notin> dev_id ` set (db_devices db)"
      using up None row_by_key(1) [of "dev_id d" db] by (auto simp: upsert_device_def split: if_splits)
    moreover have "dev_public_key d \<notin> dev_public_key ` set (db_devices db)"
      using fresh new by (auto, metis image_eqI)
    ultimately show ?thesis
      using ids keys unfolding db' by (intro conjI store_inv_devices [OF inv]) auto
  next
    case (Some r)
    let ?f = "\<lambda>r. r\<lparr>dev_public_key := dev_public_key d, dev_transport_key := dev_transport_key d,
      dev_name := dev_name d, dev_nickname := (if dev_nickname r = [] then dev_nickname d else dev_nickname r),
      dev_last_seen_at := at\<rparr>"
    let ?ds = "update_where (\<lambda>r. dev_id r = dev_id d) ?f (db_devices db)"
    have db': "db' = db\<lparr>db_devices := ?ds\<rparr>"
      using up Some by (auto simp: upsert_device_def split: if_splits)
    have mids: "map dev_id ?ds = map dev_id (db_devices db)" by (rule map_update_where) simp
    have "inj_on dev_public_key (set ?ds)"
    proof (rule inj_onI)
      fix a b
      assume a: "a \<in> set ?ds" and b: "b \<in> set ?ds" and eq: "dev_public_key a = dev_public_key b"
      have own: "dev_public_key x = dev_public_key d \<longleftrightarrow> dev_id x = dev_id d" if "x \<in> set ?ds" for x
        using that by (elim update_whereE) (auto dest: fresh)
      have "distinct (map dev_id ?ds)" using mids ids by simp
      moreover have "dev_id a = dev_id b"
      proof (cases "dev_id a = dev_id d")
        case True
        then show ?thesis using own [OF a] own [OF b] eq by simp
      next
        case False
        moreover have "x \<in> set (db_devices db)" if "x \<in> set ?ds" "dev_id x \<noteq> dev_id d" for x
          using that by (elim update_whereE) auto
        ultimately have "a \<in> set (db_devices db)" "b \<in> set (db_devices db)"
          using a b own [OF a] own [OF b] eq by simp_all
        then show ?thesis using unique_key [OF keys] eq by blast
      qed
      ultimately show "a = b" using unique_key [of dev_id ?ds a b] a b by blast
    qed
    moreover have "distinct ?ds" using ids unfolding mids [symmetric] by (simp only: distinct_map)
    ultimately have "distinct (map dev_public_key ?ds)" by (simp add: distinct_map)
    moreover have "dev_id ` set ?ds = dev_id ` set (db_devices db)" using arg_cong [OF mids, of set] by simp
    ultimately show ?thesis
      using mids ids Some row_by_key(1) [of "dev_id d" db] unfolding db'
      by (auto intro!: store_inv_devices [OF inv])
  qed
qed

lemma RegisterDevice_inv: "store_inv db \<Longrightarrow> store_inv (snd (RegisterDevice h tok d now db))"
proof -
  assume inv: "store_inv db"
  have "store_inv (db'\<lparr>db_tokens := db_tokens db' @ [t]\<rparr>)"
    if "upsert_device d (unix now) db = Inr db'" "tok_hash t \<notin> tok_hash ` set (db_tokens db')" "tok_device_id t = dev_id d"
    for db' t
    using upsert_device_inv [OF inv that(1)] that(2,3) by (auto simp: store_inv_def tokens_ok_def)
  then show ?thesis
    using inv by (auto simp: RegisterDevice_def split: option.splits sum.splits if_splits intro!: store_write_inv)
qed

lemma DeviceByToken_inv: "store_inv db \<Longrightarrow> store_inv (snd (DeviceByToken h token now db))"
  by (auto simp: DeviceByToken_def split: option.splits intro!: store_inv_touch_devices)

lemma SetDeviceNickname_inv: "store_inv db \<Longrightarrow> store_inv (snd (SetDeviceNickname d name db))"
  by (auto simp: SetDeviceNickname_def intro!: store_inv_touch_devices)

lemma ClaimRegisterNonce_inv: "store_inv db \<Longrightarrow> store_inv (snd (ClaimRegisterNonce n keep now db))"
  by (auto simp: ClaimRegisterNonce_def Let_def store_inv_def distinct_delete_where)

subsection \<open>Sessions\<close>

lemma update_session_inv:
  assumes "store_inv db"
    "\<And>s. ses_id (f s) = ses_id s \<and> ses_membership_id (f s) = ses_membership_id s \<and> ses_group_id (f s) = ses_group_id s"
  shows "store_inv (snd (update_session i f db))"
  using assms store_invD(8) [OF assms(1)]
  by (auto simp: update_session_def sessions_ok_def map_update_where image_update_where intro!: store_inv_sessions)

lemma store_inv_fewer_sessions:
  "store_inv db \<Longrightarrow> store_inv (db\<lparr>db_sessions := delete_where P (db_sessions db)\<rparr>)"
  by (rule store_inv_sessions)
    (auto simp: store_inv_def sessions_ok_def distinct_delete_where set_delete_where)

lemma CreateSession_inv:
  assumes inv: "store_inv db" and mine: "\<And>r. r \<in> set (db_memberships db) \<Longrightarrow> mem_id r = M_ID m \<Longrightarrow> mem_group_id r = M_GroupID m"
  shows "store_inv (snd (CreateSession raw m now db))"
proof -
  let ?rest = "delete_where (\<lambda>s. ses_membership_id s = M_ID m) (db_sessions db)"
  have rest: "sessions_ok (db\<lparr>db_sessions := ?rest\<rparr>)"
    using store_invD(8) [OF store_inv_fewer_sessions [OF inv]] .
  have "sessions_ok (db\<lparr>db_sessions := ?rest @ [s]\<rparr>)"
    if "ses_id s \<notin> ses_id ` set ?rest" "membership_by_id (M_ID m) db \<noteq> None"
      "ses_membership_id s = M_ID m" "ses_group_id s = M_GroupID m" for s
  proof -
    from that(2) obtain r where "r \<in> set (db_memberships db)" "mem_id r = M_ID m" by (auto simp: row_by_key)
    then have "(M_ID m, M_GroupID m) \<in> (\<lambda>m. (mem_id m, mem_group_id m)) ` set (db_memberships db)"
      using mine by (force intro: image_eqI [of _ _ r])
    with rest that show ?thesis by (auto simp: sessions_ok_def set_delete_where)
  qed
  then show ?thesis
    using inv
    by (auto simp: CreateSession_def Let_def split: option.splits if_splits intro!: store_write_inv store_inv_sessions)
qed


subsection \<open>Memberships\<close>

lemma owners_ok_update:
  assumes "owners_ok db" "\<And>r. P r \<Longrightarrow> mem_role (f r) = mem_role r \<and> mem_group_id (f r) = mem_group_id r"
  shows "owners_ok (db\<lparr>db_memberships := update_where P f (db_memberships db)\<rparr>)"
  using assms inj_on_update_where [of mem_group_id "db_memberships db" "\<lambda>m. mem_role m = RoleOwner" P f]
  by (simp add: owners_ok_def)

lemma addresses_ok_update:
  assumes "addresses_ok db"
    "\<And>r. P r \<Longrightarrow> (active (f r) \<longrightarrow> active r) \<and> mem_group_id (f r) = mem_group_id r \<and> mem_virtual_ip (f r) = mem_virtual_ip r"
  shows "addresses_ok (db\<lparr>db_memberships := update_where P f (db_memberships db)\<rparr>)"
proof -
  have "inj_on (\<lambda>m. (mem_group_id m, mem_virtual_ip m)) {m \<in> set (update_where P f (db_memberships db)). active m}"
    using assms by (intro inj_on_update_where) (auto simp: addresses_ok_def)
  moreover have "\<forall>m\<in>set (update_where P f (db_memberships db)). active m \<longrightarrow> mem_virtual_ip m \<noteq> None"
    "\<forall>m\<in>set (update_where P f (db_memberships db)). \<forall>r\<in>grp_net ` set (db_groups db). fits_net m r"
    using assms unfolding addresses_ok_def fits_net_def by (auto simp: set_update_where)
  ultimately show ?thesis by (simp add: addresses_ok_def)
qed

text \<open>A seat for a device that was never in the group, and one for a device that was.\<close>

lemma seated_new_inv:
  assumes inv: "store_inv db" and i: "i \<notin> mem_id ` set (db_memberships db)"
    and refs: "g \<in> grp_id ` set (db_groups db)" "d \<in> dev_id ` set (db_devices db)"
    and free: "ip \<notin> others_hold g d db" and new: "place g d db = None"
    and fits: "\<forall>r\<in>grp_net ` set (db_groups db). fst r = g \<longrightarrow> host_text (snd r) ip"
  shows "store_inv (seated i g d at ip db)"
proof -
  let ?r = "\<lparr>mem_id = i, mem_group_id = g, mem_device_id = d, mem_created_at = at, mem_revoked_at = None,
    mem_banned_at = None, mem_virtual_ip = Some ip, mem_role = RoleMember\<rparr>"
  have place: "(g, d) \<notin> mem_place ` set (db_memberships db)" using new by (simp add: row_by_key)
  then have other: "(mem_group_id m, mem_virtual_ip m) \<noteq> (g, Some ip)" if "m \<in> set (db_memberships db)" "active m" for m
    using free that by (force simp: others_hold_def is_place_iff)
  have "members_ok (db\<lparr>db_memberships := db_memberships db @ [?r]\<rparr>)"
    using store_invD(5) [OF inv] i refs place by (simp add: members_ok_def mem_place_def)
  moreover have "addresses_ok (db\<lparr>db_memberships := db_memberships db @ [?r]\<rparr>)"
  proof -
    have "{m \<in> set (db_memberships db @ [?r]). active m} = insert ?r {m \<in> set (db_memberships db). active m}" by auto
    then show ?thesis
      using store_invD(6) [OF inv] other fits by (fastforce simp: addresses_ok_def fits_net_def inj_on_insert)
  qed
  moreover have "owners_ok (db\<lparr>db_memberships := db_memberships db @ [?r]\<rparr>)"
  proof -
    have "{m \<in> set (db_memberships db @ [?r]). mem_role m = RoleOwner} = {m \<in> set (db_memberships db). mem_role m = RoleOwner}"
      by auto
    then show ?thesis using store_invD(7) [OF inv] by (simp add: owners_ok_def)
  qed
  moreover have "sessions_ok (db\<lparr>db_memberships := db_memberships db @ [?r]\<rparr>)"
    using store_invD(8) [OF inv] by (auto simp: sessions_ok_def)
  ultimately show ?thesis using inv new by (simp add: store_inv_def seated_def)
qed

lemma seated_again_inj:
  assumes inj: "inj_on (\<lambda>m. (mem_group_id m, mem_virtual_ip m)) {m \<in> set ms. active m}"
    and only: "\<And>r. r \<in> set ms \<Longrightarrow> is_place g d r \<Longrightarrow> r = m" and m: "is_place g d m"
    and other: "\<And>r. r \<in> set ms \<Longrightarrow> active r \<Longrightarrow> \<not> is_place g d r \<Longrightarrow> (mem_group_id r, mem_virtual_ip r) \<noteq> (g, Some ip)"
  shows "inj_on (\<lambda>m. (mem_group_id m, mem_virtual_ip m))
    {r \<in> set (update_where (is_place g d) (\<lambda>m. m\<lparr>mem_revoked_at := None, mem_virtual_ip := Some ip\<rparr>) ms). active r}"
    (is "inj_on ?k {r \<in> set ?ms. active r}")
proof (rule inj_onI)
  fix a b
  assume a: "a \<in> {r \<in> set ?ms. active r}" and b: "b \<in> {r \<in> set ?ms. active r}" and eq: "?k a = ?k b"
  let ?m = "m\<lparr>mem_revoked_at := None, mem_virtual_ip := Some ip\<rparr>"
  have mine: "?k ?m = (g, Some ip)" using m by (simp add: is_place_def)
  have rest: "x \<in> set ms" "?k x \<noteq> (g, Some ip)" if x: "x \<in> {r \<in> set ?ms. active r}" and "x \<noteq> ?m" for x
  proof -
    from x have "x \<in> set ?ms" "active x" by simp_all
    from this(1) have "x \<in> set ms \<and> \<not> is_place g d x"
      using \<open>x \<noteq> ?m\<close> only by (elim update_whereE) blast+
    then show "x \<in> set ms" "?k x \<noteq> (g, Some ip)" using other [of x] \<open>active x\<close> by blast+
  qed
  show "a = b"
  proof (cases "a = ?m \<or> b = ?m")
    case True
    then show ?thesis using mine rest(2) [OF a] rest(2) [OF b] eq by metis
  next
    case False
    then show ?thesis using inj_onD [OF inj eq] rest(1) [OF a] rest(1) [OF b] a b by simp
  qed
qed

lemma seated_inv:
  assumes inv: "store_inv db" and i: "i \<notin> mem_id ` set (db_memberships db)"
    and refs: "place g d db = None \<Longrightarrow> g \<in> grp_id ` set (db_groups db) \<and> d \<in> dev_id ` set (db_devices db)"
    and free: "ip \<notin> others_hold g d db"
    and unbanned: "\<And>m. place g d db = Some m \<Longrightarrow> mem_banned_at m = None"
    and fits: "\<forall>r\<in>grp_net ` set (db_groups db). fst r = g \<longrightarrow> host_text (snd r) ip"
  shows "store_inv (seated i g d at ip db)"
proof (cases "place g d db")
  case None
  then show ?thesis using refs by (intro seated_new_inv [OF inv i _ _ free _ fits]) simp_all
next
  case (Some m)
  let ?ms = "update_where (is_place g d) (\<lambda>m. m\<lparr>mem_revoked_at := None, mem_virtual_ip := Some ip\<rparr>) (db_memberships db)"
  have m: "m \<in> set (db_memberships db)" "is_place g d m" using Some by (auto simp: place_def dest: find_SomeD)
  then have only: "r = m" if "r \<in> set (db_memberships db)" "is_place g d r" for r
    using place_unique [OF store_invD(5) [OF inv]] that by blast
  have old: "\<forall>m\<in>set (db_memberships db). active m \<longrightarrow> mem_virtual_ip m \<noteq> None"
    "inj_on (\<lambda>m. (mem_group_id m, mem_virtual_ip m)) {m \<in> set (db_memberships db). active m}"
    "\<forall>m\<in>set (db_memberships db). \<forall>r\<in>grp_net ` set (db_groups db). fits_net m r"
    using store_invD(6) [OF inv] by (simp_all add: addresses_ok_def)
  have "inj_on (\<lambda>m. (mem_group_id m, mem_virtual_ip m)) {m \<in> set ?ms. active m}"
    using old(2) only m(2) by (rule seated_again_inj) (use free in \<open>auto simp: others_hold_def\<close>)
  moreover have "\<forall>m\<in>set ?ms. active m \<longrightarrow> mem_virtual_ip m \<noteq> None"
    "\<forall>m\<in>set ?ms. \<forall>r\<in>grp_net ` set (db_groups db). fits_net m r"
    using old fits unfolding fits_net_def by (auto simp: set_update_where is_place_def)
  ultimately have "addresses_ok (db\<lparr>db_memberships := ?ms\<rparr>)" by (simp add: addresses_ok_def)
  moreover have "owners_ok (db\<lparr>db_memberships := ?ms\<rparr>)"
    using store_invD(7) [OF inv] by (rule owners_ok_update) simp
  ultimately have "store_inv (db\<lparr>db_memberships := ?ms\<rparr>)"
    using only unbanned [OF Some] by (intro store_inv_memberships [OF inv]) (auto simp: mem_place_def)
  then show ?thesis using Some by (simp add: seated_def)
qed

lemma previous_fits:
  assumes "store_inv db" "previous_address g d db \<noteq> []"
  shows "\<forall>r\<in>grp_net ` set (db_groups db). fst r = g \<longrightarrow> host_text (snd r) (previous_address g d db)"
proof -
  obtain m ip where "m \<in> set (db_memberships db)" "is_place g d m" "mem_virtual_ip m = Some ip"
    "previous_address g d db = ip"
    using assms(2) by (auto simp: previous_address_def place_def dest: find_SomeD split: option.splits)
  then show ?thesis using store_invD(6) [OF assms(1)] by (force simp: addresses_ok_def fits_net_def is_place_def)
qed

lemma insertMembership_inv:
  assumes inv: "store_inv db" and ins: "insertMembership raw g d now db = Inr (mm, db')"
    and unbanned: "\<And>m. place (G_ID g) d db = Some m \<Longrightarrow> mem_banned_at m = None"
    and subnet: "\<And>r. r \<in> set (db_groups db) \<Longrightarrow> grp_id r = G_ID g \<Longrightarrow> grp_subnet r = G_Subnet g"
  shows "store_inv db'"
proof -
  show ?thesis
  proof (rule insertMembership_Inr [OF ins])
    fix i taken
    assume i: "membership_by_id i db = None"
      and refs: "place (G_ID g) d db = None \<Longrightarrow> group_row_by_id (G_ID g) db \<noteq> None \<and> device_row d db \<noteq> None"
      and db': "db' = seated i (G_ID g) d (unix now) (M_VirtualIP mm) db"
      and free: "M_VirtualIP mm \<notin> others_hold (G_ID g) d db"
      and choice: "if previous_address (G_ID g) d db = [] \<or> previous_address (G_ID g) d db \<in> others_hold (G_ID g) d db
         then freeAddress (G_Subnet g) taken = Inr (M_VirtualIP mm)
         else M_VirtualIP mm = previous_address (G_ID g) d db"
    have "\<forall>r\<in>grp_net ` set (db_groups db). fst r = G_ID g \<longrightarrow> host_text (snd r) (M_VirtualIP mm)"
    proof (cases "previous_address (G_ID g) d db = [] \<or> previous_address (G_ID g) d db \<in> others_hold (G_ID g) d db")
      case True
      then have "host_text (G_Subnet g) (M_VirtualIP mm)" using choice freeAddress_host_text by simp
      then show ?thesis using subnet by (auto simp: grp_net_def)
    next
      case False
      then show ?thesis using choice previous_fits [OF inv, of "G_ID g" d] by simp
    qed
    then show ?thesis
      unfolding db' using i refs free unbanned by (intro seated_inv [OF inv]) (simp_all add: row_by_key)
  qed
qed

lemma AddMembership_inv:
  assumes "store_inv db" "\<And>r. r \<in> set (db_groups db) \<Longrightarrow> grp_id r = G_ID g \<Longrightarrow> grp_subnet r = G_Subnet g"
  shows "store_inv (snd (AddMembership raw g d now db))"
proof (cases "AddMembership raw g d now db")
  case (Pair res db')
  show ?thesis
  proof (cases res)
    case (Inl e)
    with Pair have "db' = db" by (auto simp: AddMembership_def store_write_def split: sum.splits)
    then show ?thesis using Pair assms(1) by simp
  next
    case (Inr mm)
    then show ?thesis
      using Pair insertMembership_inv [OF assms(1) _ _ assms(2)] AddMembership_Inr by fastforce
  qed
qed

lemma revoke_row_inv: "store_inv db \<Longrightarrow> store_inv (snd (revoke_row g d now db))"
  by (auto simp: revoke_row_def mem_place_def store_invD split: option.splits
      intro!: store_inv_memberships addresses_ok_update owners_ok_update)

lemma end_sessions_inv: "store_inv db \<Longrightarrow> store_inv (end_sessions g d db)"
  by (simp add: end_sessions_def store_inv_fewer_sessions)

lemma RemoveMember_inv: "store_inv db \<Longrightarrow> store_inv (snd (RemoveMember g owner target now db))"
proof -
  assume inv: "store_inv db"
  let ?ms = "update_where (\<lambda>m. is_place g target m \<and> active m)
    (\<lambda>m. m\<lparr>mem_revoked_at := Some (unix now), mem_banned_at := Some (unix now)\<rparr>) (db_memberships db)"
  have "store_inv (db\<lparr>db_memberships := ?ms\<rparr>)"
    using inv by (intro store_inv_memberships addresses_ok_update owners_ok_update) (auto simp: mem_place_def store_invD)
  from store_inv_fewer_sessions [OF this] show ?thesis
    using inv by (auto simp: RemoveMember_def Let_def split: option.splits if_splits intro!: store_write_inv)
qed

lemma ownerOnly_None:
  "ownerOnly g d db = None \<longleftrightarrow>
     (\<exists>m. find (\<lambda>m. is_place g d m \<and> active m) (db_memberships db) = Some m \<and> mem_role m = RoleOwner)"
  by (auto simp: ownerOnly_def split: option.splits)

text \<open>The memberships after the group has been handed over.\<close>

definition handed :: "string \<Rightarrow> string \<Rightarrow> string \<Rightarrow> membership_row list \<Rightarrow> membership_row list" where
  "handed g owner target ms = update_where (\<lambda>m. is_place g owner m \<or> is_place g target m \<and> active m)
     (\<lambda>m. m\<lparr>mem_role := (if is_place g owner m then RoleMember else RoleOwner)\<rparr>) ms"

lemma TransferOwnership_eq:
  "TransferOwnership g owner target db =
     (case ownerOnly g owner db of
        Some e \<Rightarrow> (Inl e, db)
      | None \<Rightarrow>
          if \<exists>m\<in>set (db_memberships db). is_place g target m \<and> active m
          then (Inr (), db\<lparr>db_memberships := handed g owner target (db_memberships db)\<rparr>)
          else (Inl ErrNotFound, db))"
proof -
  have "update_where (is_place g owner) (\<lambda>m. m\<lparr>mem_role := RoleMember\<rparr>)
      (update_where (\<lambda>m. is_place g target m \<and> active m) (\<lambda>m. m\<lparr>mem_role := RoleOwner\<rparr>) ms) =
      handed g owner target ms" for ms
    by (auto simp: update_where_def handed_def)
  then show ?thesis
    by (simp add: TransferOwnership_def store_write_def Let_def split: option.splits)
qed

lemma handed_owner:
  assumes inv: "store_inv db" and owner: "ownerOnly g owner db = None"
    and x: "x \<in> set (handed g owner target (db_memberships db))" "mem_role x = RoleOwner"
  obtains r where "r \<in> set (db_memberships db)" "is_place g target r" "target \<noteq> owner" "x = r\<lparr>mem_role := RoleOwner\<rparr>"
  | "x \<in> set (db_memberships db)" "mem_group_id x \<noteq> g"
proof -
  obtain m where m: "m \<in> set (db_memberships db)" "is_place g owner m" "mem_role m = RoleOwner"
    using owner by (auto simp: ownerOnly_None dest: find_SomeD)
  have inj: "inj_on mem_group_id {m \<in> set (db_memberships db). mem_role m = RoleOwner}"
    using store_invD(7) [OF inv] by (simp add: owners_ok_def)
  from x(1) show thesis
    unfolding handed_def
  proof (rule update_whereE)
    fix r
    assume "r \<in> set (db_memberships db)" "is_place g owner r \<or> is_place g target r \<and> active r"
      "x = r\<lparr>mem_role := (if is_place g owner r then RoleMember else RoleOwner)\<rparr>"
    then show thesis using that(1) [of r] x(2) by (auto simp: is_place_def split: if_splits)
  next
    assume r: "x \<in> set (db_memberships db)" "\<not> (is_place g owner x \<or> is_place g target x \<and> active x)"
    then have "mem_group_id x \<noteq> g"
      using inj_onD [OF inj, of x m] m x(2) by (auto simp: is_place_def)
    with r(1) show thesis by (rule that(2))
  qed
qed

lemma handed_owners_ok:
  assumes inv: "store_inv db" and owner: "ownerOnly g owner db = None"
  shows "owners_ok (db\<lparr>db_memberships := handed g owner target (db_memberships db)\<rparr>)"
proof -
  let ?ms = "handed g owner target (db_memberships db)"
  have "inj_on mem_group_id {m \<in> set ?ms. mem_role m = RoleOwner}"
  proof (rule inj_onI)
    fix a b
    assume "a \<in> {m \<in> set ?ms. mem_role m = RoleOwner}" "b \<in> {m \<in> set ?ms. mem_role m = RoleOwner}"
      and eq: "mem_group_id a = mem_group_id b"
    then have a: "a \<in> set ?ms" "mem_role a = RoleOwner" and b: "b \<in> set ?ms" "mem_role b = RoleOwner" by simp_all
    have inj: "inj_on mem_group_id {m \<in> set (db_memberships db). mem_role m = RoleOwner}"
      using store_invD(7) [OF inv] by (simp add: owners_ok_def)
    from a show "a = b"
    proof (rule handed_owner [OF inv owner])
      fix ra
      assume ra: "ra \<in> set (db_memberships db)" "is_place g target ra" "a = ra\<lparr>mem_role := RoleOwner\<rparr>"
      from b show ?thesis
      proof (rule handed_owner [OF inv owner])
        fix rb
        assume rb: "rb \<in> set (db_memberships db)" "is_place g target rb" "b = rb\<lparr>mem_role := RoleOwner\<rparr>"
        then show ?thesis using place_unique [OF store_invD(5) [OF inv] ra(1) rb(1) ra(2) rb(2)] ra(3) by simp
      qed (use ra eq in \<open>simp add: is_place_def\<close>)
    next
      assume ra: "a \<in> set (db_memberships db)" "mem_group_id a \<noteq> g"
      from b show ?thesis
      proof (rule handed_owner [OF inv owner])
        assume "b \<in> set (db_memberships db)"
        then show ?thesis using ra(1) eq a(2) b(2) inj_onD [OF inj, of a b] by simp
      qed (use ra eq in \<open>simp add: is_place_def\<close>)
    qed
  qed
  then show ?thesis by (simp add: owners_ok_def)
qed

lemma TransferOwnership_inv: "store_inv db \<Longrightarrow> store_inv (snd (TransferOwnership g owner target db))"
proof -
  assume inv: "store_inv db"
  have "store_inv (db\<lparr>db_memberships := handed g owner target (db_memberships db)\<rparr>)"
    if "ownerOnly g owner db = None"
    using handed_owners_ok [OF inv that, of target] inv store_invD(5) [OF inv] unfolding handed_def
    by (intro store_inv_memberships addresses_ok_update) (auto simp: mem_place_def store_invD members_ok_def)
  then show ?thesis using inv by (simp add: TransferOwnership_eq split: option.splits)
qed


subsection \<open>Groups\<close>

lemma store_inv_relabel:
  assumes "store_inv db" "\<And>r. P r \<Longrightarrow> grp_id (f r) = grp_id r \<and> grp_subnet (f r) = grp_subnet r \<and>
    grp_invite_code (f r) = grp_invite_code r \<and> grp_created_by (f r) = grp_created_by r"
  shows "store_inv (db\<lparr>db_groups := update_where P f (db_groups db)\<rparr>)"
proof -
  have "\<forall>g\<in>set (update_where P f (db_groups db)). grp_invite_code g \<noteq> [] \<and> list_all code_char (grp_invite_code g)"
    using store_invD(4) [OF assms(1)] assms(2) by (auto simp: groups_ok_def elim!: update_whereE)
  then show ?thesis
    using store_invD(4) [OF assms(1)] assms
    by (intro store_inv_groups) (simp_all add: groups_ok_def map_update_where image_update_where)
qed

lemma RenameGroup_inv: "store_inv db \<Longrightarrow> store_inv (snd (RenameGroup g owner name db))"
  by (auto simp: RenameGroup_def split: option.splits intro!: store_write_inv store_inv_relabel)

lemma SetGroupAppearance_inv: "store_inv db \<Longrightarrow> store_inv (snd (SetGroupAppearance g owner icon color db))"
  by (auto simp: SetGroupAppearance_def split: option.splits intro!: store_write_inv store_inv_relabel)

lemma DeleteGroup_inv: "store_inv db \<Longrightarrow> store_inv (snd (DeleteGroup g owner db))"
proof -
  assume inv: "store_inv db"
  let ?gone = "mem_id ` set (filter (\<lambda>m. mem_group_id m = g) (db_memberships db))"
  let ?db = "db\<lparr>db_groups := delete_where (\<lambda>r. grp_id r = g) (db_groups db),
     db_memberships := delete_where (\<lambda>m. mem_group_id m = g) (db_memberships db),
     db_sessions := delete_where (\<lambda>s. ses_group_id s = g \<or> ses_membership_id s \<in> ?gone) (db_sessions db)\<rparr>"
  have "groups_ok ?db"
    using store_invD(4) [OF inv] by (auto simp: groups_ok_def distinct_delete_where set_delete_where)
  moreover have "members_ok ?db"
    using store_invD(5) [OF inv] by (auto simp: members_ok_def distinct_delete_where set_delete_where)
  moreover have "addresses_ok ?db"
    using store_invD(6) [OF inv] by (auto simp: addresses_ok_def set_delete_where elim: inj_on_subset)
  moreover have "owners_ok ?db"
    using store_invD(7) [OF inv] by (auto simp: owners_ok_def set_delete_where elim: inj_on_subset)
  moreover have "sessions_ok ?db"
    using store_invD(8) [OF inv] by (auto simp: sessions_ok_def distinct_delete_where set_delete_where)
  ultimately have "store_inv ?db" using inv by (simp add: store_inv_def devices_ok_def tokens_ok_def)
  then show ?thesis
    using inv by (auto simp: DeleteGroup_def Let_def split: option.splits if_splits intro!: store_write_inv)
qed

text \<open>A code drawn from five random bytes.\<close>

definition good_draws :: "(nat \<Rightarrow> bytes option) \<Rightarrow> bool" where
  "good_draws draws \<longleftrightarrow> (\<forall>n raw. draws n = Some raw \<longrightarrow> length raw = inviteCodeBytes)"

lemma free_code_Inr:
  assumes "free_code draws db = Inr c" "\<forall>raw. Some raw \<in> set draws \<longrightarrow> length raw = inviteCodeBytes"
  shows "c \<notin> grp_invite_code ` set (db_groups db) \<and> c \<noteq> [] \<and> list_all code_char c"
  using assms
proof (induction draws)
  case (Cons raw draws)
  then obtain bs where bs: "raw = Some bs" "length bs = 5 * 1"
    by (auto simp: NewInviteCode_def inviteCodeBytes_def split: option.splits)
  then have "base32 bs \<noteq> []" "list_all code_char (base32 bs)" using base32_props [of bs 1] by auto
  with Cons bs show ?case by (auto simp: NewInviteCode_def split: if_splits)
qed simp

lemma freeInviteCode_Inr:
  assumes "freeInviteCode draws db = Inr c" "good_draws draws"
  shows "c \<notin> grp_invite_code ` set (db_groups db)" "c \<noteq> []" "list_all code_char c"
proof -
  have "\<forall>raw. Some raw \<in> set (map draws [0..<5]) \<longrightarrow> length raw = inviteCodeBytes"
    using assms(2) by (auto simp: good_draws_def eq_commute [of "Some _"])
  from free_code_Inr [OF _ this] assms(1)
  show "c \<notin> grp_invite_code ` set (db_groups db)" "c \<noteq> []" "list_all code_char c"
    by (simp_all add: freeInviteCode_def)
qed

lemma ResetInviteCode_inv:
  assumes inv: "store_inv db" and good: "good_draws draws"
  shows "store_inv (snd (ResetInviteCode draws g owner db))"
proof -
  have "store_inv (db\<lparr>db_groups := update_where (\<lambda>r. grp_id r = g) (\<lambda>r. r\<lparr>grp_invite_code := c\<rparr>) (db_groups db)\<rparr>)"
    if c: "freeInviteCode draws db = Inr c" for c
  proof (rule store_inv_groups [OF inv])
    let ?gs = "update_where (\<lambda>r. grp_id r = g) (\<lambda>r. r\<lparr>grp_invite_code := c\<rparr>) (db_groups db)"
    note new = freeInviteCode_Inr [OF c good]
    have ids: "distinct (map grp_id (db_groups db))" and codes: "distinct (map grp_invite_code (db_groups db))"
      using store_invD(4) [OF inv] by (simp_all add: groups_ok_def)
    have mids: "map grp_id ?gs = map grp_id (db_groups db)" by (rule map_update_where) simp
    have own: "grp_invite_code x = c \<longleftrightarrow> grp_id x = g" if "x \<in> set ?gs" for x
      using that new(1) by (elim update_whereE) auto
    have "inj_on grp_invite_code (set ?gs)"
    proof (rule inj_onI)
      fix a b
      assume a: "a \<in> set ?gs" and b: "b \<in> set ?gs" and eq: "grp_invite_code a = grp_invite_code b"
      have "grp_id a = grp_id b"
      proof (cases "grp_id a = g")
        case False
        have "x \<in> set (db_groups db)" if "x \<in> set ?gs" "grp_id x \<noteq> g" for x
          using that by (elim update_whereE) auto
        then show ?thesis using a b own [OF a] own [OF b] eq False unique_key [OF codes, of a b] by auto
      qed (use own [OF a] own [OF b] eq in simp)
      then show "a = b" using unique_key [of grp_id ?gs a b] a b mids ids by simp
    qed
    moreover have "distinct ?gs" using ids unfolding mids [symmetric] by (simp only: distinct_map)
    ultimately have "distinct (map grp_invite_code ?gs)" by (simp add: distinct_map)
    moreover have "\<forall>g\<in>set ?gs. grp_invite_code g \<noteq> [] \<and> list_all code_char (grp_invite_code g)"
      using store_invD(4) [OF inv] new(2,3) by (auto simp: groups_ok_def elim!: update_whereE)
    ultimately show "groups_ok (db\<lparr>db_groups := ?gs\<rparr>)"
      using store_invD(4) [OF inv] mids by (simp add: groups_ok_def image_update_where)
  qed simp
  then show ?thesis
    using inv by (auto simp: ResetInviteCode_def setInviteCode_def split: option.splits sum.splits if_splits intro!: store_write_inv)
qed

lemma insert_group_inv:
  assumes inv: "store_inv db" and ins: "insert_group g c d at db = Inr db'" and c: "c \<noteq> []" "list_all code_char c"
  shows "store_inv db' \<and> (\<forall>m\<in>set (db_memberships db'). mem_group_id m \<noteq> G_ID g) \<and>
    (\<forall>r\<in>set (db_groups db'). grp_id r = G_ID g \<longrightarrow> grp_subnet r = G_Subnet g)"
proof -
  let ?r = "\<lparr>grp_id = G_ID g, grp_name = G_Name g, grp_icon = G_Icon g, grp_color = G_Color g,
    grp_subnet = G_Subnet g, grp_invite_code = c, grp_created_by = d, grp_created_at = at\<rparr>"
  have db': "db' = db\<lparr>db_groups := db_groups db @ [?r]\<rparr>" and fresh: "G_ID g \<notin> grp_id ` set (db_groups db)"
    and "c \<notin> grp_invite_code ` set (db_groups db)" "d \<in> dev_id ` set (db_devices db)"
    using ins by (auto simp: insert_group_def row_by_key split: if_splits)
  then have "groups_ok db'" using store_invD(4) [OF inv] c by (simp add: groups_ok_def)
  moreover have "members_ok db'" using store_invD(5) [OF inv] by (auto simp: db' members_ok_def)
  moreover have none: "mem_group_id m \<noteq> G_ID g" if "m \<in> set (db_memberships db)" for m
    using store_invD(5) [OF inv] fresh imageI [OF that, of mem_group_id] by (auto simp: members_ok_def)
  then have "addresses_ok db'"
    using store_invD(6) [OF inv] unfolding db' addresses_ok_def fits_net_def grp_net_def by (auto dest: none)
  moreover have "grp_subnet r = G_Subnet g" if "r \<in> set (db_groups db')" "grp_id r = G_ID g" for r
    using that fresh by (auto simp: db' image_iff)
  ultimately show ?thesis using inv none by (simp add: db' store_inv_def)
qed


text \<open>The rows a new group adds: its own, and its owner's.\<close>

lemma created_rows:
  assumes inv: "store_inv db" and good: "good_draws draws" and c: "freeInviteCode draws db = Inr c"
    and ins: "insert_group (g\<lparr>G_InviteCode := c\<rparr>) c d (unix now) db = Inr db1"
    and mem: "insertMembership raw (g\<lparr>G_InviteCode := c\<rparr>) d now db1 = Inr (mm, db2)"
  shows "store_inv db2 \<and> db_groups db2 = db_groups db1 \<and> (\<exists>r. mem_group_id r = G_ID g \<and> mem_banned_at r = None \<and>
    mem_device_id r = d \<and> active r \<and> mem_role r = RoleOwner \<and> mem_virtual_ip r = Some (M_VirtualIP mm) \<and>
    update_where (\<lambda>r. mem_id r = M_ID mm) (\<lambda>r. r\<lparr>mem_role := RoleOwner\<rparr>) (db_memberships db2) = db_memberships db @ [r])"
proof -
  have inv1: "store_inv db1" and none: "\<forall>m\<in>set (db_memberships db1). mem_group_id m \<noteq> G_ID g"
    and net: "\<forall>r\<in>set (db_groups db1). grp_id r = G_ID g \<longrightarrow> grp_subnet r = G_Subnet g"
    using insert_group_inv [OF inv ins] freeInviteCode_Inr [OF c good] by auto
  have same: "db_memberships db1 = db_memberships db" using ins by (auto simp: insert_group_def split: if_splits)
  have empty: "place (G_ID g) d db1 = None" using none by (auto simp: place_def is_place_def find_eq_None)
  have inv2: "store_inv db2" using insertMembership_inv [OF inv1 mem] empty net by simp
  show ?thesis
  proof (rule insertMembership_Inr [OF mem])
    fix i m
    let ?r = "\<lparr>mem_id = i, mem_group_id = G_ID g, mem_device_id = d, mem_created_at = unix now, mem_revoked_at = None,
      mem_banned_at = None, mem_virtual_ip = Some (M_VirtualIP mm), mem_role = RoleMember\<rparr>"
    assume "membership_by_id i db1 = None" and "place (G_ID (g\<lparr>G_InviteCode := c\<rparr>)) d db2 = Some m" "M_ID mm = mem_id m"
      and db2: "db2 = seated i (G_ID (g\<lparr>G_InviteCode := c\<rparr>)) d (unix now) (M_VirtualIP mm) db1"
    then have ms: "db_memberships db2 = db_memberships db1 @ [?r]" and m: "m \<in> set (db_memberships db2)" "mem_group_id m = G_ID g"
      using empty by (auto simp: seated_def place_def is_place_def dest: find_SomeD)
    then have "m = ?r" using none by auto
    then have mid: "M_ID mm = i" using \<open>M_ID mm = mem_id m\<close> by simp
    have "i \<notin> mem_id ` set (db_memberships db1)" using \<open>membership_by_id i db1 = None\<close> by (simp add: row_by_key)
    then have "update_where (\<lambda>r. mem_id r = i) (\<lambda>r. r\<lparr>mem_role := RoleOwner\<rparr>) (db_memberships db2) =
        db_memberships db @ [?r\<lparr>mem_role := RoleOwner\<rparr>]"
      by (auto simp: update_where_def ms same intro!: map_idI)
    then show ?thesis
      unfolding mid using inv2 db2 by (intro conjI exI [of _ "?r\<lparr>mem_role := RoleOwner\<rparr>"]) (simp_all add: seated_def)
  qed
qed

lemma CreateGroup_inv:
  assumes inv: "store_inv db" and good: "good_draws draws"
  shows "store_inv (snd (CreateGroup draws raw g d now db))"
proof -
  have "store_inv (db2\<lparr>db_memberships := update_where (\<lambda>r. mem_id r = M_ID mm) (\<lambda>r. r\<lparr>mem_role := RoleOwner\<rparr>) (db_memberships db2)\<rparr>)"
    if c: "freeInviteCode draws db = Inr c" and ins: "insert_group (g\<lparr>G_InviteCode := c\<rparr>) c d (unix now) db = Inr db1"
      and mem: "insertMembership raw (g\<lparr>G_InviteCode := c\<rparr>) d now db1 = Inr (mm, db2)" for c db1 mm db2
  proof -
    let ?ms = "update_where (\<lambda>r. mem_id r = M_ID mm) (\<lambda>r. r\<lparr>mem_role := RoleOwner\<rparr>) (db_memberships db2)"
    obtain r where inv2: "store_inv db2" and r: "mem_group_id r = G_ID g" "mem_role r = RoleOwner" and ms: "?ms = db_memberships db @ [r]"
      using created_rows [OF inv good c ins mem] by blast
    have none: "\<forall>m\<in>set (db_memberships db). mem_group_id m \<noteq> G_ID g"
      using insert_group_inv [OF inv ins] freeInviteCode_Inr [OF c good] ins by (auto simp: insert_group_def split: if_splits)
    have "{m \<in> set ?ms. mem_role m = RoleOwner} = insert r {m \<in> set (db_memberships db). mem_role m = RoleOwner}"
      unfolding ms using r by auto
    then have "owners_ok (db2\<lparr>db_memberships := ?ms\<rparr>)"
      using store_invD(7) [OF inv] none r by (auto simp: owners_ok_def inj_on_insert)
    then show ?thesis
      using inv2 store_invD(5) [OF inv2]
      by (intro store_inv_memberships addresses_ok_update) (auto simp: mem_place_def store_invD members_ok_def)
  qed
  then show ?thesis
    using inv by (auto simp: CreateGroup_def Let_def split: sum.splits intro!: store_write_inv)
qed

subsection \<open>Runs of the server\<close>

text \<open>
  One statement or transaction of the store. A join is handed the group as it was read before, and
  a session the membership as it was read before: what they were read from may have changed since,
  but a group keeps its subnet and a membership its group.
\<close>

inductive store_step :: "db \<Rightarrow> db \<Rightarrow> bool" where
  step_register: "store_step db (snd (RegisterDevice h tok d now db))"
| step_token: "store_step db (snd (DeviceByToken h token now db))"
| step_nickname: "store_step db (snd (SetDeviceNickname d name db))"
| step_nonce: "store_step db (snd (ClaimRegisterNonce n keep now db))"
| step_create: "good_draws draws \<Longrightarrow> store_step db (snd (CreateGroup draws raw g d now db))"
| step_join: "(\<And>r. r \<in> set (db_groups db) \<Longrightarrow> grp_id r = G_ID g \<Longrightarrow> grp_subnet r = G_Subnet g) \<Longrightarrow>
    store_step db (snd (AddMembership raw g d now db))"
| step_revoke: "store_step db (snd (revoke_row gid d now db))"
| step_end: "store_step db (end_sessions gid d db)"
| step_remove: "store_step db (snd (RemoveMember gid owner target now db))"
| step_rename: "store_step db (snd (RenameGroup gid owner name db))"
| step_appearance: "store_step db (snd (SetGroupAppearance gid owner icon color db))"
| step_transfer: "store_step db (snd (TransferOwnership gid owner target db))"
| step_delete: "store_step db (snd (DeleteGroup gid owner db))"
| step_reset: "good_draws draws \<Longrightarrow> store_step db (snd (ResetInviteCode draws gid owner db))"
| step_session: "(\<And>r. r \<in> set (db_memberships db) \<Longrightarrow> mem_id r = M_ID m \<Longrightarrow> mem_group_id r = M_GroupID m) \<Longrightarrow>
    store_step db (snd (CreateSession raw m now db))"
| step_endpoint: "store_step db (snd (SetSessionEndpoint i address port now db))"
| step_touch: "store_step db (snd (TouchSession i now db))"
| step_disconnect: "store_step db (snd (DeleteSession i db))"
| step_expire: "store_step db (snd (ExpireSessions olderThan now db))"

lemmas store_inv_intros = RegisterDevice_inv DeviceByToken_inv SetDeviceNickname_inv ClaimRegisterNonce_inv
  CreateGroup_inv AddMembership_inv revoke_row_inv end_sessions_inv RemoveMember_inv RenameGroup_inv
  SetGroupAppearance_inv TransferOwnership_inv DeleteGroup_inv ResetInviteCode_inv CreateSession_inv

lemma store_inv_step: "store_inv db \<Longrightarrow> store_step db db' \<Longrightarrow> store_inv db'"
  by (erule store_step.cases)
    (auto simp: SetSessionEndpoint_def TouchSession_def DeleteSession_def ExpireSessions_def Let_def
      intro: store_inv_intros update_session_inv store_inv_fewer_sessions)

interpretation db_runs: invariant_system "\<lambda>db. db = empty_db" store_step store_inv
  by unfold_locales (auto intro: store_inv_empty store_inv_step)

lemma place_Some:
  "store_inv db \<Longrightarrow> place g d db = Some m \<longleftrightarrow> m \<in> set (db_memberships db) \<and> is_place g d m"
proof -
  have "is_place g d = (\<lambda>r. mem_place r = (g, d))" by (simp add: fun_eq_iff is_place_iff)
  then show "store_inv db \<Longrightarrow> ?thesis"
    using find_key [of mem_place "db_memberships db" "(g, d)" m] store_invD(5) [of db]
    by (simp add: place_def members_ok_def)
qed

section \<open>An example\<close>

text \<open>A group of two, and a third device that left it.\<close>

definition toy_device :: "string \<Rightarrow> device" where
  "toy_device d = \<lparr>dev_id = d, dev_public_key = ''key-'' @ d, dev_transport_key = ''transport-'' @ d, dev_name = ''pc'',
     dev_nickname = d, dev_created_at = 0, dev_last_seen_at = 0\<rparr>"

definition toy_group_row :: group_row where
  "toy_group_row = \<lparr>grp_id = ''grp'', grp_name = ''LAN'', grp_icon = [], grp_color = [], grp_subnet = ''10.69.0.0/24'',
     grp_invite_code = ''abcdefgh'', grp_created_by = ''ann'', grp_created_at = 0\<rparr>"

definition toy_row :: "string \<Rightarrow> role \<Rightarrow> int option \<Rightarrow> string \<Rightarrow> membership_row" where
  "toy_row d r gone ip = \<lparr>mem_id = ''m-'' @ d, mem_group_id = ''grp'', mem_device_id = d, mem_created_at = 0,
     mem_revoked_at = gone, mem_banned_at = None, mem_virtual_ip = Some ip, mem_role = r\<rparr>"

definition toy_db :: db where
  "toy_db = empty_db\<lparr>db_devices := map toy_device [''ann'', ''bob'', ''cid''], db_groups := [toy_group_row],
     db_memberships := [toy_row ''ann'' RoleOwner None ''10.69.0.1'', toy_row ''bob'' RoleMember None ''10.69.0.2'',
       toy_row ''cid'' RoleMember (Some 7) ''10.69.0.2''],
     db_sessions := [\<lparr>ses_id = ''s'', ses_group_id = ''grp'', ses_membership_id = ''m-bob'', ses_endpoint = None,
       ses_connected_at = 5, ses_last_seen_at = 5\<rparr>]\<rparr>"

lemmas toy_db_defs = toy_db_def toy_row_def toy_group_row_def toy_device_def empty_db_def

lemma toy_subnet: "ParsePrefix ''10.69.0.0/24'' = Some \<lparr>pfx_addr = Addr4 0x0a450000, pfx_bits = 24\<rparr>"
  by (simp add: ParsePrefix_def parse_ipv4_def dec_field_def is_digit_def dec_value_def)

lemma toy_addresses:
  "ipv4_String 0x0a450001 = ''10.69.0.1''" "ipv4_String 0x0a450002 = ''10.69.0.2''" "ipv4_String 0x0a450003 = ''10.69.0.3''"
  by (simp_all add: ipv4_String_def drop_bit_eq_div dec.simps digit_def char_of_def bit_0)

lemma toy_hosts: "host_text ''10.69.0.0/24'' ''10.69.0.1''" "host_text ''10.69.0.0/24'' ''10.69.0.2''"
proof -
  have "0x0a450001 \<in> hosts 0x0a450000 24" "0x0a450002 \<in> hosts 0x0a450000 24" by (simp_all add: hosts_def)
  then show "host_text ''10.69.0.0/24'' ''10.69.0.1''" "host_text ''10.69.0.0/24'' ''10.69.0.2''"
    using toy_subnet toy_addresses unfolding host_text_def by metis+
qed

lemma inj_on_rows: "distinct (map k (filter Q rows)) \<Longrightarrow> inj_on k {m \<in> set rows. Q m}"
  by (simp add: distinct_map)

lemma toy_db_inv: "store_inv toy_db"
proof -
  have "inj_on (\<lambda>m. (mem_group_id m, mem_virtual_ip m)) {m \<in> set (db_memberships toy_db). active m}"
    "inj_on mem_group_id {m \<in> set (db_memberships toy_db). mem_role m = RoleOwner}"
    by (rule inj_on_rows; simp add: toy_db_defs)+
  moreover have "\<forall>m\<in>set (db_memberships toy_db). \<forall>r\<in>grp_net ` set (db_groups toy_db). fits_net m r"
    "\<forall>m\<in>set (db_memberships toy_db). active m \<longrightarrow> mem_virtual_ip m \<noteq> None"
    by (simp_all add: toy_db_defs fits_net_def grp_net_def toy_hosts)
  ultimately have "addresses_ok toy_db" "owners_ok toy_db" by (simp_all add: addresses_ok_def owners_ok_def)
  moreover have "devices_ok toy_db" "tokens_ok toy_db" "groups_ok toy_db" "members_ok toy_db" "sessions_ok toy_db"
    by (simp_all add: toy_db_defs devices_ok_def tokens_ok_def groups_ok_def members_ok_def sessions_ok_def mem_place_def
        code_char_def is_lower_def)
  ultimately show ?thesis by (simp add: store_inv_def) (simp add: toy_db_defs)
qed

lemma toy_free: "freeAddress ''10.69.0.0/24'' [''10.69.0.1'', ''10.69.0.2''] = Inr ''10.69.0.3''"
proof -
  have step: "free_from p taken c = (if ipv4_String c \<in> set taken then free_from p taken (c + 1) else Inr (ipv4_String c))"
    if "prefix_contains p (Addr4 c)" "prefix_contains p (addr_next (Addr4 c))" for p taken c
    using that by (simp add: free_from.simps [of p taken c])
  have host: "prefix_contains \<lparr>pfx_addr = Addr4 0x0a450000, pfx_bits = 24\<rparr> (Addr4 w)" if "w \<in> {0x0a450001, 0x0a450002, 0x0a450003, 0x0a450004}" for w
    using that by (auto simp: host_mask_def drop_bit_eq_div)
  have "masked \<lparr>pfx_addr = Addr4 0x0a450000, pfx_bits = 24\<rparr> = Addr4 0x0a450000"
    by (simp add: host_mask_def drop_bit_eq_div)
  then show ?thesis
    by (simp add: freeAddress_def toy_subnet step host toy_addresses del: prefix_contains.simps masked.simps)
qed

end
