(* ===== verification/Storage_Owner.thy ===== *)
theory Storage_Owner
  imports Storage_Inv
begin

text \<open>
  Who may change a group, and what becomes of a membership over time. Every management call is an
  instance of \<open>owner_guarded\<close>; \<open>follows\<close> says what any one step of the store can do to the
  memberships, from which removal and the loss of the owner are followed through whole runs.
\<close>

section \<open>What only the owner may do\<close>

definition owns :: "string \<Rightarrow> string \<Rightarrow> db \<Rightarrow> bool" where
  "owns g d db \<longleftrightarrow>
     (\<exists>m\<in>set (db_memberships db). is_place g d m \<and> active m \<and> mem_role m = RoleOwner)"

text \<open>
  A management call: refused with the store untouched unless the caller passes \<open>ownerOnly\<close>.
\<close>

locale owner_guarded =
  fixes call :: "string \<Rightarrow> string \<Rightarrow> db \<Rightarrow> (store_error + 'a) \<times> db"
  assumes guard: "ownerOnly g d db = Some e \<Longrightarrow> \<exists>e'. call g d db = (Inl e', db)"
    and fails_clean: "call g d db = (Inl e, db') \<Longrightarrow> db' = db"
begin

lemma only_owner: "call g d db = (Inr x, db') \<Longrightarrow> owns g d db"
proof (cases "ownerOnly g d db")
  case None
  then show ?thesis by (auto simp: ownerOnly_None owns_def dest: find_SomeD)
next
  case (Some e)
  assume "call g d db = (Inr x, db')"
  with guard [OF Some] show ?thesis by simp
qed

lemma refused: "\<not> owns g d db \<Longrightarrow> \<exists>e. call g d db = (Inl e, db)"
  using only_owner fails_clean by (cases "call g d db"; cases "fst (call g d db)") auto

end

interpretation rename: owner_guarded "\<lambda>g d. RenameGroup g d name"
  by unfold_locales (auto simp: RenameGroup_def store_write_def split: option.splits sum.splits)

interpretation appearance: owner_guarded "\<lambda>g d. SetGroupAppearance g d icon color"
  by unfold_locales (auto simp: SetGroupAppearance_def store_write_def split: option.splits sum.splits)

interpretation transfer: owner_guarded "\<lambda>g d. TransferOwnership g d target"
  by unfold_locales (auto simp: TransferOwnership_eq split: option.splits if_splits)

interpretation delete: owner_guarded "\<lambda>g d. DeleteGroup g d"
  by unfold_locales (auto simp: DeleteGroup_def store_write_def Let_def split: option.splits sum.splits if_splits)

interpretation reset: owner_guarded "\<lambda>g d. ResetInviteCode draws g d"
  by unfold_locales (auto simp: ResetInviteCode_def store_write_def split: option.splits sum.splits)

interpretation removal: owner_guarded "\<lambda>g d. RemoveMember g d target now"
  by unfold_locales (auto simp: RemoveMember_def store_write_def Let_def split: option.splits sum.splits if_splits)

text \<open>
C11: only the owner manages a group. Renaming it, changing its look, handing it over, deleting it, replacing its
invite code and removing somebody all fail for a device that is not an active owner of the group,
and leave the database exactly as it was.
\<close>

theorem only_owner_manages:
  assumes "\<not> owns g d db"
  shows "(\<exists>e. RenameGroup g d name db = (Inl e, db)) \<and> (\<exists>e. SetGroupAppearance g d icon color db = (Inl e, db)) \<and>
    (\<exists>e. TransferOwnership g d target db = (Inl e, db)) \<and> (\<exists>e. DeleteGroup g d db = (Inl e, db)) \<and>
    (\<exists>e. ResetInviteCode draws g d db = (Inl e, db)) \<and> (\<exists>e. RemoveMember g d target now db = (Inl e, db))"
  using assms by (intro conjI rename.refused appearance.refused transfer.refused delete.refused reset.refused removal.refused)

section \<open>Who may manage the group after a hand-over\<close>

lemma owns_handed:
  assumes inv: "store_inv db" and owner: "ownerOnly g owner db = None"
    and target: "\<exists>m\<in>set (db_memberships db). is_place g target m \<and> active m"
  shows "owns g d (db\<lparr>db_memberships := handed g owner target (db_memberships db)\<rparr>) \<longleftrightarrow> d = target \<and> target \<noteq> owner"
proof
  assume "owns g d (db\<lparr>db_memberships := handed g owner target (db_memberships db)\<rparr>)"
  then obtain x where x: "x \<in> set (handed g owner target (db_memberships db))" "mem_role x = RoleOwner"
    and at: "is_place g d x" by (auto simp: owns_def)
  from x show "d = target \<and> target \<noteq> owner"
    by (rule handed_owner [OF inv owner]) (use at in \<open>auto simp: is_place_def\<close>)
next
  assume d: "d = target \<and> target \<noteq> owner"
  from target obtain m where m: "m \<in> set (db_memberships db)" "is_place g target m" "active m" by blast
  have "\<not> is_place g owner m" using m(2) d by (auto simp: is_place_def)
  then have "m\<lparr>mem_role := RoleOwner\<rparr> \<in> set (handed g owner target (db_memberships db))"
    using m by (auto simp: handed_def update_where_def image_iff intro!: bexI [of _ m])
  then show "owns g d (db\<lparr>db_memberships := handed g owner target (db_memberships db)\<rparr>)"
    using m d by (auto simp: owns_def intro!: bexI [of _ "m\<lparr>mem_role := RoleOwner\<rparr>"])
qed

text \<open>
Handing a group to somebody else does exactly that: the call succeeds only for the owner, afterwards
the other device owns the group and nobody else does, and everybody keeps their place.
\<close>

theorem transfer_hands_over:
  assumes "store_inv db" and "TransferOwnership g owner target db = (Inr (), db')" and "target \<noteq> owner"
  shows "owns g owner db \<and> owns g target db' \<and> (\<forall>d. owns g d db' \<longrightarrow> d = target) \<and>
    map mem_place (db_memberships db') = map mem_place (db_memberships db)"
proof -
  have owner: "ownerOnly g owner db = None" and "\<exists>m\<in>set (db_memberships db). is_place g target m \<and> active m"
    and db': "db' = db\<lparr>db_memberships := handed g owner target (db_memberships db)\<rparr>"
    using assms(2) by (auto simp: TransferOwnership_eq split: option.splits if_splits)
  moreover have "map mem_place (db_memberships db') = map mem_place (db_memberships db)"
    by (simp add: db' handed_def map_update_where mem_place_def)
  ultimately show ?thesis
    using owns_handed [OF assms(1)] transfer.only_owner [OF assms(2)] assms(3) by blast
qed

text \<open>A group without an owner stays without one: only creating a group makes an owner of somebody else.\<close>

definition ownerless :: "string \<Rightarrow> db \<Rightarrow> bool" where
  "ownerless g db \<longleftrightarrow> g \<in> grp_id ` set (db_groups db) \<and>
     (\<forall>m\<in>set (db_memberships db). mem_group_id m = g \<longrightarrow> mem_role m \<noteq> RoleOwner)"

lemma ownerless_refuses: "ownerless g db \<Longrightarrow> \<not> owns g d db"
  by (auto simp: ownerless_def owns_def is_place_def)


section \<open>What becomes of a membership\<close>

text \<open>
  Across a step, a row that is still there keeps its place and a removal it records, and is an owner
  only in a group that had one; a row that is new records no removal and is an owner only in a group
  that is new. A row disappears only with its group, and a group only by the hand of its owner.
\<close>

definition had_owner :: "string \<Rightarrow> db \<Rightarrow> bool" where
  "had_owner g db \<longleftrightarrow> (\<exists>w\<in>set (db_memberships db). mem_group_id w = g \<and> mem_role w = RoleOwner)"

definition kept_row :: "db \<Rightarrow> membership_row \<Rightarrow> membership_row \<Rightarrow> bool" where
  "kept_row db m m' \<longleftrightarrow> mem_place m' = mem_place m \<and> (mem_banned_at m \<noteq> None \<longrightarrow> mem_banned_at m' \<noteq> None) \<and>
     (mem_role m' = RoleOwner \<longrightarrow> had_owner (mem_group_id m') db)"

definition new_row :: "db \<Rightarrow> membership_row \<Rightarrow> bool" where
  "new_row db m' \<longleftrightarrow> mem_place m' \<notin> mem_place ` set (db_memberships db) \<and> mem_banned_at m' = None \<and>
     (mem_role m' = RoleOwner \<longrightarrow> mem_group_id m' \<notin> grp_id ` set (db_groups db))"

definition follows :: "db \<Rightarrow> db \<Rightarrow> bool" where
  "follows db db' \<longleftrightarrow>
     (\<forall>m'\<in>set (db_memberships db'). (\<exists>m\<in>set (db_memberships db). kept_row db m m') \<or> new_row db m') \<and>
     (\<forall>m\<in>set (db_memberships db). mem_group_id m \<in> grp_id ` set (db_groups db') \<longrightarrow>
        mem_place m \<in> mem_place ` set (db_memberships db')) \<and>
     (\<forall>g\<in>grp_id ` set (db_groups db). g \<in> grp_id ` set (db_groups db') \<or> (\<exists>d. owns g d db))"

lemma kept_row_same: "m \<in> set (db_memberships db) \<Longrightarrow> kept_row db m m"
  by (auto simp: kept_row_def had_owner_def)

lemma follows_kept:
  assumes "\<And>m'. m' \<in> set (db_memberships db') \<Longrightarrow> \<exists>m\<in>set (db_memberships db). kept_row db m m'"
    and "mem_place ` set (db_memberships db') = mem_place ` set (db_memberships db)"
    and "grp_id ` set (db_groups db') = grp_id ` set (db_groups db)"
  shows "follows db db'"
  using assms by (simp add: follows_def)

lemma follows_same:
  "db_memberships db' = db_memberships db \<Longrightarrow> grp_id ` set (db_groups db') = grp_id ` set (db_groups db) \<Longrightarrow> follows db db'"
  by (rule follows_kept) (auto intro: kept_row_same)

lemma follows_refl: "follows db db"
  by (rule follows_same) simp_all

lemma follows_write:
  "(\<And>x db'. work = Inr (x, db') \<Longrightarrow> follows db db') \<Longrightarrow> follows db (snd (store_write db work))"
  by (auto simp: store_write_def follows_refl split: sum.splits)

lemma follows_update:
  assumes step: "\<And>r. P r \<Longrightarrow> mem_place (f r) = mem_place r \<and> mem_role (f r) = mem_role r \<and>
      (mem_banned_at r \<noteq> None \<longrightarrow> mem_banned_at (f r) \<noteq> None)"
    and ms: "db_memberships db' = update_where P f (db_memberships db)"
    and "grp_id ` set (db_groups db') = grp_id ` set (db_groups db)"
  shows "follows db db'"
proof (rule follows_kept)
  fix m'
  assume "m' \<in> set (db_memberships db')"
  then show "\<exists>m\<in>set (db_memberships db). kept_row db m m'"
    unfolding ms
  proof (rule update_whereE)
    fix r
    assume r: "r \<in> set (db_memberships db)" "P r" "m' = f r"
    then have "kept_row db r m'"
      using step [OF r(2)] by (auto simp: kept_row_def had_owner_def mem_place_def)
    then show ?thesis using r(1) by blast
  qed (blast intro: kept_row_same)
next
  show "mem_place ` set (db_memberships db') = mem_place ` set (db_memberships db)"
    unfolding ms using step by (intro image_update_where) blast
qed fact

lemma follows_new_row:
  assumes "db_memberships db' = db_memberships db @ [r]" "grp_id ` set (db_groups db) \<subseteq> grp_id ` set (db_groups db')"
    and "new_row db r"
  shows "follows db db'"
  using assms unfolding follows_def by (auto intro: kept_row_same)

lemma follows_handed:
  assumes owner: "ownerOnly g owner db = None"
  shows "follows db (db\<lparr>db_memberships := handed g owner target (db_memberships db)\<rparr>)"
proof (rule follows_kept)
  fix m'
  assume "m' \<in> set (db_memberships (db\<lparr>db_memberships := handed g owner target (db_memberships db)\<rparr>))"
  then have "m' \<in> set (handed g owner target (db_memberships db))" by simp
  then show "\<exists>m\<in>set (db_memberships db). kept_row db m m'"
    unfolding handed_def
  proof (rule update_whereE)
    fix r
    assume r: "r \<in> set (db_memberships db)" "is_place g owner r \<or> is_place g target r \<and> active r"
      "m' = r\<lparr>mem_role := (if is_place g owner r then RoleMember else RoleOwner)\<rparr>"
    moreover have "had_owner g db"
      using owner by (auto simp: had_owner_def ownerOnly_None is_place_def dest: find_SomeD)
    ultimately have "kept_row db r m'" by (auto simp: kept_row_def mem_place_def is_place_def)
    with r(1) show ?thesis by blast
  qed (blast intro: kept_row_same)
qed (simp_all add: handed_def image_update_where mem_place_def)

lemma follows_delete:
  assumes "owns g d db"
  shows "follows db (db\<lparr>db_groups := delete_where (\<lambda>r. grp_id r = g) (db_groups db),
     db_memberships := delete_where (\<lambda>m. mem_group_id m = g) (db_memberships db), db_sessions := ss\<rparr>)"
  using assms unfolding follows_def by (auto simp: set_delete_where intro: kept_row_same)


lemma follows_seated: "follows db (seated i g d at ip db)"
proof (cases "place g d db")
  case None
  then have "(g, d) \<notin> mem_place ` set (db_memberships db)" by (simp add: row_by_key)
  with None show ?thesis
    by (intro follows_new_row [of _ _ "\<lparr>mem_id = i, mem_group_id = g, mem_device_id = d, mem_created_at = at,
          mem_revoked_at = None, mem_banned_at = None, mem_virtual_ip = Some ip, mem_role = RoleMember\<rparr>"])
      (simp_all add: seated_def new_row_def mem_place_def)
next
  case (Some m)
  then show ?thesis
    by (intro follows_update [of "is_place g d" "\<lambda>m. m\<lparr>mem_revoked_at := None, mem_virtual_ip := Some ip\<rparr>"])
      (auto simp: seated_def mem_place_def)
qed

lemma follows_create:
  assumes inv: "store_inv db" and good: "good_draws draws"
  shows "follows db (snd (CreateGroup draws raw g d now db))"
  unfolding CreateGroup_def
proof (rule follows_write, goal_cases)
  case (1 x db')
  then obtain c db1 mm db2 where c: "freeInviteCode draws db = Inr c"
    and ins: "insert_group (g\<lparr>G_InviteCode := c\<rparr>) c d (unix now) db = Inr db1"
    and mem: "insertMembership raw (g\<lparr>G_InviteCode := c\<rparr>) d now db1 = Inr (mm, db2)"
    and db': "db' = db2\<lparr>db_memberships := update_where (\<lambda>r. mem_id r = M_ID mm)
      (\<lambda>r. r\<lparr>mem_role := RoleOwner\<rparr>) (db_memberships db2)\<rparr>"
    by (auto simp: Let_def split: sum.splits)
  from created_rows [OF inv good c ins mem] obtain r where
    "db_memberships db' = db_memberships db @ [r]" "mem_group_id r = G_ID g" "mem_banned_at r = None"
    "db_groups db' = db_groups db1" unfolding db' by auto
  moreover have "G_ID g \<notin> grp_id ` set (db_groups db)" "set (db_groups db) \<subseteq> set (db_groups db1)"
    using ins by (auto simp: insert_group_def row_by_key split: if_splits)
  moreover from this have "G_ID g \<notin> mem_group_id ` set (db_memberships db)"
    using store_invD(5) [OF inv] unfolding members_ok_def by blast
  ultimately show ?case
    by (intro follows_new_row [of _ _ r]) (auto simp: new_row_def mem_place_def)
qed

lemma follows_join: "follows db (snd (AddMembership raw g d now db))"
proof (cases "AddMembership raw g d now db")
  case (Pair res db')
  show ?thesis
  proof (cases res)
    case (Inl e)
    with Pair have "db' = db" by (auto simp: AddMembership_def store_write_def split: sum.splits)
    then show ?thesis using Pair follows_refl by simp
  next
    case (Inr mm)
    with Pair have "insertMembership raw g d now db = Inr (mm, db')" using AddMembership_Inr(1) by blast
    then show ?thesis
      using Pair follows_seated by (rule_tac insertMembership_Inr) auto
  qed
qed

lemma follows_guarded:
  "follows db (snd (RenameGroup g owner name db))" "follows db (snd (SetGroupAppearance g owner icon color db))"
  "follows db (snd (ResetInviteCode draws g owner db))"
proof -
  have relabel: "follows db (db\<lparr>db_groups := update_where P f (db_groups db)\<rparr>)"
    if "\<And>r. P r \<Longrightarrow> grp_id (f r) = grp_id r" for P f
    using that by (intro follows_same) (simp_all add: image_update_where)
  show "follows db (snd (RenameGroup g owner name db))"
    by (auto simp: RenameGroup_def relabel split: option.splits intro!: follows_write)
  show "follows db (snd (SetGroupAppearance g owner icon color db))"
    by (auto simp: SetGroupAppearance_def relabel split: option.splits intro!: follows_write)
  show "follows db (snd (ResetInviteCode draws g owner db))"
    by (auto simp: ResetInviteCode_def setInviteCode_def relabel split: option.splits sum.splits if_splits intro!: follows_write)
qed

lemma follows_leaving:
  "follows db (snd (revoke_row g d now db))" "follows db (snd (RemoveMember g owner target now db))"
proof -
  have "follows db (db\<lparr>db_memberships := update_where (\<lambda>m. is_place g d m \<and> active m)
      (\<lambda>m. m\<lparr>mem_revoked_at := Some (unix now)\<rparr>) (db_memberships db)\<rparr>)"
    by (rule follows_update) (auto simp: mem_place_def)
  then show "follows db (snd (revoke_row g d now db))"
    by (auto simp: revoke_row_def follows_refl split: option.splits)
  have "follows db (db\<lparr>db_memberships := update_where (\<lambda>m. is_place g target m \<and> active m)
      (\<lambda>m. m\<lparr>mem_revoked_at := Some (unix now), mem_banned_at := Some (unix now)\<rparr>) (db_memberships db), db_sessions := ss\<rparr>)" for ss
    by (rule follows_update) (auto simp: mem_place_def)
  then show "follows db (snd (RemoveMember g owner target now db))"
    by (auto simp: RemoveMember_def Let_def follows_refl split: option.splits if_splits intro!: follows_write)
qed

lemma follows_owner:
  "follows db (snd (TransferOwnership g owner target db))" "follows db (snd (DeleteGroup g owner db))"
proof -
  show "follows db (snd (TransferOwnership g owner target db))"
    by (auto simp: TransferOwnership_eq follows_refl follows_handed split: option.splits)
  have "owns g owner db" if "ownerOnly g owner db = None"
    using that by (auto simp: ownerOnly_None owns_def dest: find_SomeD)
  then show "follows db (snd (DeleteGroup g owner db))"
    by (auto simp: DeleteGroup_def Let_def split: option.splits if_splits intro!: follows_write follows_delete)
qed

lemma follows_elsewhere:
  "follows db (snd (RegisterDevice h tok dev now db))" "follows db (snd (DeviceByToken h token now db))"
  "follows db (snd (SetDeviceNickname d name db))" "follows db (snd (ClaimRegisterNonce n keep now db))"
  "follows db (end_sessions g d db)" "follows db (snd (CreateSession raw m now db))"
  "follows db (snd (update_session i f db))" "follows db (snd (DeleteSession i db))"
  "follows db (snd (ExpireSessions olderThan now db))"
  by (auto simp: RegisterDevice_def upsert_device_def DeviceByToken_def SetDeviceNickname_def ClaimRegisterNonce_def
      end_sessions_def CreateSession_def update_session_def DeleteSession_def ExpireSessions_def Let_def follows_refl
      split: option.splits sum.splits if_splits intro!: follows_write follows_same)

lemma follows_step: "store_inv db \<Longrightarrow> store_step db db' \<Longrightarrow> follows db db'"
  by (erule store_step.cases)
    (auto simp: SetSessionEndpoint_def TouchSession_def
      intro: follows_create follows_join follows_guarded follows_leaving follows_owner follows_elsewhere)

text \<open>A group without an owner stays without one.\<close>

lemma ownerless_step:
  assumes "store_inv db" "store_step db db'" "ownerless g db"
  shows "ownerless g db'"
proof -
  note f = follows_step [OF assms(1,2)]
  have "g \<in> grp_id ` set (db_groups db')"
    using f assms(3) ownerless_refuses [OF assms(3)] by (auto simp: follows_def ownerless_def)
  moreover have "mem_role m' \<noteq> RoleOwner" if m': "m' \<in> set (db_memberships db')" "mem_group_id m' = g" for m'
  proof -
    have "\<not> had_owner g db" "g \<in> grp_id ` set (db_groups db)" using assms(3) by (auto simp: ownerless_def had_owner_def)
    moreover from f m'(1) have "(\<exists>m\<in>set (db_memberships db). kept_row db m m') \<or> new_row db m'" by (simp add: follows_def)
    ultimately show ?thesis using m'(2) by (auto simp: kept_row_def new_row_def)
  qed
  ultimately show ?thesis by (simp add: ownerless_def)
qed

lemma ownerless_steps:
  "store_step\<^sup>*\<^sup>* db db' \<Longrightarrow> store_inv db \<Longrightarrow> ownerless g db \<Longrightarrow> ownerless g db'"
  by (induction rule: rtranclp_induct) (auto intro: ownerless_step db_runs.inv_steps)

text \<open>
An owner who hands the group to itself loses it for good. The call is accepted, and after it, whatever
the server does next, the group is still there and no device owns it, so by the guard of the management
calls nobody can rename, hand over or delete it again.
\<close>

theorem self_transfer_orphans:
  assumes "store_inv db" and "TransferOwnership g owner owner db = (Inr (), db')" and "store_step\<^sup>*\<^sup>* db' db''"
  shows "g \<in> grp_id ` set (db_groups db'') \<and> (\<forall>d. \<not> owns g d db'')"
proof -
  have owner: "ownerOnly g owner db = None"
    and db': "db' = db\<lparr>db_memberships := handed g owner owner (db_memberships db)\<rparr>"
    using assms(2) by (auto simp: TransferOwnership_eq split: option.splits if_splits)
  obtain m where m: "m \<in> set (db_memberships db)" "mem_group_id m = g"
    using owner by (auto simp: ownerOnly_None is_place_def dest: find_SomeD)
  have "mem_role x \<noteq> RoleOwner" if "x \<in> set (handed g owner owner (db_memberships db))" "mem_group_id x = g" for x
    using that handed_owner [OF assms(1) owner that(1)] by metis
  moreover have "g \<in> grp_id ` set (db_groups db)"
    using store_invD(5) [OF assms(1)] m by (auto simp: members_ok_def)
  ultimately have "ownerless g db'" by (simp add: ownerless_def db')
  moreover have "store_inv db'" using TransferOwnership_inv [OF assms(1), of g owner owner] assms(2) by simp
  ultimately have "ownerless g db''" using ownerless_steps [OF assms(3)] by blast
  then show ?thesis using ownerless_refuses by (auto simp: ownerless_def)
qed

section \<open>Removal\<close>

definition banned :: "string \<Rightarrow> string \<Rightarrow> db \<Rightarrow> bool" where
  "banned g d db \<longleftrightarrow> (\<exists>m\<in>set (db_memberships db). is_place g d m \<and> mem_banned_at m \<noteq> None)"

lemma banned_step:
  assumes inv: "store_inv db" and step: "store_step db db'" and group: "g \<in> grp_id ` set (db_groups db')" and b: "banned g d db"
  shows "banned g d db'"
proof -
  note f = follows_step [OF inv step]
  obtain m where m: "m \<in> set (db_memberships db)" "is_place g d m" "mem_banned_at m \<noteq> None"
    using b by (auto simp: banned_def)
  then have "mem_place m \<in> mem_place ` set (db_memberships db')"
    using f group by (auto simp: follows_def is_place_def)
  then obtain m' where m': "m' \<in> set (db_memberships db')" "mem_place m' = mem_place m" by auto
  have "\<not> new_row db m'" using m(1) m'(2) by (auto simp: new_row_def)
  then obtain r where "r \<in> set (db_memberships db)" "kept_row db r m'" using f m'(1) by (auto simp: follows_def)
  moreover have "r = m"
    using calculation m'(2) m(1) store_invD(5) [OF inv] unique_key [of mem_place "db_memberships db" r m]
    by (simp add: kept_row_def members_ok_def)
  ultimately show ?thesis using m m' by (auto simp: banned_def kept_row_def is_place_iff)
qed

text \<open>
C12: being removed sticks. As long as the group exists, whatever calls the server handles, a removed device
stays marked as removed, every attempt to join again is refused without a trace, and it has no membership.
\<close>

theorem removal_sticks:
  assumes inv: "store_inv db" and removed: "RemoveMember g owner target now db = (Inr (), db')"
    and run: "(\<lambda>a b. store_step a b \<and> g \<in> grp_id ` set (db_groups b))\<^sup>*\<^sup>* db' db''" and "G_ID grp = g"
  shows "banned g target db'' \<and> AddMembership raw grp target t db'' = (Inl ErrBanned, db'') \<and>
    Membership g target db'' = Inl ErrNotFound"
proof -
  have "store_inv db'" using RemoveMember_inv [OF inv, of g owner target now] removed by simp
  moreover have "banned g target db'"
  proof -
    let ?f = "\<lambda>m. m\<lparr>mem_revoked_at := Some (unix now), mem_banned_at := Some (unix now)\<rparr>"
    obtain m where m: "m \<in> set (db_memberships db)" "is_place g target m" "active m"
      and ms: "db_memberships db' = update_where (\<lambda>m. is_place g target m \<and> active m) ?f (db_memberships db)"
      using removed by (auto simp: RemoveMember_def store_write_def Let_def split: option.splits if_splits)
    have "?f m \<in> set (db_memberships db')" unfolding ms set_update_where using m by (intro image_eqI [of _ _ m]) simp_all
    then show ?thesis using m by (auto simp: banned_def intro!: bexI [of _ "?f m"])
  qed
  ultimately have "store_inv db'' \<and> banned g target db''"
    by (rule_tac rtranclp_induct [OF run]) (auto intro: store_inv_step banned_step)
  then obtain m where inv'': "store_inv db''" and b: "banned g target db''"
    and m: "place g target db'' = Some m" "mem_banned_at m \<noteq> None"
    using place_Some by (metis banned_def)
  then have "\<not> active m"
    using store_invD(5) [OF inv''] place_Some [OF inv''] by (auto simp: members_ok_def)
  with b m show ?thesis using assms(4) by (simp add: AddMembership_def store_write_def Membership_def)
qed

section \<open>Examples\<close>

theorem only_owner_manages_witness:
  "\<exists>e. RenameGroup ''grp'' ''bob'' ''mine'' toy_db = (Inl e, toy_db)"
  using only_owner_manages [of "''grp''" "''bob''" toy_db "''mine''"]
  by (simp add: owns_def is_place_def toy_db_defs)

lemma toy_transfer:
  "TransferOwnership ''grp'' ''ann'' ''bob'' toy_db =
     (Inr (), toy_db\<lparr>db_memberships := handed ''grp'' ''ann'' ''bob'' (db_memberships toy_db)\<rparr>)"
  "TransferOwnership ''grp'' ''ann'' ''ann'' toy_db =
     (Inr (), toy_db\<lparr>db_memberships := handed ''grp'' ''ann'' ''ann'' (db_memberships toy_db)\<rparr>)"
  by (simp_all add: TransferOwnership_eq ownerOnly_def is_place_def toy_db_defs)

theorem transfer_hands_over_witness:
  "owns ''grp'' ''bob'' (toy_db\<lparr>db_memberships := handed ''grp'' ''ann'' ''bob'' (db_memberships toy_db)\<rparr>)"
  using transfer_hands_over [OF toy_db_inv toy_transfer(1)] by simp

theorem self_transfer_orphans_witness:
  "\<not> owns ''grp'' ''ann'' (toy_db\<lparr>db_memberships := handed ''grp'' ''ann'' ''ann'' (db_memberships toy_db)\<rparr>)"
  using self_transfer_orphans [OF toy_db_inv toy_transfer(2) rtranclp.rtrancl_refl] by simp

theorem removal_sticks_witness:
  "AddMembership None (to_group toy_group_row) ''bob'' 9 (snd (RemoveMember ''grp'' ''ann'' ''bob'' 8 toy_db)) =
     (Inl ErrBanned, snd (RemoveMember ''grp'' ''ann'' ''bob'' 8 toy_db))"
proof -
  have ok: "RemoveMember ''grp'' ''ann'' ''bob'' 8 toy_db = (Inr (), snd (RemoveMember ''grp'' ''ann'' ''bob'' 8 toy_db))"
    by (simp add: RemoveMember_def store_write_def Let_def ownerOnly_def is_place_def toy_db_defs)
  show ?thesis
    using removal_sticks [OF toy_db_inv ok rtranclp.rtrancl_refl, of "to_group toy_group_row"]
    by (simp add: to_group_def toy_group_row_def)
qed

end
