(* ===== verification/Storage_Props.thy ===== *)
theory Storage_Props
  imports Storage_Owner
begin

text \<open>
  What the calls of the store promise their callers: the address a join hands out, what deleting a
  group takes with it, what an invite code opens, which sessions expire, and who a token belongs to.
\<close>

section \<open>Joining\<close>

lemma seated_row:
  assumes "m \<in> set (db_memberships (seated i g d at ip db))" "is_place g d m"
  shows "active m \<and> mem_virtual_ip m = Some ip"
proof (cases "place g d db")
  case None
  then have "\<forall>r\<in>set (db_memberships db). \<not> is_place g d r" by (simp add: place_def find_eq_None)
  then show ?thesis using assms None by (auto simp: seated_def)
next
  case (Some x)
  then show ?thesis using assms by (auto simp: seated_def elim!: update_whereE)
qed

text \<open>
C10: joining hands out an address that works. It is a host address of the group's subnet, no other active
member of the group holds it, it is the address the device had before unless somebody holds that one
now, it is stored on the device's active membership, and nobody else's membership changes.
\<close>

theorem join_address:
  assumes inv: "store_inv db" and group: "group_row_by_id (G_ID g) db = Some r" "grp_subnet r = G_Subnet g"
    and join: "AddMembership raw g d now db = (Inr mm, db')"
  shows "host_text (G_Subnet g) (M_VirtualIP mm) \<and> M_VirtualIP mm \<notin> others_hold (G_ID g) d db \<and>
    (previous_address (G_ID g) d db \<notin> insert [] (others_hold (G_ID g) d db) \<longrightarrow> M_VirtualIP mm = previous_address (G_ID g) d db) \<and>
    (\<exists>m. place (G_ID g) d db' = Some m \<and> active m \<and> mem_virtual_ip m = Some (M_VirtualIP mm) \<and> mem_id m = M_ID mm) \<and>
    filter (\<lambda>m. \<not> is_place (G_ID g) d m) (db_memberships db') = filter (\<lambda>m. \<not> is_place (G_ID g) d m) (db_memberships db)"
proof -
  let ?ip = "M_VirtualIP mm" and ?g = "G_ID g"
  have net: "x = r" if "x \<in> set (db_groups db)" "grp_id x = ?g" for x
    using group(1) that store_invD(4) [OF inv] unique_key [of grp_id "db_groups db" x r]
    by (auto simp: group_row_by_id_def groups_ok_def dest: find_SomeD)
  have inv': "store_inv db'"
  proof -
    have "store_inv (snd (AddMembership raw g d now db))"
      by (rule AddMembership_inv [OF inv]) (use net group(2) in blast)
    then show ?thesis using join by simp
  qed
  show ?thesis
  proof (rule insertMembership_Inr [OF AddMembership_Inr(1) [OF join]])
    fix i taken m
    assume db': "db' = seated i ?g d (unix now) ?ip db" and free: "?ip \<notin> others_hold ?g d db"
      and choice: "if previous_address ?g d db = [] \<or> previous_address ?g d db \<in> others_hold ?g d db
         then freeAddress (G_Subnet g) taken = Inr ?ip else ?ip = previous_address ?g d db"
      and m: "place ?g d db' = Some m" "M_ID mm = mem_id m"
    have seat: "m \<in> set (db_memberships db')" "is_place ?g d m" using m(1) by (auto simp: place_def dest: find_SomeD)
    then have row: "active m \<and> mem_virtual_ip m = Some ?ip"
      unfolding db' by (rule seated_row)
    have "r \<in> set (db_groups db')" "grp_id r = ?g"
      using group(1) by (auto simp: db' seated_def group_row_by_id_def dest: find_SomeD)
    then have "fits_net m (grp_net r)" using store_invD(6) [OF inv'] seat(1) by (auto simp: addresses_ok_def)
    then have "host_text (G_Subnet g) ?ip"
      using row seat(2) group(2) \<open>grp_id r = ?g\<close> by (simp add: fits_net_def grp_net_def is_place_def)
    moreover have "filter (\<lambda>m. \<not> is_place ?g d m) (db_memberships db') = filter (\<lambda>m. \<not> is_place ?g d m) (db_memberships db)"
      unfolding db' seated_def
      by (cases "place ?g d db") (auto simp: update_where_def is_place_def filter_map comp_def intro!: map_idI)
    ultimately show ?thesis using free choice m row by auto
  qed
qed

section \<open>Deleting\<close>

text \<open>
Deleting a group takes all of it and nothing else: the group, its memberships and its sessions are gone,
and every other group, membership, session, device and token is untouched.
\<close>

theorem delete_takes_everything:
  assumes inv: "store_inv db" and del: "DeleteGroup g owner db = (Inr (), db')"
  shows "group_row_by_id g db' = None \<and>
    db_groups db' = filter (\<lambda>r. grp_id r \<noteq> g) (db_groups db) \<and>
    db_memberships db' = filter (\<lambda>m. mem_group_id m \<noteq> g) (db_memberships db) \<and>
    db_sessions db' = filter (\<lambda>s. ses_group_id s \<noteq> g) (db_sessions db) \<and>
    db_devices db' = db_devices db \<and> db_tokens db' = db_tokens db"
proof -
  have gone: "ses_group_id s = g \<or> ses_membership_id s \<in> mem_id ` {m \<in> set (db_memberships db). mem_group_id m = g} \<longleftrightarrow>
      ses_group_id s = g" if s: "s \<in> set (db_sessions db)" for s
  proof -
    obtain m where m: "m \<in> set (db_memberships db)" "mem_id m = ses_membership_id s" "mem_group_id m = ses_group_id s"
      using store_invD(8) [OF inv] s unfolding sessions_ok_def by (auto dest!: subsetD)
    have "mem_group_id x = ses_group_id s" if "x \<in> set (db_memberships db)" "mem_id x = ses_membership_id s" for x
      using store_invD(5) [OF inv] unique_key [of mem_id "db_memberships db" x m] m that by (simp add: members_ok_def)
    then show ?thesis by auto
  qed
  then have "delete_where (\<lambda>s. ses_group_id s = g \<or> ses_membership_id s \<in> mem_id ` {m \<in> set (db_memberships db). mem_group_id m = g})
      (db_sessions db) = filter (\<lambda>s. ses_group_id s \<noteq> g) (db_sessions db)"
    unfolding delete_where_def by (intro filter_cong) auto
  then show ?thesis
    using del by (auto simp: DeleteGroup_def store_write_def Let_def group_row_by_id_def delete_where_def find_eq_None
        split: option.splits if_splits)
qed

section \<open>Invite codes\<close>

lemma code_lookup:
  assumes "store_inv db" "r \<in> set (db_groups db)"
  shows "GroupByInviteCode (grp_invite_code r) db = Inr (to_group r)"
proof -
  have "Normalize (grp_invite_code r) = grp_invite_code r" "grp_invite_code r \<noteq> []"
    using store_invD(4) [OF assms(1)] assms(2) Normalize_code_chars by (auto simp: groups_ok_def)
  moreover have "find (\<lambda>x. grp_invite_code x = grp_invite_code r) (db_groups db) = Some r"
    using store_invD(4) [OF assms(1)] assms(2) by (simp add: find_key groups_ok_def)
  ultimately show ?thesis by (simp add: GroupByInviteCode_def Let_def)
qed

lemma code_missing:
  "k \<notin> grp_invite_code ` set (db_groups db) \<Longrightarrow> list_all code_char k \<Longrightarrow> GroupByInviteCode k db = Inl ErrNotFound"
  by (auto simp: GroupByInviteCode_def Normalize_code_chars Let_def split: option.splits dest!: find_SomeD)

lemma set_update_one:
  assumes "distinct (map k rows)" "r \<in> set rows" "k r = x"
  shows "set (update_where (\<lambda>r. k r = x) f rows) = insert (f r) (set rows - {r})"
proof -
  have "y = r \<longleftrightarrow> k y = x" if "y \<in> set rows" for y
    using unique_key [OF assms(1) that assms(2)] assms(3) by auto
  then have "set (update_where (\<lambda>r. k r = x) f rows) = (\<lambda>y. if y = r then f y else y) ` set rows"
    by (simp only: set_update_where) (rule image_cong, simp_all)
  then show ?thesis using assms(2) by auto
qed

text \<open>
Replacing an invite code closes the old way in. The new code opens the same group and opened nothing
before, the old one opens nothing any more, and every other group's code still opens that group.
\<close>

theorem reset_replaces_code:
  assumes inv: "store_inv db" and good: "good_draws draws" and group: "group_row_by_id g db = Some r"
    and reset: "ResetInviteCode draws g owner db = (Inr c, db')"
  shows "GroupByInviteCode c db' = Inr (to_group (r\<lparr>grp_invite_code := c\<rparr>)) \<and>
    GroupByInviteCode (grp_invite_code r) db' = Inl ErrNotFound \<and> GroupByInviteCode c db = Inl ErrNotFound \<and>
    (\<forall>r'\<in>set (db_groups db) - {r}. GroupByInviteCode (grp_invite_code r') db' = Inr (to_group r'))"
proof -
  have c: "freeInviteCode draws db = Inr c"
    and db': "db_groups db' = update_where (\<lambda>r. grp_id r = g) (\<lambda>r. r\<lparr>grp_invite_code := c\<rparr>) (db_groups db)"
    using reset by (auto simp: ResetInviteCode_def setInviteCode_def store_write_def split: option.splits sum.splits if_splits)
  have inv': "store_inv db'" using ResetInviteCode_inv [OF inv good, of g owner] reset by simp
  note new = freeInviteCode_Inr [OF c good]
  have r: "r \<in> set (db_groups db)" "grp_id r = g" using group by (auto simp: group_row_by_id_def dest: find_SomeD)
  have ids: "distinct (map grp_id (db_groups db))" and codes: "distinct (map grp_invite_code (db_groups db))"
    and ok: "list_all code_char (grp_invite_code r)"
    using store_invD(4) [OF inv] r(1) by (auto simp: groups_ok_def)
  have groups: "set (db_groups db') = insert (r\<lparr>grp_invite_code := c\<rparr>) (set (db_groups db) - {r})"
    unfolding db' by (rule set_update_one [OF ids r])
  have "grp_invite_code r \<notin> grp_invite_code ` set (db_groups db')"
    using new(1) r(1) unfolding groups by (auto dest: unique_key [OF codes r(1)])
  then have "GroupByInviteCode (grp_invite_code r) db' = Inl ErrNotFound" using ok by (rule code_missing)
  moreover have "GroupByInviteCode c db = Inl ErrNotFound" using new(1,3) by (rule code_missing)
  moreover have "GroupByInviteCode c db' = Inr (to_group (r\<lparr>grp_invite_code := c\<rparr>))"
    using code_lookup [OF inv', of "r\<lparr>grp_invite_code := c\<rparr>"] groups by simp
  ultimately show ?thesis using code_lookup [OF inv'] groups by simp
qed

section \<open>Sessions\<close>

lemma stale_ids:
  assumes inv: "store_inv db"
  shows "map fst [(ses_id s, ses_group_id s, mem_device_id m). s \<leftarrow> db_sessions db, P s,
            m \<leftarrow> db_memberships db, mem_id m = ses_membership_id s] = map ses_id (filter P (db_sessions db))"
proof -
  have "map fst [(ses_id s, ses_group_id s, mem_device_id m). m \<leftarrow> db_memberships db, mem_id m = ses_membership_id s] = [ses_id s]"
    if s: "s \<in> set (db_sessions db)" for s
  proof -
    obtain m where m: "m \<in> set (db_memberships db)" "mem_id m = ses_membership_id s"
      using store_invD(8) [OF inv] s unfolding sessions_ok_def by (auto dest!: subsetD)
    have none: "concat (map (\<lambda>m. if mem_id m = ses_membership_id s then [(ses_id s, ses_group_id s, mem_device_id m)] else []) ms) = []"
      if "ses_membership_id s \<notin> mem_id ` set ms" for ms
      using that by (induction ms) auto
    have "distinct (map mem_id ms) \<Longrightarrow> m \<in> set ms \<Longrightarrow>
        map fst (concat (map (\<lambda>m. if mem_id m = ses_membership_id s then [(ses_id s, ses_group_id s, mem_device_id m)] else []) ms)) = [ses_id s]" for ms
    proof (induction ms)
      case (Cons x ms)
      show ?case
      proof (cases "x = m")
        case True
        then show ?thesis using Cons.prems(1) m(2) none [of ms] by simp
      next
        case False
        then have "mem_id x \<noteq> ses_membership_id s" using Cons.prems m(2) by (auto simp: image_iff)
        then show ?thesis using Cons False by simp
      qed
    qed simp
    then show ?thesis using store_invD(5) [OF inv] m(1) by (simp add: members_ok_def)
  qed
  then have "set ss \<subseteq> set (db_sessions db) \<Longrightarrow>
      map fst [(ses_id s, ses_group_id s, mem_device_id m). s \<leftarrow> ss, P s,
            m \<leftarrow> db_memberships db, mem_id m = ses_membership_id s] = map ses_id (filter P ss)" for ss
    by (induction ss) auto
  then show ?thesis by blast
qed

text \<open>
Expiry ends exactly the sessions nobody has heard from and reports each of them once: a session whose
last sign of life is newer than the cutoff stays, every other one is deleted and listed, in order.
\<close>

theorem expiry_reports_what_it_ends:
  assumes inv: "store_inv db" and expire: "ExpireSessions olderThan now db = (stale, db')"
  shows "db_sessions db' = filter (\<lambda>s. unix (now - olderThan) < ses_last_seen_at s) (db_sessions db) \<and>
    map fst stale = map ses_id (filter (\<lambda>s. ses_last_seen_at s \<le> unix (now - olderThan)) (db_sessions db)) \<and>
    db_memberships db' = db_memberships db"
proof -
  let ?old = "\<lambda>s. ses_last_seen_at s \<le> unix (now - olderThan)"
  have ids: "map fst stale = map ses_id (filter ?old (db_sessions db))"
  proof -
    have "fst (ExpireSessions olderThan now db) =
        [(ses_id s, ses_group_id s, mem_device_id m). s \<leftarrow> db_sessions db, ?old s,
            m \<leftarrow> db_memberships db, mem_id m = ses_membership_id s]"
      by (auto simp only: ExpireSessions_def Let_def fst_conv split: if_split)
    then show ?thesis unfolding expire fst_conv by (simp only: stale_ids [OF inv])
  qed
  have "db_sessions db' = filter (\<lambda>s. \<not> ?old s) (db_sessions db)"
  proof (cases "stale = []")
    case True
    then have "filter ?old (db_sessions db) = []" using ids by simp
    then have "\<forall>s\<in>set (db_sessions db). \<not> ?old s" by (simp add: filter_empty_conv)
    moreover have "db' = db" using expire True by (auto simp: ExpireSessions_def Let_def split: if_splits)
    ultimately show ?thesis by simp
  next
    case False
    then show ?thesis using expire by (auto simp: ExpireSessions_def Let_def delete_where_def split: if_splits)
  qed
  then show ?thesis
    using ids expire by (auto simp: ExpireSessions_def Let_def not_le split: if_splits)
qed

section \<open>Devices\<close>

lemma MembershipsByDevice_frame:
  assumes "db_memberships db' = db_memberships db" "db_groups db' = db_groups db" "db_sessions db' = db_sessions db"
  shows "MembershipsByDevice d db' = MembershipsByDevice d db"
  unfolding MembershipsByDevice_def to_membership_def MemberCount_def assms ..

lemma find_new_token:
  fixes x :: token_row
  assumes "k \<notin> tok_hash ` set ts" "tok_hash x = k" "tok_revoked_at x = None"
  shows "find (\<lambda>t. tok_hash t = k \<and> tok_revoked_at t = None) (ts @ [x]) = Some x"
  using assms by (induction ts) auto

text \<open>
Whoever registers a device id that exists already, with a key of their own, takes the device over. The
store accepts the registration of a known id under a new public key, hands out a token, and that token
then authenticates as the device, with its memberships.
\<close>

theorem registration_takes_over:
  assumes "store_inv db" and "dev_id d \<in> dev_id ` set (db_devices db)"
    and "dev_public_key d \<notin> dev_public_key ` set (db_devices db)"
    and "h token \<notin> tok_hash ` set (db_tokens db)"
  shows "\<exists>db' dev. RegisterDevice h (Some token) d now db = (Inr token, db') \<and>
    fst (DeviceByToken h token t db') = Inr dev \<and> dev_id dev = dev_id d \<and> dev_public_key dev = dev_public_key d \<and>
    MembershipsByDevice (dev_id dev) db' = MembershipsByDevice (dev_id d) db"
proof -
  let ?f = "\<lambda>r. r\<lparr>dev_public_key := dev_public_key d, dev_transport_key := dev_transport_key d,
      dev_name := dev_name d, dev_nickname := (if dev_nickname r = [] then dev_nickname d else dev_nickname r),
      dev_last_seen_at := unix now\<rparr>"
  let ?ds = "update_where (\<lambda>r. dev_id r = dev_id d) ?f (db_devices db)"
  let ?db1 = "db\<lparr>db_devices := ?ds\<rparr>"
  let ?db = "?db1\<lparr>db_tokens := db_tokens db @ [\<lparr>tok_hash = h token, tok_device_id = dev_id d, tok_created_at = unix now,
      tok_revoked_at = None\<rparr>]\<rparr>"
  have up: "upsert_device d (unix now) db = Inr ?db1"
  proof -
    have "\<not> (\<exists>r\<in>set (db_devices db). dev_id r \<noteq> dev_id d \<and> dev_public_key r = dev_public_key d)"
      using assms(3) by (metis imageI)
    then show ?thesis using assms(2) row_by_key(1) [of "dev_id d" db] by (auto simp: upsert_device_def)
  qed
  have reg: "RegisterDevice h (Some token) d now db = (Inr token, ?db)"
    using up assms(4) by (simp add: RegisterDevice_def store_write_def)
  from assms(2) obtain r where r: "r \<in> set (db_devices db)" "dev_id r = dev_id d" by auto
  have "distinct (map dev_id ?ds)"
    using store_invD(1) [OF assms(1)] by (simp add: map_update_where devices_ok_def)
  moreover have "?f r \<in> set ?ds" unfolding set_update_where using r by (intro image_eqI [of _ _ r]) simp_all
  ultimately have row: "device_row (dev_id d) ?db = Some (?f r)"
    using r(2) find_key [of dev_id ?ds "dev_id d" "?f r"] by (simp add: device_row_def)
  have tok: "find (\<lambda>t. tok_hash t = h token \<and> tok_revoked_at t = None) (db_tokens ?db) =
      Some \<lparr>tok_hash = h token, tok_device_id = dev_id d, tok_created_at = unix now, tok_revoked_at = None\<rparr>"
    using assms(4) by (simp add: find_new_token)
  have "fst (DeviceByToken h token t ?db) = Inr (?f r)"
    using tok row by (simp add: DeviceByToken_def)
  moreover have "MembershipsByDevice (dev_id (?f r)) ?db = MembershipsByDevice (dev_id d) db"
    using r(2) MembershipsByDevice_frame [of ?db db] by simp
  ultimately show ?thesis using reg r(2) by (intro exI [of _ ?db] exI [of _ "?f r"]) simp
qed

section \<open>Every state of the server\<close>

text \<open>
C4: every state a server can reach from an empty database is well formed: identifiers, keys, token hashes
and invite codes are unique, every row refers to rows that exist, no two active members of a group hold
one address and every address is a host address of the group's subnet, a group has at most one owner, a
membership has at most one session, and nobody is removed and a member at once.
\<close>

theorem store_stays_well_formed:
  assumes "store_step\<^sup>*\<^sup>* empty_db db"
  shows "store_inv db"
  using db_runs.inv_reachable [OF refl assms] .

section \<open>Examples\<close>

lemma toy_join:
  "\<exists>mm db'. AddMembership (Some [1]) (to_group toy_group_row) ''cid'' 0 toy_db = (Inr mm, db') \<and> M_VirtualIP mm = ''10.69.0.3''"
proof -
  obtain i where i: "NewID ''mem'' (Some [1]) = Some i" "take 3 i = ''mem''" by (simp add: NewID_def)
  have fresh: "''m-ann'' \<noteq> i" "''m-bob'' \<noteq> i" "''m-cid'' \<noteq> i" using i(2) by auto
  let ?db = "toy_db\<lparr>db_memberships := update_where (is_place ''grp'' ''cid'')
    (\<lambda>m. m\<lparr>mem_revoked_at := None, mem_virtual_ip := None\<rparr>) (db_memberships toy_db)\<rparr>"
  have up: "upsert_membership i ''grp'' ''cid'' 0 toy_db = Inr ?db"
    using fresh by (simp add: upsert_membership_def membership_by_id_def place_def is_place_def toy_db_defs)
  have taken: "takenAddresses ''grp'' ?db = [''10.69.0.1'', ''10.69.0.2'']"
    by (simp add: takenAddresses_def update_where_def is_place_def toy_db_defs List.map_filter_def)
  have assign: "\<exists>db'. assignAddress (to_group toy_group_row) ''cid'' ''10.69.0.2'' ?db = Inr (''10.69.0.3'', db') \<and>
      place ''grp'' ''cid'' db' \<noteq> None"
    using taken toy_free by (simp add: assignAddress_def to_group_def toy_group_row_def set_address_def)
      (simp add: toy_db_defs update_where_def is_place_def place_def)
  have prev: "place ''grp'' ''cid'' toy_db = Some (toy_row ''cid'' RoleMember (Some 7) ''10.69.0.2'')"
    by (simp add: place_def is_place_def toy_db_defs)
  have "unix 0 = 0" by (simp add: unix_def)
  then show ?thesis
    using i(1) up prev assign
    by (auto simp: AddMembership_def insertMembership_def store_write_def to_group_def toy_group_row_def toy_row_def)
qed

theorem join_address_witness:
  "\<exists>mm db'. AddMembership (Some [1]) (to_group toy_group_row) ''cid'' 0 toy_db = (Inr mm, db') \<and>
     host_text ''10.69.0.0/24'' (M_VirtualIP mm) \<and> M_VirtualIP mm \<notin> others_hold ''grp'' ''cid'' toy_db"
proof -
  obtain mm db' where join: "AddMembership (Some [1]) (to_group toy_group_row) ''cid'' 0 toy_db = (Inr mm, db')"
    using toy_join by blast
  have row: "group_row_by_id (G_ID (to_group toy_group_row)) toy_db = Some toy_group_row"
    by (simp add: group_row_by_id_def to_group_def toy_db_defs)
  show ?thesis
    using join_address [OF toy_db_inv row _ join] join by (simp add: to_group_def toy_group_row_def)
qed

theorem delete_takes_everything_witness:
  "db_sessions (snd (DeleteGroup ''grp'' ''ann'' toy_db)) = [] \<and> db_devices (snd (DeleteGroup ''grp'' ''ann'' toy_db)) = db_devices toy_db"
proof -
  have ok: "DeleteGroup ''grp'' ''ann'' toy_db = (Inr (), snd (DeleteGroup ''grp'' ''ann'' toy_db))"
    by (simp add: DeleteGroup_def store_write_def Let_def ownerOnly_def is_place_def group_row_by_id_def toy_db_defs)
  have "filter (\<lambda>s. ses_group_id s \<noteq> ''grp'') (db_sessions toy_db) = []" by (simp add: toy_db_defs)
  then show ?thesis using delete_takes_everything [OF toy_db_inv ok] by simp
qed

definition toy_draws :: "nat \<Rightarrow> bytes option" where
  "toy_draws n = Some [1, 2, 3, 4, 5]"

theorem reset_replaces_code_witness:
  "\<exists>c db'. ResetInviteCode toy_draws ''grp'' ''ann'' toy_db = (Inr c, db') \<and>
     GroupByInviteCode ''abcdefgh'' db' = Inl ErrNotFound"
proof -
  have good: "good_draws toy_draws" by (simp add: good_draws_def toy_draws_def inviteCodeBytes_def)
  have "base32 [1, 2, 3, 4, 5] \<noteq> ''abcdefgh''" by (simp add: base32_def byte_bits_def bits_value_def idAlphabet_def)
  then have "freeInviteCode toy_draws toy_db = Inr (base32 [1, 2, 3, 4, 5])"
    by (simp add: freeInviteCode_def toy_draws_def NewInviteCode_def toy_db_defs upt_rec)
  moreover have owner: "ownerOnly ''grp'' ''ann'' toy_db = None" and row: "group_row_by_id ''grp'' toy_db = Some toy_group_row"
    by (simp_all add: ownerOnly_def is_place_def group_row_by_id_def toy_db_defs)
  ultimately obtain db' where reset: "ResetInviteCode toy_draws ''grp'' ''ann'' toy_db = (Inr (base32 [1, 2, 3, 4, 5]), db')"
    by (simp add: ResetInviteCode_def setInviteCode_def store_write_def)
  show ?thesis
    using reset_replaces_code [OF toy_db_inv good row reset] reset by (auto simp: toy_group_row_def)
qed

theorem expiry_reports_what_it_ends_witness:
  "map fst (fst (ExpireSessions (90 * second) (100 * second) toy_db)) = [''s'']"
  using expiry_reports_what_it_ends [OF toy_db_inv prod.collapse [symmetric], of "90 * second" "100 * second"]
  by (simp add: toy_db_defs unix_def)

theorem registration_takes_over_witness:
  "\<exists>db' dev. RegisterDevice (\<lambda>s. s) (Some ''token'') ((toy_device ''ann'')\<lparr>dev_public_key := ''mallory''\<rparr>) 0 toy_db = (Inr ''token'', db') \<and>
     fst (DeviceByToken (\<lambda>s. s) ''token'' 0 db') = Inr dev \<and> dev_id dev = ''ann''"
  using registration_takes_over [OF toy_db_inv, of "(toy_device ''ann'')\<lparr>dev_public_key := ''mallory''\<rparr>" "\<lambda>s. s" "''token''" 0 0]
  by (auto simp: toy_db_defs)

theorem store_stays_well_formed_witness:
  "store_inv (snd (CreateGroup toy_draws (Some [1]) (to_group toy_group_row) ''ann'' 0
     (snd (RegisterDevice (\<lambda>s. s) (Some ''token'') (toy_device ''ann'') 0 empty_db))))"
proof -
  have "good_draws toy_draws" by (simp add: good_draws_def toy_draws_def inviteCodeBytes_def)
  then have "store_step\<^sup>*\<^sup>* empty_db (snd (CreateGroup toy_draws (Some [1]) (to_group toy_group_row) ''ann'' 0
      (snd (RegisterDevice (\<lambda>s. s) (Some ''token'') (toy_device ''ann'') 0 empty_db))))"
    using step_register step_create by (meson rtranclp.rtrancl_into_rtrancl rtranclp.rtrancl_refl)
  then show ?thesis by (rule store_stays_well_formed)
qed

end
