(* ===== verification/Hub.thy ===== *)
theory Hub
  imports Prelude
begin

text \<open>
  The realtime hub: package \<^verbatim>\<open>server/realtime\<close>. Subscribers are objects that the hub, the writer of a
  connection and every broadcast share, so they live in a heap and the hub's maps hold references
  into it. The channel of a subscriber is the list of payloads waiting in it. Encoding an event to
  JSON is left to the caller: a payload that could not be encoded is \<open>None\<close>.
\<close>

definition sendBuffer :: nat where "sendBuffer = 16"

record 'p subscriber =
  sub_DeviceID :: string
  sub_GroupID :: string
  sub_send :: "'p list"
  sub_closed :: bool

type_synonym sub_ref = nat

record 'p hub =
  hub_heap :: "'p subscriber list"
  hub_groups :: "(string, sub_ref list) gomap"

definition NewHub :: "'p hub" where
  "NewHub = \<lparr>hub_heap = [], hub_groups = []\<rparr>"

text \<open>\<open>h.groups[g]\<close>, which is empty for a group nobody listens to.\<close>

definition listeners :: "string \<Rightarrow> 'p hub \<Rightarrow> sub_ref list" where
  "listeners g h = (case lookup (hub_groups h) g of None \<Rightarrow> [] | Some subs \<Rightarrow> subs)"

definition Subscribe :: "string \<Rightarrow> string \<Rightarrow> 'p hub \<Rightarrow> sub_ref \<times> 'p hub" where
  "Subscribe g d h =
     (let ref = length (hub_heap h);
          sub = \<lparr>sub_DeviceID = d, sub_GroupID = g, sub_send = [], sub_closed = False\<rparr>
      in (ref, \<lparr>hub_heap = hub_heap h @ [sub], hub_groups = store g (listeners g h @ [ref]) (hub_groups h)\<rparr>))"

text \<open>\<open>Unsubscribe\<close> is two critical sections: out of the map, then closed.\<close>

definition forget :: "sub_ref \<Rightarrow> 'p hub \<Rightarrow> 'p hub" where
  "forget ref h =
     (let g = sub_GroupID (hub_heap h ! ref)
      in case lookup (hub_groups h) g of
           None \<Rightarrow> h
         | Some subs \<Rightarrow>
             let subs = filter (\<lambda>r. r \<noteq> ref) subs
             in h\<lparr>hub_groups := (if subs = [] then remove g (hub_groups h) else store g subs (hub_groups h))\<rparr>)"

definition close_sub :: "sub_ref \<Rightarrow> 'p hub \<Rightarrow> 'p hub" where
  "close_sub ref h =
     (if sub_closed (hub_heap h ! ref) then h
      else h\<lparr>hub_heap := (hub_heap h)[ref := (hub_heap h ! ref)\<lparr>sub_closed := True\<rparr>]\<rparr>)"

definition Unsubscribe :: "sub_ref \<Rightarrow> 'p hub \<Rightarrow> 'p hub" where
  "Unsubscribe ref h = close_sub ref (forget ref h)"

definition deliver :: "'p \<Rightarrow> sub_ref \<Rightarrow> 'p hub \<Rightarrow> bool \<times> 'p hub" where
  "deliver payload ref h =
     (let sub = hub_heap h ! ref
      in if sub_closed sub then (False, h)
         else if length (sub_send sub) < sendBuffer
         then (True, h\<lparr>hub_heap := (hub_heap h)[ref := sub\<lparr>sub_send := sub_send sub @ [payload]\<rparr>]\<rparr>)
         else (False, h))"

text \<open>
  What the writer of a connection takes from \<open>Events\<close>: the oldest payload; nothing, and the
  connection ends, once the channel is closed and empty. It waits while the channel is open and empty.
\<close>

datatype 'p received = Waiting | Ended | Received 'p

definition receive :: "sub_ref \<Rightarrow> 'p hub \<Rightarrow> 'p received \<times> 'p hub" where
  "receive ref h =
     (let sub = hub_heap h ! ref
      in case sub_send sub of
           p # rest \<Rightarrow> (Received p, h\<lparr>hub_heap := (hub_heap h)[ref := sub\<lparr>sub_send := rest\<rparr>]\<rparr>)
         | [] \<Rightarrow> (if sub_closed sub then Ended else Waiting, h))"

definition offer :: "'p \<Rightarrow> sub_ref \<Rightarrow> 'p hub \<Rightarrow> 'p hub" where
  "offer payload ref h =
     (case deliver payload ref h of (True, h) \<Rightarrow> h | (False, h) \<Rightarrow> Unsubscribe ref h)"

definition Broadcast :: "string \<Rightarrow> string \<Rightarrow> 'p option \<Rightarrow> 'p hub \<Rightarrow> 'p hub" where
  "Broadcast g except encoded h =
     (case encoded of
        None \<Rightarrow> h
      | Some payload \<Rightarrow>
          fold (offer payload) (filter (\<lambda>r. sub_DeviceID (hub_heap h ! r) \<noteq> except) (listeners g h)) h)"

definition SendTo :: "string \<Rightarrow> string \<Rightarrow> 'p option \<Rightarrow> 'p hub \<Rightarrow> 'p hub" where
  "SendTo g d encoded h =
     (case encoded of
        None \<Rightarrow> h
      | Some payload \<Rightarrow>
          fold (\<lambda>r h. snd (deliver payload r h))
            (filter (\<lambda>r. sub_DeviceID (hub_heap h ! r) = d) (listeners g h)) h)"

section \<open>The invariant, under every interleaving\<close>

definition subs_ok :: "'p hub \<Rightarrow> string \<Rightarrow> sub_ref list \<Rightarrow> bool" where
  "subs_ok h g subs \<longleftrightarrow> subs \<noteq> [] \<and> distinct subs \<and>
     (\<forall>r\<in>set subs. r < length (hub_heap h) \<and> sub_GroupID (hub_heap h ! r) = g)"

definition hub_inv :: "'p hub \<Rightarrow> bool" where
  "hub_inv h \<longleftrightarrow> distinct (map fst (hub_groups h)) \<and> (\<forall>(g, subs)\<in>set (hub_groups h). subs_ok h g subs) \<and>
     (\<forall>s\<in>set (hub_heap h). length (sub_send s) \<le> sendBuffer)"

text \<open>
  One critical section of any goroutine. Broadcasts run between each other's deliveries, so
  the steps are the deliveries, not the broadcasts.
\<close>

inductive hub_step :: "'p hub \<Rightarrow> 'p hub \<Rightarrow> bool" where
  hub_subscribe: "hub_step h (snd (Subscribe g d h))"
| hub_forget: "r < length (hub_heap h) \<Longrightarrow> hub_step h (forget r h)"
| hub_close: "r < length (hub_heap h) \<Longrightarrow> hub_step h (close_sub r h)"
| hub_deliver: "r < length (hub_heap h) \<Longrightarrow> hub_step h (snd (deliver p r h))"
| hub_receive: "r < length (hub_heap h) \<Longrightarrow> hub_step h (snd (receive r h))"

lemma hub_inv_heap:
  assumes inv: "hub_inv h" and r: "r < length (hub_heap h)"
    and s: "sub_GroupID s = sub_GroupID (hub_heap h ! r)" "length (sub_send s) \<le> sendBuffer"
  shows "hub_inv (h\<lparr>hub_heap := (hub_heap h)[r := s]\<rparr>)"
proof -
  have "sub_GroupID ((hub_heap h)[r := s] ! i) = sub_GroupID (hub_heap h ! i)" for i
    using r s(1) by (cases "i = r") auto
  moreover have "\<forall>x\<in>set ((hub_heap h)[r := s]). length (sub_send x) \<le> sendBuffer"
    using inv s(2) set_update_subset_insert [of "hub_heap h" r s] by (auto simp: hub_inv_def)
  ultimately show ?thesis using inv by (simp add: hub_inv_def subs_ok_def)
qed

lemma hub_inv_store:
  assumes "hub_inv h" "subs_ok h g subs"
  shows "hub_inv (h\<lparr>hub_groups := store g subs (hub_groups h)\<rparr>)"
  using assms set_store_subset [of g subs "hub_groups h"] unfolding hub_inv_def
  by (auto simp: subs_ok_def dest!: subsetD)

lemma hub_inv_remove: "hub_inv h \<Longrightarrow> hub_inv (h\<lparr>hub_groups := remove g (hub_groups h)\<rparr>)"
  using set_remove_subset [of g "hub_groups h"] unfolding hub_inv_def
  by (auto simp: subs_ok_def dest!: subsetD)

lemma lookup_inv: "hub_inv h \<Longrightarrow> lookup (hub_groups h) g = Some subs \<Longrightarrow> subs_ok h g subs"
  by (auto simp: hub_inv_def dest!: map_of_SomeD)

lemma listeners_inv:
  assumes "hub_inv h"
  shows "distinct (listeners g h)"
    and "r \<in> set (listeners g h) \<Longrightarrow> r < length (hub_heap h) \<and> sub_GroupID (hub_heap h ! r) = g"
proof -
  show "distinct (listeners g h)"
    using lookup_inv [OF assms, of g] by (simp add: listeners_def subs_ok_def split: option.split)
  show "r < length (hub_heap h) \<and> sub_GroupID (hub_heap h ! r) = g" if "r \<in> set (listeners g h)"
    using that lookup_inv [OF assms, of g]
    by (cases "lookup (hub_groups h) g") (simp_all add: listeners_def subs_ok_def)
qed

lemma forget_inv: "hub_inv h \<Longrightarrow> hub_inv (forget r h)"
  using lookup_inv [of h "sub_GroupID (hub_heap h ! r)"]
  by (auto simp: forget_def Let_def subs_ok_def split: option.splits intro!: hub_inv_remove hub_inv_store)

lemma subscribe_inv:
  assumes inv: "hub_inv h"
  shows "hub_inv (snd (Subscribe g d h))"
proof -
  let ?sub = "\<lparr>sub_DeviceID = d, sub_GroupID = g, sub_send = [], sub_closed = False\<rparr>"
  let ?h = "h\<lparr>hub_heap := hub_heap h @ [?sub]\<rparr>"
  have "subs_ok ?h k subs" if "subs_ok h k subs" for k subs
    using that by (auto simp: subs_ok_def nth_append)
  with inv have "hub_inv ?h" by (auto simp: hub_inv_def)
  moreover have "subs_ok ?h g (listeners g h @ [length (hub_heap h)])"
    using listeners_inv [OF inv, where g = g] by (auto simp: subs_ok_def nth_append less_Suc_eq)
  ultimately have "hub_inv (?h\<lparr>hub_groups := store g (listeners g h @ [length (hub_heap h)]) (hub_groups ?h)\<rparr>)"
    by (rule hub_inv_store)
  then show ?thesis by (cases h) (simp add: Subscribe_def Let_def)
qed

lemma queue_bound: "hub_inv h \<Longrightarrow> r < length (hub_heap h) \<Longrightarrow> length (sub_send (hub_heap h ! r)) \<le> sendBuffer"
  by (simp add: hub_inv_def)

lemma deliver_inv: "hub_inv h \<Longrightarrow> r < length (hub_heap h) \<Longrightarrow> hub_inv (snd (deliver p r h))"
  by (auto simp: deliver_def Let_def intro!: hub_inv_heap)

lemma close_inv: "hub_inv h \<Longrightarrow> r < length (hub_heap h) \<Longrightarrow> hub_inv (close_sub r h)"
  by (auto simp: close_sub_def intro!: hub_inv_heap queue_bound)

lemma receive_inv: "hub_inv h \<Longrightarrow> r < length (hub_heap h) \<Longrightarrow> hub_inv (snd (receive r h))"
  using queue_bound [of h r] by (auto simp: receive_def Let_def split: list.splits intro!: hub_inv_heap)

lemma hub_inv_step: "hub_inv h \<Longrightarrow> hub_step h h' \<Longrightarrow> hub_inv h'"
  by (erule hub_step.cases) (auto intro: subscribe_inv forget_inv close_inv deliver_inv receive_inv)

interpretation hub_runs: invariant_system "\<lambda>h. h = NewHub" hub_step hub_inv
proof unfold_locales
  show "hub_inv h" if "h = NewHub" for h :: "'a hub" using that by (simp add: hub_inv_def NewHub_def)
qed (rule hub_inv_step)


section \<open>What a broadcast does\<close>

definition has_room :: "'p subscriber \<Rightarrow> bool" where
  "has_room s \<longleftrightarrow> \<not> sub_closed s \<and> length (sub_send s) < sendBuffer"

definition offered :: "'p \<Rightarrow> 'p subscriber \<Rightarrow> 'p subscriber" where
  "offered p s = (if has_room s then s\<lparr>sub_send := sub_send s @ [p]\<rparr> else s\<lparr>sub_closed := True\<rparr>)"

lemma lookup_filtered:
  "lookup (if subs = [] then remove g m else store g subs m) k =
     (if k = g then (if subs = [] then None else Some subs) else lookup m k)"
  by simp

lemma listeners_forget:
  "listeners k (forget r h) =
     (if k = sub_GroupID (hub_heap h ! r) then filter (\<lambda>x. x \<noteq> r) (listeners k h) else listeners k h)"
  by (cases "lookup (hub_groups h) (sub_GroupID (hub_heap h ! r))")
    (auto simp: listeners_def forget_def Let_def filter_empty_conv)

lemma offer_heap:
  assumes "r < length (hub_heap h)"
  shows "hub_heap (offer p r h) = (hub_heap h)[r := offered p (hub_heap h ! r)]"
proof -
  have same: "hub_heap (forget r h) = hub_heap h" by (simp add: forget_def Let_def split: option.split)
  have keep: "(hub_heap h)[r := (hub_heap h ! r)\<lparr>sub_closed := True\<rparr>] = hub_heap h" if "sub_closed (hub_heap h ! r)"
  proof -
    have "(hub_heap h ! r)\<lparr>sub_closed := True\<rparr> = hub_heap h ! r" using that by (cases "hub_heap h ! r") simp
    then show ?thesis by (simp only: list_update_id)
  qed
  then show ?thesis
    by (auto simp: offer_def deliver_def Unsubscribe_def close_sub_def offered_def has_room_def Let_def same)
qed

lemma offer_listeners:
  "listeners k (offer p r h) =
     (if has_room (hub_heap h ! r) \<or> k \<noteq> sub_GroupID (hub_heap h ! r) then listeners k h
      else filter (\<lambda>x. x \<noteq> r) (listeners k h))"
proof -
  have "listeners k (close_sub r k') = listeners k k'" for k' :: "'a hub" by (simp add: close_sub_def listeners_def)
  moreover have "listeners k (h\<lparr>hub_heap := x\<rparr>) = listeners k h" for x by (simp add: listeners_def)
  ultimately show ?thesis
    by (auto simp: offer_def deliver_def Unsubscribe_def has_room_def Let_def listeners_forget)
qed

lemma offers:
  assumes "distinct ts" "\<forall>r\<in>set ts. r < length (hub_heap h) \<and> sub_GroupID (hub_heap h ! r) = g"
  shows "length (hub_heap (fold (offer p) ts h)) = length (hub_heap h) \<and>
    (\<forall>i<length (hub_heap h). hub_heap (fold (offer p) ts h) ! i =
       (if i \<in> set ts then offered p (hub_heap h ! i) else hub_heap h ! i)) \<and>
    (\<forall>k. listeners k (fold (offer p) ts h) =
       (if k = g then filter (\<lambda>i. i \<in> set ts \<longrightarrow> has_room (hub_heap h ! i)) (listeners g h) else listeners k h))"
  using assms
proof (induction ts arbitrary: h)
  case (Cons r ts)
  let ?h = "offer p r h"
  have r: "r < length (hub_heap h)" "sub_GroupID (hub_heap h ! r) = g" using Cons.prems by auto
  note heap = offer_heap [OF r(1), of p]
  have nth: "hub_heap ?h ! i = (if i = r then offered p (hub_heap h ! r) else hub_heap h ! i)" for i
    using r(1) by (simp add: heap nth_list_update)
  have "\<forall>x\<in>set ts. x < length (hub_heap ?h) \<and> sub_GroupID (hub_heap ?h ! x) = g"
    using Cons.prems by (auto simp: heap nth_list_update)
  then have IH: "length (hub_heap (fold (offer p) ts ?h)) = length (hub_heap ?h)"
    "\<And>i. i < length (hub_heap ?h) \<Longrightarrow> hub_heap (fold (offer p) ts ?h) ! i =
       (if i \<in> set ts then offered p (hub_heap ?h ! i) else hub_heap ?h ! i)"
    "\<And>k. listeners k (fold (offer p) ts ?h) =
       (if k = g then filter (\<lambda>i. i \<in> set ts \<longrightarrow> has_room (hub_heap ?h ! i)) (listeners g ?h) else listeners k ?h)"
    using Cons.IH [of ?h] Cons.prems(1) by auto
  have "filter (\<lambda>i. i \<in> set ts \<longrightarrow> has_room (hub_heap ?h ! i)) (listeners g ?h) =
      filter (\<lambda>i. i \<in> set (r # ts) \<longrightarrow> has_room (hub_heap h ! i)) (listeners g h)"
    using Cons.prems(1) r(2) by (auto simp: offer_listeners nth intro!: filter_cong)
  moreover have len: "length (hub_heap ?h) = length (hub_heap h)" by (simp add: heap)
  moreover have "hub_heap (fold (offer p) (r # ts) h) ! i =
      (if i \<in> set (r # ts) then offered p (hub_heap h ! i) else hub_heap h ! i)" if "i < length (hub_heap h)" for i
    using IH(2) [of i] that Cons.prems(1) len by (auto simp: nth)
  moreover have "listeners k ?h = listeners k h" if "k \<noteq> g" for k using that r(2) by (simp add: offer_listeners)
  ultimately show ?case using IH(1,3) by simp
qed simp

text \<open>
A broadcast reaches everybody who listens and can keep up, and nobody else. Every subscriber of the
group except those of the device that caused it gets the event at the end of its queue if it has room;
one that is full or closed is closed and no longer listed; no other subscriber, and no other group's
list, changes.
\<close>

theorem broadcast_reaches_group:
  assumes "hub_inv h"
  shows "(\<forall>i<length (hub_heap h).
      hub_heap (Broadcast g except (Some p) h) ! i =
        (if i \<in> set (listeners g h) \<and> sub_DeviceID (hub_heap h ! i) \<noteq> except
         then (if has_room (hub_heap h ! i) then (hub_heap h ! i)\<lparr>sub_send := sub_send (hub_heap h ! i) @ [p]\<rparr>
               else (hub_heap h ! i)\<lparr>sub_closed := True\<rparr>)
         else hub_heap h ! i)) \<and>
    (\<forall>k. listeners k (Broadcast g except (Some p) h) =
      (if k = g then filter (\<lambda>i. sub_DeviceID (hub_heap h ! i) = except \<or> has_room (hub_heap h ! i)) (listeners g h)
       else listeners k h))"
proof -
  let ?ts = "filter (\<lambda>r. sub_DeviceID (hub_heap h ! r) \<noteq> except) (listeners g h)"
  have "distinct ?ts" "\<forall>r\<in>set ?ts. r < length (hub_heap h) \<and> sub_GroupID (hub_heap h ! r) = g"
    using listeners_inv [OF assms, where g = g] by auto
  note all = offers [OF this, of p]
  have "filter (\<lambda>i. i \<in> set ?ts \<longrightarrow> has_room (hub_heap h ! i)) (listeners g h) =
      filter (\<lambda>i. sub_DeviceID (hub_heap h ! i) = except \<or> has_room (hub_heap h ! i)) (listeners g h)"
    by (rule filter_cong) auto
  with all show ?thesis by (simp add: Broadcast_def offered_def)
qed

text \<open>
C36: no queue ever grows beyond its buffer, and the hub's lists are always right: in every state that any
interleaving of subscribing, unsubscribing, delivering and reading can reach, a group is listed only
while somebody listens to it, its list names subscribers of that group, each once, and at most sixteen
payloads wait for each of them.
\<close>

theorem hub_stays_well_formed:
  assumes "hub_step\<^sup>*\<^sup>* NewHub h"
  shows "hub_inv h"
  using hub_runs.inv_reachable [OF refl assms] .

section \<open>Examples\<close>

definition toy_hub :: "string hub" where
  "toy_hub = snd (Subscribe ''g'' ''bob'' (snd (Subscribe ''g'' ''ann'' NewHub)))"

lemma toy_hub_reachable: "hub_step\<^sup>*\<^sup>* NewHub toy_hub"
  unfolding toy_hub_def using hub_subscribe by (meson rtranclp.rtrancl_into_rtrancl rtranclp.rtrancl_refl)

theorem hub_stays_well_formed_witness: "hub_inv toy_hub"
  by (rule hub_stays_well_formed [OF toy_hub_reachable])

theorem broadcast_reaches_group_witness:
  "sub_send (hub_heap (Broadcast ''g'' ''ann'' (Some ''hello'') toy_hub) ! 1) = [''hello'']"
proof -
  have "hub_inv toy_hub"
    unfolding toy_hub_def by (intro subscribe_inv) (simp add: hub_inv_def NewHub_def)
  from broadcast_reaches_group [OF this, of "''g''" "''ann''" "''hello''"] show ?thesis
    by (simp add: toy_hub_def Subscribe_def NewHub_def listeners_def has_room_def sendBuffer_def)
qed

end
