(* ===== verification/Auth.thy ===== *)
theory Auth
  imports Go_Text
begin

text \<open>
  How a device proves who it is: package \<^verbatim>\<open>protocol/auth\<close>. Ed25519 and base 64 are the
  record \<open>crypto\<close>, an argument of the definitions that call them.
\<close>

record crypto =
  cr_b64_decode :: "string \<Rightarrow> bytes option"
  cr_b64_encode :: "bytes \<Rightarrow> string"
  cr_sign :: "bytes \<Rightarrow> string \<Rightarrow> bytes"
  cr_verify :: "bytes \<Rightarrow> string \<Rightarrow> bytes \<Rightarrow> bool"

definition TokenScheme :: string where "TokenScheme = ''Bearer''"
definition registerContext :: string where "registerContext = ''192168-device-register-v1''"
definition RegisterMaxSkew :: duration where "RegisterMaxSkew = 5 * minute"

datatype auth_error = ErrMalformedKey | ErrKeyLength nat | ErrMalformedSignature | ErrBadSignature

definition EncodePublicKey :: "crypto \<Rightarrow> bytes \<Rightarrow> string" where
  "EncodePublicKey C pub = cr_b64_encode C pub"

definition DecodePublicKey :: "crypto \<Rightarrow> string \<Rightarrow> auth_error + bytes" where
  "DecodePublicKey C encoded =
     (case cr_b64_decode C encoded of
        None \<Rightarrow> Inl ErrMalformedKey
      | Some raw \<Rightarrow> if length raw \<noteq> 32 then Inl (ErrKeyLength (length raw)) else Inr raw)"

definition newline :: char where "newline = CHR 0x0A"

definition RegisterSigningInput ::
  "string \<Rightarrow> string \<Rightarrow> string \<Rightarrow> instant \<Rightarrow> string \<Rightarrow> string" where
  "RegisterSigningInput deviceID publicKey transportKey issuedAt nonce =
     registerContext @ [newline] @ deviceID @ [newline] @ publicKey @ [newline] @ transportKey @
     [newline] @ FormatInt (unix issuedAt) @ [newline] @ nonce"

definition SignRegister ::
  "crypto \<Rightarrow> bytes \<Rightarrow> string \<Rightarrow> string \<Rightarrow> string \<Rightarrow> instant \<Rightarrow> string \<Rightarrow> string" where
  "SignRegister C priv deviceID publicKey transportKey issuedAt nonce =
     cr_b64_encode C (cr_sign C priv
       (RegisterSigningInput deviceID publicKey transportKey issuedAt nonce))"

definition VerifyRegister ::
  "crypto \<Rightarrow> string \<Rightarrow> string \<Rightarrow> string \<Rightarrow> string \<Rightarrow> instant \<Rightarrow> string \<Rightarrow> auth_error option" where
  "VerifyRegister C publicKey deviceID transportKey signature issuedAt nonce =
     (case DecodePublicKey C publicKey of
        Inl e \<Rightarrow> Some e
      | Inr pub \<Rightarrow>
          (case cr_b64_decode C signature of
             None \<Rightarrow> Some ErrMalformedSignature
           | Some sg \<Rightarrow>
               if \<not> cr_verify C pub
                      (RegisterSigningInput deviceID publicKey transportKey issuedAt nonce) sg
               then Some ErrBadSignature else None))"

section \<open>What the code relies on\<close>

text \<open>Base 64 decodes what it encoded, and a key pair verifies what it signed.\<close>

definition crypto_correct :: "crypto \<Rightarrow> bytes \<Rightarrow> bytes \<Rightarrow> bool" where
  "crypto_correct C priv pub \<longleftrightarrow>
     (\<forall>bs. cr_b64_decode C (cr_b64_encode C bs) = Some bs) \<and>
     (\<forall>msg. cr_verify C pub msg (cr_sign C priv msg))"

lemma VerifyRegister_None:
  "VerifyRegister C pk d tk sg at nonce = None \<longleftrightarrow>
     (\<exists>pub raw. cr_b64_decode C pk = Some pub \<and> length pub = 32 \<and> cr_b64_decode C sg = Some raw \<and>
        cr_verify C pub (RegisterSigningInput d pk tk at nonce) raw)"
  by (auto simp: VerifyRegister_def DecodePublicKey_def split: sum.splits option.splits if_splits)

section \<open>The signed fields\<close>

lemma newline_split:
  "newline \<notin> set a \<Longrightarrow> newline \<notin> set b \<Longrightarrow> a @ newline # x = b @ newline # y \<longleftrightarrow> a = b \<and> x = y"
proof (induction a arbitrary: b)
  case Nil
  then show ?case by (cases b) auto
next
  case (Cons c a)
  then show ?case by (cases b) auto
qed

lemma newline_FormatInt: "newline \<notin> set (FormatInt i)"
  using dec_digits [of newline] by (auto simp: FormatInt_def newline_def is_digit_def)


definition toy_crypto :: crypto where
  "toy_crypto = \<lparr>cr_b64_decode = (\<lambda>s. Some (map (\<lambda>c. of_nat (code c)) s)),
     cr_b64_encode = (\<lambda>bs. map (\<lambda>b. char_of (unat b)) bs),
     cr_sign = (\<lambda>priv msg. priv), cr_verify = (\<lambda>pub msg sg. sg = pub)\<rparr>"


end
