(* ===== verification/Api.thy ===== *)
theory Api
  imports Storage_Props Hub Auth
begin

text \<open>
  The HTTP handlers of the coordination server: package \<^verbatim>\<open>server/api\<close>, with the payloads of
  \<^verbatim>\<open>protocol/api\<close>. A request arrives decoded: its body is an argument, \<open>None\<close> when \<open>decode\<close> refuses it,
  and so are the path values, the key \<open>clientIP\<close> computes, the time and the random bytes. A reply is a
  status and a body. Log lines are left out, and so is the text of a payload on the wire, which
  \<^verbatim>\<open>encoding/json\<close> writes; an event is the payload itself.
\<close>

section \<open>Payloads\<close>

record api_endpoint =
  ep_Protocol :: string
  ep_Address :: string
  ep_Port :: int

record api_peer =
  ap_DeviceID :: string
  ap_Nickname :: string
  ap_VirtualIP :: string
  ap_TransportKey :: string
  ap_Endpoint :: "api_endpoint option"

datatype event =
    EventPeerOnline api_peer
  | EventPeerOffline string
  | EventPeerEndpointUpdated string api_endpoint
  | EventPeerRenamed string string
  | EventMembershipRevoked string
  | EventGroupUpdated string string string string
  | EventGroupDeleted string

record api_membership =
  am_MembershipID :: string
  am_GroupID :: string
  am_GroupName :: string
  am_GroupIcon :: string
  am_GroupColor :: string
  am_Subnet :: string
  am_VirtualIP :: string
  am_Role :: role
  am_InviteCode :: string
  am_OnlineMembers :: "nat option"
  am_Members :: "nat option"

record api_invite =
  ai_Code :: string
  ai_GroupName :: string
  ai_GroupIcon :: string
  ai_GroupColor :: string
  ai_Members :: nat

record register_request =
  rr_DeviceID :: string
  rr_PublicKey :: string
  rr_TransportKey :: string
  rr_DeviceName :: string
  rr_IssuedAt :: int
  rr_Nonce :: string
  rr_Signature :: string

datatype api_code =
    BadRequest | Unauthorized | GroupNotFound | InviteInvalid | MembershipRevoked | SessionInvalid
  | GroupFull | RateLimited | VersionUnsupported | Forbidden | Banned | Internal

datatype body =
    NoBody
  | ErrorBody api_code string
  | MembershipBody api_membership
  | MembershipsBody "api_membership list"
  | MembersBody "member list"
  | InviteBody api_invite
  | CodeBody string
  | SessionBody string string "api_peer list"
  | TokenBody string
  | MeBody string string

record reply =
  rp_status :: nat
  rp_body :: body

definition writeJSON :: "nat \<Rightarrow> body \<Rightarrow> reply" where
  "writeJSON status b = \<lparr>rp_status = status, rp_body = b\<rparr>"

definition writeError :: "nat \<Rightarrow> api_code \<Rightarrow> string \<Rightarrow> reply" where
  "writeError status c message = writeJSON status (ErrorBody c message)"

definition NoContent :: reply where
  "NoContent = writeJSON 204 NoBody"

definition unreadable :: reply where
  "unreadable = writeError 400 BadRequest ''The request could not be read.''"

definition fail_reply :: "store_error \<Rightarrow> api_code \<Rightarrow> string \<Rightarrow> reply" where
  "fail_reply e notFoundCode notFoundMessage =
     (case e of
        ErrNotFound \<Rightarrow> writeError 404 notFoundCode notFoundMessage
      | ErrGroupFull \<Rightarrow> writeError 409 GroupFull ''That group has no free addresses left.''
      | ErrForbidden \<Rightarrow> writeError 403 Forbidden ''Only the group's owner can do that.''
      | _ \<Rightarrow> writeError 500 Internal ''Something went wrong on the server.'')"

section \<open>Rate limits\<close>

record rate_limiter =
  rl_limit :: nat
  rl_window :: duration
  rl_attempts :: "(string, instant list) gomap"

definition newRateLimiter :: "nat \<Rightarrow> duration \<Rightarrow> rate_limiter" where
  "newRateLimiter limit window = \<lparr>rl_limit = limit, rl_window = window, rl_attempts = []\<rparr>"

definition attempts_of :: "string \<Rightarrow> rate_limiter \<Rightarrow> instant list" where
  "attempts_of key l = (case lookup (rl_attempts l) key of None \<Rightarrow> [] | Some ts \<Rightarrow> ts)"

definition allow :: "string \<Rightarrow> instant \<Rightarrow> rate_limiter \<Rightarrow> bool \<times> rate_limiter" where
  "allow key now l =
     (let cutoff = now - rl_window l;
          kept = filter (\<lambda>at. cutoff < at) (attempts_of key l)
      in if rl_limit l \<le> length kept then (False, l\<lparr>rl_attempts := store key kept (rl_attempts l)\<rparr>)
         else (True, l\<lparr>rl_attempts := store key (kept @ [now]) (rl_attempts l)\<rparr>))"

section \<open>The server\<close>

record server =
  sv_db :: db
  sv_hub :: "event hub"
  sv_joins :: rate_limiter
  sv_devices :: rate_limiter

definition DefaultSubnet :: string where "DefaultSubnet = ''10.69.0.0/24''"
definition SessionTimeout :: duration where "SessionTimeout = 90 * second"
definition maxNameLength :: nat where "maxNameLength = 64"

definition NewServer :: "db \<Rightarrow> server" where
  "NewServer db = \<lparr>sv_db = db, sv_hub = NewHub, sv_joins = newRateLimiter 10 minute, sv_devices = newRateLimiter 20 minute\<rparr>"

definition broadcast :: "string \<Rightarrow> string \<Rightarrow> event \<Rightarrow> server \<Rightarrow> server" where
  "broadcast g except e sv = sv\<lparr>sv_hub := Broadcast g except (Some e) (sv_hub sv)\<rparr>"

definition send_to :: "string \<Rightarrow> string \<Rightarrow> event \<Rightarrow> server \<Rightarrow> server" where
  "send_to g d e sv = sv\<lparr>sv_hub := SendTo g d (Some e) (sv_hub sv)\<rparr>"

definition bearerToken :: "string \<Rightarrow> string option" where
  "bearerToken header =
     (case Cut header CHR '' '' of
        (scheme, token, found) \<Rightarrow>
          if \<not> found \<or> \<not> equal_fold scheme TokenScheme \<or> token = [] then None else Some token)"

text \<open>The bearer token is resolved to a device before the handler runs.\<close>

definition authenticated ::
  "(string \<Rightarrow> string) \<Rightarrow> string \<Rightarrow> instant \<Rightarrow> (device \<Rightarrow> server \<Rightarrow> reply \<times> server) \<Rightarrow> server \<Rightarrow> reply \<times> server" where
  "authenticated hashToken header now h sv =
     (case bearerToken header of
        None \<Rightarrow> (writeError 401 Unauthorized ''This device is not signed in.'', sv)
      | Some token \<Rightarrow>
          (case DeviceByToken hashToken token now (sv_db sv) of
             (Inl _, db) \<Rightarrow> (writeError 401 Unauthorized ''This device is not signed in.'', sv\<lparr>sv_db := db\<rparr>)
           | (Inr device, db) \<Rightarrow> h device (sv\<lparr>sv_db := db\<rparr>)))"

section \<open>Groups\<close>

definition isAppearanceKey :: "string \<Rightarrow> bool" where
  "isAppearanceKey key \<longleftrightarrow>
     length key \<le> 32 \<and> list_all (\<lambda>c. is_lower c \<or> is_digit c \<or> c = CHR ''-'') key"

definition toMembership :: "membership \<Rightarrow> api_membership" where
  "toMembership m =
     \<lparr>am_MembershipID = M_ID m, am_GroupID = M_GroupID m, am_GroupName = M_GroupName m,
      am_GroupIcon = M_GroupIcon m, am_GroupColor = M_GroupColor m, am_Subnet = M_Subnet m,
      am_VirtualIP = M_VirtualIP m, am_Role = M_Role m,
      am_InviteCode = (if M_Role m = RoleOwner then M_InviteCode m else []),
      am_OnlineMembers = M_OnlineMembers m, am_Members = M_Members m\<rparr>"

definition handleCreateGroup ::
  "(string \<times> string \<times> string) option \<Rightarrow> bytes option \<Rightarrow> (nat \<Rightarrow> bytes option) \<Rightarrow> bytes option \<Rightarrow> instant \<Rightarrow>
     device \<Rightarrow> server \<Rightarrow> reply \<times> server" where
  "handleCreateGroup req idRaw draws memRaw now device sv =
     (case req of
        None \<Rightarrow> (unreadable, sv)
      | Some (reqName, icon, color) \<Rightarrow>
          let name = TrimSpace reqName
          in if name = [] \<or> maxNameLength < length name
             then (writeError 400 BadRequest ''A group needs a name.'', sv)
             else if \<not> isAppearanceKey icon \<or> \<not> isAppearanceKey color
             then (writeError 400 BadRequest ''That icon or colour will not work.'', sv)
             else
               case NewID ''grp'' idRaw of
                 None \<Rightarrow> (fail_reply ErrRandom Internal [], sv)
               | Some i \<Rightarrow>
                   (case CreateGroup draws memRaw
                           \<lparr>G_ID = i, G_Name = name, G_Icon = icon, G_Color = color, G_Subnet = DefaultSubnet,
                            G_InviteCode = []\<rparr> (dev_id device) now (sv_db sv) of
                      (Inl e, db) \<Rightarrow> (fail_reply e Internal [], sv\<lparr>sv_db := db\<rparr>)
                    | (Inr m, db) \<Rightarrow> (writeJSON 201 (MembershipBody (toMembership m)), sv\<lparr>sv_db := db\<rparr>)))"

definition handleListGroups :: "device \<Rightarrow> server \<Rightarrow> reply \<times> server" where
  "handleListGroups device sv =
     (case MembershipsByDevice (dev_id device) (sv_db sv) of
        Inl e \<Rightarrow> (fail_reply e Internal [], sv)
      | Inr ms \<Rightarrow> (writeJSON 200 (MembershipsBody (map toMembership ms)), sv))"

definition handleListMembers :: "string \<Rightarrow> device \<Rightarrow> server \<Rightarrow> reply \<times> server" where
  "handleListMembers g device sv =
     (case Membership g (dev_id device) (sv_db sv) of
        Inl e \<Rightarrow> (fail_reply e GroupNotFound ''You are not a member of that group.'', sv)
      | Inr _ \<Rightarrow>
          (case Members g (sv_db sv) of
             Inl e \<Rightarrow> (fail_reply e GroupNotFound ''You are not a member of that group.'', sv)
           | Inr ms \<Rightarrow> (writeJSON 200 (MembersBody ms), sv)))"

definition handleLeaveGroup :: "string \<Rightarrow> instant \<Rightarrow> device \<Rightarrow> server \<Rightarrow> reply \<times> server" where
  "handleLeaveGroup g now device sv =
     (case RevokeMembership g (dev_id device) now (sv_db sv) of
        (Inl e, db) \<Rightarrow> (fail_reply e GroupNotFound ''You are not a member of that group.'', sv\<lparr>sv_db := db\<rparr>)
      | (Inr _, db) \<Rightarrow>
          let sv = broadcast g (dev_id device) (EventPeerOffline (dev_id device)) (sv\<lparr>sv_db := db\<rparr>);
              sv = send_to g (dev_id device) (EventMembershipRevoked (dev_id device)) sv
          in (NoContent, sv))"

definition handleRemoveMember :: "string \<Rightarrow> string \<Rightarrow> instant \<Rightarrow> device \<Rightarrow> server \<Rightarrow> reply \<times> server" where
  "handleRemoveMember g target now device sv =
     (case RemoveMember g (dev_id device) target now (sv_db sv) of
        (Inl e, db) \<Rightarrow> (fail_reply e GroupNotFound ''That person is not in this group.'', sv\<lparr>sv_db := db\<rparr>)
      | (Inr _, db) \<Rightarrow>
          let sv = broadcast g target (EventPeerOffline target) (sv\<lparr>sv_db := db\<rparr>);
              sv = send_to g target (EventMembershipRevoked target) sv
          in (NoContent, sv))"

definition announceGroup :: "string \<Rightarrow> server \<Rightarrow> server" where
  "announceGroup g sv =
     (case GroupByID g (sv_db sv) of
        Inl _ \<Rightarrow> sv
      | Inr gr \<Rightarrow> broadcast g [] (EventGroupUpdated (G_ID gr) (G_Name gr) (G_Icon gr) (G_Color gr)) sv)"

definition handleRenameGroup :: "string option \<Rightarrow> string \<Rightarrow> device \<Rightarrow> server \<Rightarrow> reply \<times> server" where
  "handleRenameGroup req g device sv =
     (case req of
        None \<Rightarrow> (unreadable, sv)
      | Some reqName \<Rightarrow>
          let name = TrimSpace reqName
          in if name = [] \<or> maxNameLength < length name
             then (writeError 400 BadRequest ''That name will not work.'', sv)
             else
               case RenameGroup g (dev_id device) name (sv_db sv) of
                 (Inl e, db) \<Rightarrow> (fail_reply e GroupNotFound ''You are not a member of that group.'', sv\<lparr>sv_db := db\<rparr>)
               | (Inr _, db) \<Rightarrow> (NoContent, announceGroup g (sv\<lparr>sv_db := db\<rparr>)))"

definition handleSetGroupAppearance :: "(string \<times> string) option \<Rightarrow> string \<Rightarrow> device \<Rightarrow> server \<Rightarrow> reply \<times> server" where
  "handleSetGroupAppearance req g device sv =
     (case req of
        None \<Rightarrow> (unreadable, sv)
      | Some (icon, color) \<Rightarrow>
          if \<not> isAppearanceKey icon \<or> \<not> isAppearanceKey color
          then (writeError 400 BadRequest ''That icon or colour will not work.'', sv)
          else
            case SetGroupAppearance g (dev_id device) icon color (sv_db sv) of
              (Inl e, db) \<Rightarrow> (fail_reply e GroupNotFound ''You are not a member of that group.'', sv\<lparr>sv_db := db\<rparr>)
            | (Inr _, db) \<Rightarrow> (NoContent, announceGroup g (sv\<lparr>sv_db := db\<rparr>)))"

definition handleTransferOwnership :: "string \<Rightarrow> string \<Rightarrow> device \<Rightarrow> server \<Rightarrow> reply \<times> server" where
  "handleTransferOwnership g target device sv =
     (case TransferOwnership g (dev_id device) target (sv_db sv) of
        (Inl e, db) \<Rightarrow> (fail_reply e GroupNotFound ''That person is not in this group.'', sv\<lparr>sv_db := db\<rparr>)
      | (Inr _, db) \<Rightarrow> (NoContent, sv\<lparr>sv_db := db\<rparr>))"

definition handleDeleteGroup :: "string \<Rightarrow> device \<Rightarrow> server \<Rightarrow> reply \<times> server" where
  "handleDeleteGroup g device sv =
     (case DeleteGroup g (dev_id device) (sv_db sv) of
        (Inl e, db) \<Rightarrow> (fail_reply e GroupNotFound ''You are not a member of that group.'', sv\<lparr>sv_db := db\<rparr>)
      | (Inr _, db) \<Rightarrow> (NoContent, broadcast g [] (EventGroupDeleted g) (sv\<lparr>sv_db := db\<rparr>)))"

section \<open>Invites\<close>

definition rate_limited :: reply where
  "rate_limited = writeError 429 RateLimited ''Too many attempts. Wait a moment and try again.''"

definition invite_gone :: "nat \<Rightarrow> reply" where
  "invite_gone status = writeError status InviteInvalid ''That invite no longer works.''"

definition handleJoinByCode ::
  "string option \<Rightarrow> string \<Rightarrow> bytes option \<Rightarrow> instant \<Rightarrow> device \<Rightarrow> server \<Rightarrow> reply \<times> server" where
  "handleJoinByCode req client memRaw now device sv =
     (case req of
        None \<Rightarrow> (unreadable, sv)
      | Some reqCode \<Rightarrow>
          let c = Parse reqCode
          in if c = [] then (writeError 400 BadRequest ''That does not look like an invite.'', sv)
             else
               case allow client now (sv_joins sv) of
                 (False, l) \<Rightarrow> (rate_limited, sv\<lparr>sv_joins := l\<rparr>)
               | (True, l) \<Rightarrow>
                   (let sv = sv\<lparr>sv_joins := l\<rparr>
                    in case GroupByInviteCode c (sv_db sv) of
                         Inl ErrNotFound \<Rightarrow> (invite_gone 403, sv)
                       | Inl e \<Rightarrow> (fail_reply e Internal [], sv)
                       | Inr gr \<Rightarrow>
                           (case AddMembership memRaw gr (dev_id device) now (sv_db sv) of
                              (Inl ErrBanned, db) \<Rightarrow> (invite_gone 403, sv\<lparr>sv_db := db\<rparr>)
                            | (Inl e, db) \<Rightarrow> (fail_reply e Internal [], sv\<lparr>sv_db := db\<rparr>)
                            | (Inr m, db) \<Rightarrow> (writeJSON 200 (MembershipBody (toMembership m)), sv\<lparr>sv_db := db\<rparr>))))"

definition findInvite :: "string \<Rightarrow> db \<Rightarrow> store_error + api_invite" where
  "findInvite raw db =
     (let c = Parse raw
      in if c = [] then Inl ErrNotFound
         else case GroupByInviteCode c db of
                Inl e \<Rightarrow> Inl e
              | Inr gr \<Rightarrow>
                  Inr \<lparr>ai_Code = G_InviteCode gr, ai_GroupName = G_Name gr, ai_GroupIcon = G_Icon gr,
                       ai_GroupColor = G_Color gr, ai_Members = MemberCount (G_ID gr) db\<rparr>)"

definition handleInvite :: "string \<Rightarrow> string \<Rightarrow> instant \<Rightarrow> server \<Rightarrow> reply \<times> server" where
  "handleInvite c client now sv =
     (case allow client now (sv_joins sv) of
        (False, l) \<Rightarrow> (rate_limited, sv\<lparr>sv_joins := l\<rparr>)
      | (True, l) \<Rightarrow>
          (case findInvite c (sv_db sv) of
             Inl ErrNotFound \<Rightarrow> (invite_gone 404, sv\<lparr>sv_joins := l\<rparr>)
           | Inl e \<Rightarrow> (fail_reply e Internal [], sv\<lparr>sv_joins := l\<rparr>)
           | Inr found \<Rightarrow> (writeJSON 200 (InviteBody found), sv\<lparr>sv_joins := l\<rparr>)))"

definition members_text :: "nat \<Rightarrow> string" where
  "members_text n = (if n = 1 then ''1 person'' else FormatInt (int n) @ '' people'')"

text \<open>The landing page: its status, and the invite with the count and the link it is drawn with.\<close>

definition handleInvitePage :: "string \<Rightarrow> server \<Rightarrow> nat \<times> (api_invite \<times> string \<times> string) option" where
  "handleInvitePage c sv =
     (case findInvite c (sv_db sv) of
        Inr found \<Rightarrow> (200, Some (found, members_text (ai_Members found), DeepLink (ai_Code found)))
      | Inl _ \<Rightarrow> (404, None))"

definition handleResetInvite :: "string \<Rightarrow> (nat \<Rightarrow> bytes option) \<Rightarrow> device \<Rightarrow> server \<Rightarrow> reply \<times> server" where
  "handleResetInvite g draws device sv =
     (case ResetInviteCode draws g (dev_id device) (sv_db sv) of
        (Inl e, db) \<Rightarrow> (fail_reply e GroupNotFound ''You are not a member of that group.'', sv\<lparr>sv_db := db\<rparr>)
      | (Inr c, db) \<Rightarrow> (writeJSON 200 (CodeBody c), sv\<lparr>sv_db := db\<rparr>))"


section \<open>Sessions\<close>

definition toPeer :: "session_peer \<Rightarrow> api_peer" where
  "toPeer p = \<lparr>ap_DeviceID = sp_DeviceID p, ap_Nickname = sp_Nickname p, ap_VirtualIP = sp_VirtualIP p,
     ap_TransportKey = sp_TransportKey p,
     ap_Endpoint = map_option (\<lambda>(address, port). \<lparr>ep_Protocol = ''udp'', ep_Address = address, ep_Port = port\<rparr>) (sp_Endpoint p)\<rparr>"

definition toPeers :: "session_peer list \<Rightarrow> api_peer list" where
  "toPeers peers = map toPeer peers"

definition handleCreateSession :: "string \<Rightarrow> bytes option \<Rightarrow> instant \<Rightarrow> device \<Rightarrow> server \<Rightarrow> reply \<times> server" where
  "handleCreateSession g raw now device sv =
     (case Membership g (dev_id device) (sv_db sv) of
        Inl e \<Rightarrow> (fail_reply e MembershipRevoked ''You are no longer a member of that group.'', sv)
      | Inr m \<Rightarrow>
          (case CreateSession raw m now (sv_db sv) of
             (Inl e, db) \<Rightarrow> (fail_reply e GroupNotFound ''That group no longer exists.'', sv\<lparr>sv_db := db\<rparr>)
           | (Inr session, db) \<Rightarrow>
               (case PeersInGroup g (dev_id device) db of
                  Inl e \<Rightarrow> (fail_reply e Internal [], sv\<lparr>sv_db := db\<rparr>)
                | Inr peers \<Rightarrow>
                    (writeJSON 201 (SessionBody (S_ID session) (S_VirtualIP session) (toPeers peers)),
                     broadcast g (dev_id device)
                       (EventPeerOnline \<lparr>ap_DeviceID = dev_id device, ap_Nickname = dev_nickname device,
                          ap_VirtualIP = S_VirtualIP session, ap_TransportKey = dev_transport_key device,
                          ap_Endpoint = None\<rparr>) (sv\<lparr>sv_db := db\<rparr>)))))"

definition session_gone :: reply where
  "session_gone = writeError 404 SessionInvalid ''That session is no longer active.''"

definition ownedSession :: "string \<Rightarrow> device \<Rightarrow> db \<Rightarrow> reply + session_info" where
  "ownedSession i device db =
     (case SessionByID i db of
        Inl e \<Rightarrow> Inl (fail_reply e SessionInvalid ''That session is no longer active.'')
      | Inr session \<Rightarrow> if S_DeviceID session \<noteq> dev_id device then Inl session_gone else Inr session)"

text \<open>Which text \<^verbatim>\<open>netip.ParseAddr\<close> accepts, IPv6 included, is an argument.\<close>

definition handleSetEndpoint ::
  "(string \<Rightarrow> bool) \<Rightarrow> string \<Rightarrow> api_endpoint option \<Rightarrow> instant \<Rightarrow> device \<Rightarrow> server \<Rightarrow> reply \<times> server" where
  "handleSetEndpoint isAddr i req now device sv =
     (case ownedSession i device (sv_db sv) of
        Inl r \<Rightarrow> (r, sv)
      | Inr session \<Rightarrow>
          (case req of
             None \<Rightarrow> (unreadable, sv)
           | Some ep \<Rightarrow>
               if ep_Protocol ep \<noteq> [] \<and> ep_Protocol ep \<noteq> ''udp''
               then (writeError 400 BadRequest ''Only UDP endpoints are supported.'', sv)
               else if \<not> isAddr (ep_Address ep) \<or> ep_Port ep < 1 \<or> 65535 < ep_Port ep
               then (writeError 400 BadRequest ''That endpoint is not a valid address and port.'', sv)
               else
                 case SetSessionEndpoint (S_ID session) (ep_Address ep) (ep_Port ep) now (sv_db sv) of
                   (Inl e, db) \<Rightarrow> (fail_reply e SessionInvalid ''That session is no longer active.'', sv\<lparr>sv_db := db\<rparr>)
                 | (Inr _, db) \<Rightarrow>
                     (NoContent, broadcast (S_GroupID session) (dev_id device)
                        (EventPeerEndpointUpdated (dev_id device)
                           \<lparr>ep_Protocol = ''udp'', ep_Address = ep_Address ep, ep_Port = ep_Port ep\<rparr>) (sv\<lparr>sv_db := db\<rparr>))))"

definition handleHeartbeat :: "string \<Rightarrow> instant \<Rightarrow> device \<Rightarrow> server \<Rightarrow> reply \<times> server" where
  "handleHeartbeat i now device sv =
     (case ownedSession i device (sv_db sv) of
        Inl r \<Rightarrow> (r, sv)
      | Inr session \<Rightarrow>
          (case TouchSession (S_ID session) now (sv_db sv) of
             (Inl e, db) \<Rightarrow> (fail_reply e SessionInvalid ''That session is no longer active.'', sv\<lparr>sv_db := db\<rparr>)
           | (Inr _, db) \<Rightarrow> (NoContent, sv\<lparr>sv_db := db\<rparr>)))"

definition handleDeleteSession :: "string \<Rightarrow> device \<Rightarrow> server \<Rightarrow> reply \<times> server" where
  "handleDeleteSession i device sv =
     (case ownedSession i device (sv_db sv) of
        Inl r \<Rightarrow> (r, sv)
      | Inr session \<Rightarrow>
          (case DeleteSession (S_ID session) (sv_db sv) of
             (Inl e, db) \<Rightarrow> (fail_reply e SessionInvalid ''That session is no longer active.'', sv\<lparr>sv_db := db\<rparr>)
           | (Inr _, db) \<Rightarrow>
               (NoContent, broadcast (S_GroupID session) (dev_id device) (EventPeerOffline (dev_id device)) (sv\<lparr>sv_db := db\<rparr>))))"

section \<open>Devices\<close>

definition handleRegisterDevice ::
  "crypto \<Rightarrow> (string \<Rightarrow> string) \<Rightarrow> register_request option \<Rightarrow> string \<Rightarrow> string option \<Rightarrow> instant \<Rightarrow> server \<Rightarrow>
     reply \<times> server" where
  "handleRegisterDevice C hashToken body client newToken now sv =
     (case allow client now (sv_devices sv) of
        (False, l) \<Rightarrow> (rate_limited, sv\<lparr>sv_devices := l\<rparr>)
      | (True, l) \<Rightarrow>
          (let sv = sv\<lparr>sv_devices := l\<rparr>
           in case body of
                None \<Rightarrow> (unreadable, sv)
              | Some req \<Rightarrow>
                  let issuedAt = rr_IssuedAt req * second; skew = now - issuedAt
                  in if rr_DeviceID req = [] \<or> rr_PublicKey req = [] \<or> rr_TransportKey req = [] \<or> rr_Nonce req = []
                     then (writeError 400 BadRequest ''The registration is missing required fields.'', sv)
                     else if RegisterMaxSkew < skew \<or> skew < - RegisterMaxSkew
                     then (writeError 400 BadRequest ''This device's clock is too far off. Check the system time.'', sv)
                     else if VerifyRegister C (rr_PublicKey req) (rr_DeviceID req) (rr_TransportKey req) (rr_Signature req)
                               issuedAt (rr_Nonce req) \<noteq> None
                     then (writeError 401 Unauthorized ''The registration could not be verified.'', sv)
                     else
                       case ClaimRegisterNonce (rr_Nonce req) (2 * RegisterMaxSkew) now (sv_db sv) of
                         (False, db) \<Rightarrow> (writeError 401 Unauthorized ''The registration could not be verified.'', sv\<lparr>sv_db := db\<rparr>)
                       | (True, db) \<Rightarrow>
                           (case RegisterDevice hashToken newToken
                                   \<lparr>dev_id = rr_DeviceID req, dev_public_key = rr_PublicKey req,
                                    dev_transport_key = rr_TransportKey req, dev_name = rr_DeviceName req,
                                    dev_nickname = TrimSpace (rr_DeviceName req), dev_created_at = 0, dev_last_seen_at = 0\<rparr>
                                   now db of
                              (Inl ErrConflict, db) \<Rightarrow>
                                (writeError 409 BadRequest ''That key is already registered to another device.'', sv\<lparr>sv_db := db\<rparr>)
                            | (Inl e, db) \<Rightarrow> (fail_reply e Internal [], sv\<lparr>sv_db := db\<rparr>)
                            | (Inr token, db) \<Rightarrow> (writeJSON 201 (TokenBody token), sv\<lparr>sv_db := db\<rparr>))))"

definition handleMe :: "device \<Rightarrow> server \<Rightarrow> reply \<times> server" where
  "handleMe device sv = (writeJSON 200 (MeBody (dev_id device) (dev_nickname device)), sv)"

definition announceNickname :: "string \<Rightarrow> string \<Rightarrow> server \<Rightarrow> server" where
  "announceNickname d nickname sv =
     fold (\<lambda>g. broadcast g d (EventPeerRenamed d nickname)) (ConnectedGroupIDs d (sv_db sv)) sv"

definition handleSetNickname :: "string option \<Rightarrow> device \<Rightarrow> server \<Rightarrow> reply \<times> server" where
  "handleSetNickname req device sv =
     (case req of
        None \<Rightarrow> (unreadable, sv)
      | Some reqName \<Rightarrow>
          let nickname = TrimSpace reqName
          in if nickname = [] \<or> maxNameLength < length nickname
             then (writeError 400 BadRequest ''That nickname will not work.'', sv)
             else
               case SetDeviceNickname (dev_id device) nickname (sv_db sv) of
                 (Inl e, db) \<Rightarrow> (fail_reply e Unauthorized ''This device is not signed in.'', sv\<lparr>sv_db := db\<rparr>)
               | (Inr _, db) \<Rightarrow> (NoContent, announceNickname (dev_id device) nickname (sv\<lparr>sv_db := db\<rparr>)))"

section \<open>The realtime channel\<close>

definition sendCurrentPeers :: "session_info \<Rightarrow> string \<Rightarrow> server \<Rightarrow> server" where
  "sendCurrentPeers session d sv =
     (case PeersInGroup (S_GroupID session) d (sv_db sv) of
        Inl _ \<Rightarrow> sv
      | Inr peers \<Rightarrow> fold (\<lambda>p. send_to (S_GroupID session) d (EventPeerOnline p)) (toPeers peers) sv)"

text \<open>
  \<open>handleRealtime\<close> up to its loop, once the upgrade to a WebSocket has worked: the subscription the
  connection is written from. A turn of the loop reads the subscription or answers the ping timer;
  it ends the connection with \<open>None\<close>.
\<close>

definition handleRealtime :: "string \<Rightarrow> device \<Rightarrow> server \<Rightarrow> (reply + session_info \<times> sub_ref) \<times> server" where
  "handleRealtime i device sv =
     (case SessionByID i (sv_db sv) of
        Inl _ \<Rightarrow> (Inl session_gone, sv)
      | Inr session \<Rightarrow>
          if S_DeviceID session \<noteq> dev_id device then (Inl session_gone, sv)
          else
            let (ref, hub) = Subscribe (S_GroupID session) (dev_id device) (sv_hub sv)
            in (Inr (session, ref), sendCurrentPeers session (dev_id device) (sv\<lparr>sv_hub := hub\<rparr>)))"

definition realtime_write :: "sub_ref \<Rightarrow> (event \<Rightarrow> bool) \<Rightarrow> server \<Rightarrow> event list option \<times> server" where
  "realtime_write ref written sv =
     (case receive ref (sv_hub sv) of
        (Waiting, hub) \<Rightarrow> (Some [], sv)
      | (Ended, hub) \<Rightarrow> (None, sv\<lparr>sv_hub := Unsubscribe ref hub\<rparr>)
      | (Received e, hub) \<Rightarrow>
          if written e then (Some [e], sv\<lparr>sv_hub := hub\<rparr>) else (None, sv\<lparr>sv_hub := Unsubscribe ref hub\<rparr>))"

definition realtime_ping :: "sub_ref \<Rightarrow> session_info \<Rightarrow> bool \<Rightarrow> instant \<Rightarrow> server \<Rightarrow> unit option \<times> server" where
  "realtime_ping ref session answered now sv =
     (if \<not> answered then (None, sv\<lparr>sv_hub := Unsubscribe ref (sv_hub sv)\<rparr>)
      else case TouchSession (S_ID session) now (sv_db sv) of
             (Inl _, db) \<Rightarrow> (None, sv\<lparr>sv_db := db, sv_hub := Unsubscribe ref (sv_hub sv)\<rparr>)
           | (Inr _, db) \<Rightarrow> (Some (), sv\<lparr>sv_db := db\<rparr>))"

text \<open>A tick of the loop that expires sessions.\<close>

definition expire_tick :: "duration \<Rightarrow> instant \<Rightarrow> server \<Rightarrow> server" where
  "expire_tick timeout now sv =
     (case ExpireSessions timeout now (sv_db sv) of
        (stale, db) \<Rightarrow>
          fold (\<lambda>(i, g, d). broadcast g d (EventPeerOffline d)) stale (sv\<lparr>sv_db := db\<rparr>))"

end
