(* ===== verification/Api_Props.thy ===== *)
theory Api_Props
  imports Api
begin

text \<open>
  What the handlers promise: how often a client gets to try, what a client is told and what is kept from
  it, whose session it can touch, what a new connection hears first, and when a registration counts.
\<close>

section \<open>Room in a group\<close>

lemma taken_count: "length (takenAddresses g db) \<le> MemberCount g db"
proof -
  have "length (List.map_filter f xs) \<le> length xs" for f :: "membership_row \<Rightarrow> string option" and xs
    by (simp add: List.map_filter_def)
  then show ?thesis by (simp add: takenAddresses_def MemberCount_def)
qed

text \<open>A device that is new to a group gets in as long as the subnet has a host address left.\<close>

lemma join_new_succeeds:
  assumes id: "NewID ''mem'' raw = Some i" "i \<notin> mem_id ` set (db_memberships db)"
    and new: "place (G_ID g) d db = None" and refs: "G_ID g \<in> grp_id ` set (db_groups db)" "d \<in> dev_id ` set (db_devices db)"
    and net: "ParsePrefix (G_Subnet g) = Some \<lparr>pfx_addr = Addr4 q, pfx_bits = bits\<rparr>"
    and room: "MemberCount (G_ID g) db < 2 ^ (32 - bits) - 2"
  shows "\<exists>mm db'. AddMembership raw g d now db = (Inr mm, db')"
proof -
  let ?db = "db\<lparr>db_memberships := db_memberships db @ [\<lparr>mem_id = i, mem_group_id = G_ID g, mem_device_id = d,
    mem_created_at = unix now, mem_revoked_at = None, mem_banned_at = None, mem_virtual_ip = None, mem_role = RoleMember\<rparr>]\<rparr>"
  have keys: "membership_by_id i db = None" "group_row_by_id (G_ID g) db \<noteq> None" "device_row d db \<noteq> None"
    using id(2) refs by (simp_all add: row_by_key)
  then have up: "upsert_membership i (G_ID g) d (unix now) db = Inr ?db"
    using new by (simp add: upsert_membership_def)
  note u = upsert_membership_cases [OF up]
  have "takenAddresses (G_ID g) ?db = takenAddresses (G_ID g) db"
    by (simp add: takenAddresses_def List.map_filter_def)
  then have "length (takenAddresses (G_ID g) ?db) < 2 ^ (32 - bits) - 2"
    using taken_count [of "G_ID g" db] room by simp
  then obtain ip where free: "freeAddress (G_Subnet g) (takenAddresses (G_ID g) ?db) = Inr ip"
    using freeAddress_room [OF net] by blast
  then have "ip \<notin> others_hold (G_ID g) d db" using freeAddress_host_text u(3) by blast
  then have "assignAddress g d [] ?db = Inr (ip, seated i (G_ID g) d (unix now) ip db)"
    using free u(4) by (simp add: assignAddress_def)
  moreover have "place (G_ID g) d (seated i (G_ID g) d (unix now) ip db) \<noteq> None"
    unfolding row_by_key(4) seated_def new by (simp add: mem_place_def)
  ultimately show ?thesis
    using id(1) up new by (auto simp: AddMembership_def insertMembership_def store_write_def)
qed

section \<open>Rate limits\<close>

text \<open>The attempts of one key that a limiter admits, over a series of attempts by anybody.\<close>

fun admitted :: "string \<Rightarrow> rate_limiter \<Rightarrow> (string \<times> instant) list \<Rightarrow> instant list" where
  "admitted k l [] = []"
| "admitted k l ((k', t) # calls) =
     (if k' = k \<and> fst (allow k' t l) then [t] else []) @ admitted k (snd (allow k' t l)) calls"

definition after :: "rate_limiter \<Rightarrow> (string \<times> instant) list \<Rightarrow> rate_limiter" where
  "after l calls = fold (\<lambda>(k, t) l. snd (allow k t l)) calls l"

lemma admitted_snoc:
  "admitted k l (calls @ [(k', t)]) =
     admitted k l calls @ (if k' = k \<and> fst (allow k' t (after l calls)) then [t] else [])"
  by (induction k l calls rule: admitted.induct) (simp_all add: after_def)

lemma after_snoc: "after l (calls @ [(k', t)]) = snd (allow k' t (after l calls))"
  by (simp add: after_def)

lemma allow_params: "rl_limit (snd (allow k t l)) = rl_limit l" "rl_window (snd (allow k t l)) = rl_window l"
  by (simp_all add: allow_def Let_def)

lemma after_params: "rl_limit (after l calls) = rl_limit l" "rl_window (after l calls) = rl_window l"
  by (induction calls arbitrary: l) (auto simp: after_def allow_params)

lemma attempts_allow:
  "attempts_of k (snd (allow k' t l)) =
     (if k = k' then filter (\<lambda>at. t - rl_window l < at) (attempts_of k l) @ (if fst (allow k' t l) then [t] else [])
      else attempts_of k l)"
  by (auto simp: allow_def Let_def attempts_of_def)

lemma allow_iff: "fst (allow k t l) \<longleftrightarrow> length (filter (\<lambda>at. t - rl_window l < at) (attempts_of k l)) < rl_limit l"
  by (auto simp: allow_def Let_def)

text \<open>What a limiter remembers is what it admitted, as far as that still matters.\<close>

lemma limiter_memory:
  assumes "sorted (map snd calls)" "0 < w" "\<forall>c\<in>set calls. snd c \<le> T" "rl_window l = w" "attempts_of k l = []"
  shows "filter (\<lambda>t. T - w < t) (attempts_of k (after l calls)) = filter (\<lambda>t. T - w < t) (admitted k l calls)"
  using assms
proof (induction calls arbitrary: T rule: rev_induct)
  case Nil
  then show ?case by (simp add: after_def)
next
  case (snoc c calls)
  obtain k' t where c: "c = (k', t)" by (cases c)
  have le: "\<forall>c\<in>set calls. snd c \<le> t" using snoc.prems(1) by (auto simp: c sorted_append)
  have IH: "filter (\<lambda>x. U - w < x) (attempts_of k (after l calls)) = filter (\<lambda>x. U - w < x) (admitted k l calls)"
    if "t \<le> U" for U
  proof (rule snoc.IH)
    show "\<forall>c\<in>set calls. snd c \<le> U" using le that by (meson order_trans)
  qed (use snoc.prems in \<open>simp_all add: sorted_append\<close>)
  have "t \<le> T" using snoc.prems(3) c by auto
  then have shrink: "filter (\<lambda>x. t - w < x \<and> T - w < x) xs = filter (\<lambda>x. T - w < x) xs" for xs
    by (auto intro!: filter_cong)
  show ?case
    using IH [OF \<open>t \<le> T\<close>] by (auto simp add: c after_snoc admitted_snoc attempts_allow after_params snoc.prems(4) shrink)
qed

lemma window_count:
  assumes "sorted (map snd calls)" "0 < w" "rl_window l = w" "rl_limit l = n" "attempts_of k l = []"
  shows "length (filter (\<lambda>t. a < t \<and> t \<le> a + w) (admitted k l calls)) \<le> n"
  using assms
proof (induction calls rule: rev_induct)
  case (snoc c calls)
  obtain k' t where c: "c = (k', t)" by (cases c)
  have IH: "length (filter (\<lambda>t. a < t \<and> t \<le> a + w) (admitted k l calls)) \<le> n"
    using snoc by (simp add: sorted_append)
  show ?case
  proof (cases "k' = k \<and> fst (allow k' t (after l calls)) \<and> a < t \<and> t \<le> a + w")
    case True
    have le: "\<forall>c\<in>set calls. snd c \<le> t" using snoc.prems(1) by (auto simp: c sorted_append)
    have "filter (\<lambda>x. t - w < x) (attempts_of k (after l calls)) = filter (\<lambda>x. t - w < x) (admitted k l calls)"
      using snoc.prems le by (intro limiter_memory) (auto simp: sorted_append)
    then have "length (filter (\<lambda>x. t - w < x) (admitted k l calls)) < n"
      using conjunct1 [OF True] conjunct1 [OF conjunct2 [OF True]] by (simp add: allow_iff after_params snoc.prems(3,4))
    moreover have "length (filter (\<lambda>t. a < t \<and> t \<le> a + w) (admitted k l calls)) \<le> length (filter (\<lambda>x. t - w < x) (admitted k l calls))"
    proof -
      have "filter (\<lambda>t. a < t \<and> t \<le> a + w) xs = filter (\<lambda>t. a < t \<and> t \<le> a + w) (filter (\<lambda>x. t - w < x) xs)" for xs
        using True by (auto intro!: filter_cong)
      then show ?thesis by (metis length_filter_le)
    qed
    ultimately show ?thesis using True by (simp add: c admitted_snoc)
  next
    case False
    then show ?thesis using IH by (auto simp: c admitted_snoc)
  qed
qed simp



section \<open>What a client is told\<close>

lemma scan_all_Inr: "scan_all f rows = Inr xs \<Longrightarrow> list_all2 (\<lambda>r x. f r = Inr x) rows xs"
  by (induction rows arbitrary: xs) (auto simp: scan_all_def split: sum.splits)

lemma scan_all_mem: "scan_all f rows = Inr xs \<Longrightarrow> x \<in> set xs \<Longrightarrow> \<exists>r\<in>set rows. f r = Inr x"
  using scan_all_Inr [of f rows xs] by (auto simp: list_all2_conv_all_nth in_set_conv_nth) (metis nth_mem)

lemma MembershipsByDevice_row:
  assumes "MembershipsByDevice d db = Inr ms" "x \<in> set ms"
  shows "\<exists>m\<in>set (db_memberships db). is_place (M_GroupID x) d m \<and> active m \<and> M_Role x = mem_role m"
proof -
  obtain m g where "m \<in> set (db_memberships db)" "mem_device_id m = d" "active m"
    and x: "(case to_membership db m g of Inl e \<Rightarrow> Inl e
        | Inr x \<Rightarrow> Inr (x\<lparr>M_OnlineMembers := Some (length (filter (\<lambda>s. ses_group_id s = mem_group_id m) (db_sessions db))),
                          M_Members := Some (MemberCount (mem_group_id m) db)\<rparr>)) = Inr x"
    using scan_all_mem [OF assms(1) [unfolded MembershipsByDevice_def] assms(2)] by auto
  then show ?thesis
    by (auto simp: to_membership_def is_place_def split: option.splits sum.splits intro!: bexI [of _ m])
qed

text \<open>
C35: the invite code goes only to the owner: in the list of groups a device is handed, an entry carries a code
only where that device is an active owner of the group.
\<close>

theorem code_only_to_owner:
  assumes "fst (handleListGroups device sv) = writeJSON 200 (MembershipsBody ms)" and "m \<in> set ms"
    and "am_InviteCode m \<noteq> []"
  shows "owns (am_GroupID m) (dev_id device) (sv_db sv)"
proof -
  obtain xs where xs: "MembershipsByDevice (dev_id device) (sv_db sv) = Inr xs" "ms = map toMembership xs"
    using assms(1) by (auto simp: handleListGroups_def writeJSON_def fail_reply_def writeError_def split: sum.splits store_error.splits)
  obtain x where x: "x \<in> set xs" "m = toMembership x" using assms(2) xs(2) by auto
  then have "M_Role x = RoleOwner" using assms(3) by (auto simp: toMembership_def split: if_splits)
  then show ?thesis using MembershipsByDevice_row [OF xs(1) x(1)] x(2) by (auto simp: owns_def toMembership_def)
qed

text \<open>
Failed joins look alike. A code that opens nothing and a code for a group the caller was removed from get the
same answer, and neither changes the database.
\<close>

theorem failed_joins_look_alike:
  assumes "store_inv (sv_db sv)" and "Parse c \<noteq> []" and "allow client now (sv_joins sv) = (True, l)"
    and "GroupByInviteCode (Parse c) (sv_db sv) = Inl ErrNotFound \<or>
      (\<exists>gr. GroupByInviteCode (Parse c) (sv_db sv) = Inr gr \<and> banned (G_ID gr) (dev_id device) (sv_db sv))"
  shows "handleJoinByCode (Some c) client raw now device sv = (invite_gone 403, sv\<lparr>sv_joins := l\<rparr>)"
  using assms(4)
proof
  assume "GroupByInviteCode (Parse c) (sv_db sv) = Inl ErrNotFound"
  then show ?thesis using assms(2,3) by (simp add: handleJoinByCode_def)
next
  assume "\<exists>gr. GroupByInviteCode (Parse c) (sv_db sv) = Inr gr \<and> banned (G_ID gr) (dev_id device) (sv_db sv)"
  then obtain gr m where gr: "GroupByInviteCode (Parse c) (sv_db sv) = Inr gr"
    and m: "place (G_ID gr) (dev_id device) (sv_db sv) = Some m" "mem_banned_at m \<noteq> None"
    using place_Some [OF assms(1)] by (metis banned_def)
  then have "AddMembership raw gr (dev_id device) now (sv_db sv) = (Inl ErrBanned, sv_db sv)"
    by (simp add: AddMembership_def store_write_def)
  then show ?thesis using assms(2,3) gr by (simp add: handleJoinByCode_def)
qed

section \<open>Sessions belong to a device\<close>

text \<open>
  The handlers of a session, as what they do for a session that is not the caller's: the answer of a
  session that never existed, and nothing else.
\<close>

locale session_handler =
  fixes handler :: "string \<Rightarrow> device \<Rightarrow> server \<Rightarrow> reply \<times> server"
  assumes checks: "ownedSession i device (sv_db sv) = Inl r \<Longrightarrow> handler i device sv = (r, sv)"
begin

lemma foreign:
  assumes "SessionByID i (sv_db sv) = Inr s" "S_DeviceID s \<noteq> dev_id device"
  shows "handler i device sv = (session_gone, sv)"
  using assms by (intro checks) (simp add: ownedSession_def)

lemma missing:
  assumes "SessionByID i (sv_db sv) = Inl ErrNotFound"
  shows "handler i device sv = (session_gone, sv)"
  using assms by (intro checks) (simp add: ownedSession_def fail_reply_def session_gone_def)

end

interpretation endpoint: session_handler "\<lambda>i. handleSetEndpoint isAddr i req now"
  by unfold_locales (simp add: handleSetEndpoint_def)

interpretation heartbeat: session_handler "\<lambda>i. handleHeartbeat i now"
  by unfold_locales (simp add: handleHeartbeat_def)

interpretation disconnect: session_handler "\<lambda>i. handleDeleteSession i"
  by unfold_locales (simp add: handleDeleteSession_def)

text \<open>
Somebody else's session is as good as none. Publishing an endpoint, a heartbeat, a disconnect and the realtime
channel all answer for another device's session exactly as for one that never existed, and change nothing.
\<close>

theorem foreign_session_is_missing:
  assumes "SessionByID i (sv_db sv) = Inl ErrNotFound \<or>
      (\<exists>s. SessionByID i (sv_db sv) = Inr s \<and> S_DeviceID s \<noteq> dev_id device)"
  shows "handleSetEndpoint isAddr i req now device sv = (session_gone, sv) \<and>
    handleHeartbeat i now device sv = (session_gone, sv) \<and> handleDeleteSession i device sv = (session_gone, sv) \<and>
    handleRealtime i device sv = (Inl session_gone, sv)"
  using assms
proof
  assume gone: "SessionByID i (sv_db sv) = Inl ErrNotFound"
  then have "handleRealtime i device sv = (Inl session_gone, sv)" by (simp add: handleRealtime_def)
  then show ?thesis by (simp only: endpoint.missing [OF gone] heartbeat.missing [OF gone] disconnect.missing [OF gone] simp_thms)
next
  assume "\<exists>s. SessionByID i (sv_db sv) = Inr s \<and> S_DeviceID s \<noteq> dev_id device"
  then obtain s where s: "SessionByID i (sv_db sv) = Inr s" "S_DeviceID s \<noteq> dev_id device" by blast
  then have "handleRealtime i device sv = (Inl session_gone, sv)" by (simp add: handleRealtime_def)
  then show ?thesis by (simp only: endpoint.foreign [OF s] heartbeat.foreign [OF s] disconnect.foreign [OF s] simp_thms)
qed

section \<open>Opening the realtime channel\<close>

definition delivered :: "'p \<Rightarrow> 'p subscriber \<Rightarrow> 'p subscriber" where
  "delivered p s = (if has_room s then s\<lparr>sub_send := sub_send s @ [p]\<rparr> else s)"

lemma deliver_heap:
  "hub_heap (snd (deliver p r h)) = (hub_heap h)[r := delivered p (hub_heap h ! r)]"
  "hub_groups (snd (deliver p r h)) = hub_groups h"
  by (auto simp: deliver_def delivered_def has_room_def Let_def)

lemma deliveries:
  assumes "distinct ts" "\<forall>r\<in>set ts. r < length (hub_heap h)"
  shows "hub_groups (fold (\<lambda>r h. snd (deliver p r h)) ts h) = hub_groups h \<and>
    length (hub_heap (fold (\<lambda>r h. snd (deliver p r h)) ts h)) = length (hub_heap h) \<and>
    (\<forall>i<length (hub_heap h). hub_heap (fold (\<lambda>r h. snd (deliver p r h)) ts h) ! i =
       (if i \<in> set ts then delivered p (hub_heap h ! i) else hub_heap h ! i))"
  using assms
proof (induction ts arbitrary: h)
  case (Cons r ts)
  let ?h = "snd (deliver p r h)"
  have nth: "hub_heap ?h ! i = (if i = r then delivered p (hub_heap h ! r) else hub_heap h ! i)" for i
    using Cons.prems(2) by (simp add: deliver_heap nth_list_update)
  have len: "length (hub_heap ?h) = length (hub_heap h)" by (simp add: deliver_heap)
  have IH: "hub_groups (fold (\<lambda>r h. snd (deliver p r h)) ts ?h) = hub_groups ?h"
    "length (hub_heap (fold (\<lambda>r h. snd (deliver p r h)) ts ?h)) = length (hub_heap ?h)"
    "\<And>i. i < length (hub_heap ?h) \<Longrightarrow> hub_heap (fold (\<lambda>r h. snd (deliver p r h)) ts ?h) ! i =
       (if i \<in> set ts then delivered p (hub_heap ?h ! i) else hub_heap ?h ! i)"
    using Cons.IH [of ?h] Cons.prems len by auto
  have "hub_heap (fold (\<lambda>r h. snd (deliver p r h)) (r # ts) h) ! i =
      (if i \<in> set (r # ts) then delivered p (hub_heap h ! i) else hub_heap h ! i)" if "i < length (hub_heap h)" for i
    using IH(3) [of i] that Cons.prems(1) len by (auto simp: nth)
  then show ?case using IH(1,2) len by (simp add: deliver_heap(2))
qed simp

text \<open>A subscriber of a device, listed in its group, gets what is sent to that device, while it has room.\<close>

definition subscribed :: "string \<Rightarrow> string \<Rightarrow> sub_ref \<Rightarrow> 'p hub \<Rightarrow> bool" where
  "subscribed g d r h \<longleftrightarrow> hub_inv h \<and> r \<in> set (listeners g h) \<and> sub_DeviceID (hub_heap h ! r) = d \<and>
     \<not> sub_closed (hub_heap h ! r)"

lemma SendTo_inv: "hub_inv h \<Longrightarrow> hub_inv (SendTo g d encoded h)"
proof (cases encoded)
  case (Some p)
  assume inv: "hub_inv h"
  let ?ts = "filter (\<lambda>r. sub_DeviceID (hub_heap h ! r) = d) (listeners g h)"
  have "hub_inv k \<Longrightarrow> \<forall>r\<in>set ts. r < length (hub_heap k) \<Longrightarrow> hub_inv (fold (\<lambda>r h. snd (deliver p r h)) ts k)" for ts k
    by (induction ts arbitrary: k) (simp_all add: deliver_inv deliver_heap)
  moreover have "\<forall>r\<in>set ?ts. r < length (hub_heap h)" using listeners_inv(2) [OF inv] by auto
  ultimately show ?thesis using inv by (simp add: SendTo_def Some)
qed (simp add: SendTo_def)

lemma SendTo_subscribed:
  assumes "subscribed g d r h"
  shows "subscribed g d r (SendTo g d (Some p) h) \<and>
    sub_send (hub_heap (SendTo g d (Some p) h) ! r) = take sendBuffer (sub_send (hub_heap h ! r) @ [p])"
proof -
  let ?ts = "filter (\<lambda>r. sub_DeviceID (hub_heap h ! r) = d) (listeners g h)"
  have inv: "hub_inv h" and r: "r \<in> set ?ts" "r < length (hub_heap h)" and opn: "\<not> sub_closed (hub_heap h ! r)"
    using assms listeners_inv(2) by (auto simp: subscribed_def)
  have "distinct ?ts" "\<forall>r\<in>set ?ts. r < length (hub_heap h)" using listeners_inv [OF inv, where g = g] by auto
  from deliveries [OF this, of p] r have
    groups: "hub_groups (SendTo g d (Some p) h) = hub_groups h"
    and row: "hub_heap (SendTo g d (Some p) h) ! r = delivered p (hub_heap h ! r)"
    by (simp_all add: SendTo_def)
  have "length (sub_send (hub_heap h ! r)) \<le> sendBuffer" using queue_bound [OF inv r(2)] .
  then have "sub_send (delivered p (hub_heap h ! r)) = take sendBuffer (sub_send (hub_heap h ! r) @ [p])"
    using opn by (auto simp: delivered_def has_room_def)
  moreover have "sub_DeviceID (delivered p (hub_heap h ! r)) = d \<and> \<not> sub_closed (delivered p (hub_heap h ! r))"
    using assms by (simp add: delivered_def subscribed_def)
  ultimately show ?thesis
    using SendTo_inv [OF inv] assms groups row by (simp add: subscribed_def listeners_def)
qed

lemma replays:
  assumes "subscribed g d r (sv_hub sv)"
  shows "subscribed g d r (sv_hub (fold (\<lambda>p. send_to g d (f p)) ps sv)) \<and>
    sub_send (hub_heap (sv_hub (fold (\<lambda>p. send_to g d (f p)) ps sv)) ! r) =
      take sendBuffer (sub_send (hub_heap (sv_hub sv) ! r) @ map f ps)"
  using assms
proof (induction ps arbitrary: sv)
  case Nil
  then show ?case
    using queue_bound listeners_inv(2) by (fastforce simp: subscribed_def)
next
  case (Cons p ps)
  let ?sv = "send_to g d (f p) sv"
  have "subscribed g d r (sv_hub ?sv)" and
    send: "sub_send (hub_heap (sv_hub ?sv) ! r) = take sendBuffer (sub_send (hub_heap (sv_hub sv) ! r) @ [f p])"
    using SendTo_subscribed [OF Cons.prems, of "f p"] by (simp_all add: send_to_def)
  have cut: "take n (take n (xs @ [x]) @ ys) = take n (xs @ x # ys)" for n xs ys and x :: event
    by (cases "n \<le> length xs") simp_all
  show ?case
    using Cons.IH [OF \<open>subscribed g d r (sv_hub ?sv)\<close>] unfolding send cut by simp
qed

text \<open>
Opening the realtime channel replays at most sixteen peers. The new subscription starts with the online peers
of the group in order, cut off after the sixteenth: whoever comes after that is dropped without a word.
\<close>

theorem realtime_replays_sixteen:
  assumes "hub_inv (sv_hub sv)" and "handleRealtime i device sv = (Inr (session, ref), sv')"
    and "PeersInGroup (S_GroupID session) (dev_id device) (sv_db sv) = Inr peers"
  shows "sub_send (hub_heap (sv_hub sv') ! ref) = take sendBuffer (map EventPeerOnline (toPeers peers)) \<and>
    subscribed (S_GroupID session) (dev_id device) ref (sv_hub sv') \<and> sv_db sv' = sv_db sv"
proof -
  let ?g = "S_GroupID session" and ?d = "dev_id device"
  let ?hub = "snd (Subscribe ?g ?d (sv_hub sv))"
  let ?sv = "sv\<lparr>sv_hub := ?hub\<rparr>"
  have ref: "ref = length (hub_heap (sv_hub sv))" and sv': "sv' = sendCurrentPeers session ?d ?sv"
    using assms(2) by (auto simp: handleRealtime_def Subscribe_def Let_def split: sum.splits if_splits)
  have "subscribed ?g ?d ref ?hub"
    using subscribe_inv [OF assms(1), of ?g ?d] by (simp add: subscribed_def ref Subscribe_def Let_def listeners_def)
  moreover have "sub_send (hub_heap ?hub ! ref) = []" by (simp add: ref Subscribe_def Let_def)
  ultimately have "sub_send (hub_heap (sv_hub sv') ! ref) = take sendBuffer (map EventPeerOnline (toPeers peers)) \<and> subscribed ?g ?d ref (sv_hub sv')"
    using replays [of ?g ?d ref ?sv EventPeerOnline "toPeers peers"] assms(3) by (simp add: sv' sendCurrentPeers_def)
  moreover have "sv_db (fold (\<lambda>p. send_to ?g ?d (EventPeerOnline p)) ps k) = sv_db k" for ps k
    by (induction ps arbitrary: k) (simp_all add: send_to_def)
  ultimately show ?thesis using assms(3) by (simp add: sv' sendCurrentPeers_def)
qed


section \<open>Registrations\<close>

text \<open>What can happen to the nonces until a time: claims made no later than it, and everything else.\<close>

definition nonce_run :: "instant \<Rightarrow> db \<Rightarrow> db \<Rightarrow> bool" where
  "nonce_run t = (\<lambda>a b. db_nonces b = db_nonces a \<or>
     (\<exists>n at. at \<le> t \<and> b = snd (ClaimRegisterNonce n (2 * RegisterMaxSkew) at a)))\<^sup>*\<^sup>*"

lemma unix_mono: "a \<le> b \<Longrightarrow> unix a \<le> unix b"
  by (simp add: unix_def zdiv_mono1)

lemma nonce_stays:
  assumes "nonce_run t db db'" "(n, s) \<in> set (db_nonces db)" "unix (t - 2 * RegisterMaxSkew) < s"
  shows "(n, s) \<in> set (db_nonces db')"
  using assms(1) unfolding nonce_run_def
proof (induction rule: rtranclp_induct)
  case base
  then show ?case by (rule assms(2))
next
  case (step a b)
  have "unix (at - 2 * RegisterMaxSkew) < s" if "at \<le> t" for at
    using unix_mono [of "at - 2 * RegisterMaxSkew" "t - 2 * RegisterMaxSkew"] that assms(3) by simp
  then show ?case
    using step(2,3) by (fastforce simp: ClaimRegisterNonce_def Let_def delete_where_def)
qed

lemma RegisterDevice_nonces: "db_nonces (snd (RegisterDevice h token d now db)) = db_nonces db"
  by (auto simp: RegisterDevice_def upsert_device_def store_write_def split: option.splits sum.splits if_splits)

lemma error_status [simp]:
  "rp_status (writeError n c m) = n" "rp_status (writeJSON n b) = n" "rp_status rate_limited = 429" "rp_status unreadable = 400"
  "rp_status (fail_reply e c m) \<noteq> 201"
  by (simp_all add: writeError_def writeJSON_def rate_limited_def unreadable_def fail_reply_def split: store_error.splits)

lemma handleRegisterDevice_201:
  assumes "handleRegisterDevice C h (Some req) client token t sv = (r, sv')" "rp_status r = 201"
  shows "\<bar>t - rr_IssuedAt req * second\<bar> \<le> RegisterMaxSkew \<and>
    rr_Nonce req \<notin> fst ` set (delete_where (\<lambda>(n, at). at \<le> unix (t - 2 * RegisterMaxSkew)) (db_nonces (sv_db sv))) \<and>
    (rr_Nonce req, unix t) \<in> set (db_nonces (sv_db sv'))"
proof -
  obtain ok l where l: "allow client t (sv_devices sv) = (ok, l)" by (cases "allow client t (sv_devices sv)")
  obtain fresh db1 where claim: "ClaimRegisterNonce (rr_Nonce req) (2 * RegisterMaxSkew) t (sv_db sv) = (fresh, db1)"
    by (cases "ClaimRegisterNonce (rr_Nonce req) (2 * RegisterMaxSkew) t (sv_db sv)")
  let ?d = "\<lparr>dev_id = rr_DeviceID req, dev_public_key = rr_PublicKey req, dev_transport_key = rr_TransportKey req,
    dev_name = rr_DeviceName req, dev_nickname = TrimSpace (rr_DeviceName req), dev_created_at = 0, dev_last_seen_at = 0\<rparr>"
  obtain res db2 where reg: "RegisterDevice h token ?d t db1 = (res, db2)" by (cases "RegisterDevice h token ?d t db1")
  have keep: "db_nonces db2 = db_nonces db1" using RegisterDevice_nonces [of h token ?d t db1] reg by simp
  have "ok" "fresh" "\<not> RegisterMaxSkew < t - rr_IssuedAt req * second" "\<not> t - rr_IssuedAt req * second < - RegisterMaxSkew"
    and db: "sv_db sv' = db2"
    using assms l claim reg
    by (auto simp: handleRegisterDevice_def Let_def split: bool.splits if_splits sum.splits store_error.splits)
  then show ?thesis
    using claim keep by (auto simp: ClaimRegisterNonce_def Let_def split: if_splits)
qed

lemma boundary_arith:
  fixes t t' i :: int
  assumes "\<not> (t' - 600 * second) div second < t div second"
    and "i * second - t \<le> 300 * second" "t' - i * second \<le> 300 * second"
  shows "t' = i * second + 300 * second \<and> t div second = i - 300"
proof -
  have "(i - 300) * second div second \<le> t div second" using assms(2) by (intro zdiv_mono1) simp_all
  then have "i - 300 \<le> t div second" by simp
  moreover have "(t' - 600 * second) div second * second \<le> t' - 600 * second" by (simp add: minus_mod_eq_div_mult [symmetric])
  ultimately show ?thesis using assms(1,3) by linarith
qed


section \<open>A removal between two calls\<close>

lemma Membership_Inr:
  assumes "Membership g d db = Inr m"
  obtains row r where "row \<in> set (db_memberships db)" "is_place g d row" "active row" "r \<in> set (db_groups db)" "grp_id r = g"
    "M_ID m = mem_id row" "M_GroupID m = g" "M_DeviceID m = d" "mem_virtual_ip row = Some (M_VirtualIP m)"
  using assms
  by (auto simp: Membership_def place_def group_row_by_id_def to_membership_def is_place_def
      split: option.splits if_splits dest!: find_SomeD)

lemma SessionByID_last:
  assumes "i \<notin> ses_id ` set ss" "db_sessions db = ss @ [s]" "ses_id s = i"
    and "distinct (map mem_id (db_memberships db))" "row \<in> set (db_memberships db)" "mem_id row = ses_membership_id s"
    and "mem_virtual_ip row = Some ip"
  shows "SessionByID i db = Inr \<lparr>S_ID = i, S_GroupID = ses_group_id s, S_MembershipID = ses_membership_id s,
    S_DeviceID = mem_device_id row, S_VirtualIP = ip\<rparr>"
proof -
  have "find (\<lambda>x. ses_id x = i) (ts @ [s]) = Some s" if "i \<notin> ses_id ` set ts" for ts
    using that assms(3) by (induction ts) auto
  then have "find (\<lambda>x. ses_id x = i) (db_sessions db) = Some s" using assms(1,2) by simp
  moreover have "membership_by_id (ses_membership_id s) db = Some row"
    using find_key [OF assms(4), of "ses_membership_id s" row] assms(5,6) by (simp add: membership_by_id_def)
  ultimately show ?thesis using assms(7) by (simp add: SessionByID_def)
qed

text \<open>
A removal between two calls of a connect goes unnoticed. Connecting reads the membership and then creates the
session; if the member is removed in between, the session is created all the same, for somebody who is no
member any more.
\<close>

theorem removed_member_connects:
  assumes inv: "store_inv db" and read: "Membership g d db = Inr m"
    and removed: "RemoveMember g owner d now db = (Inr (), db')"
    and id: "NewID ''ses'' raw = Some i" "i \<notin> ses_id ` set (db_sessions db)"
  shows "\<exists>s db''. CreateSession raw m t db' = (Inr s, db'') \<and> SessionByID i db'' = Inr s \<and> S_DeviceID s = d \<and> S_GroupID s = g \<and>
    Membership g d db'' = Inl ErrNotFound"
proof -
  let ?f = "\<lambda>m. m\<lparr>mem_revoked_at := Some (unix now), mem_banned_at := Some (unix now)\<rparr>"
  have ms: "db_memberships db' = update_where (\<lambda>m. is_place g d m \<and> active m) ?f (db_memberships db)"
    and groups: "db_groups db' = db_groups db" and ses: "set (db_sessions db') \<subseteq> set (db_sessions db)"
    using removed by (auto simp: RemoveMember_def store_write_def Let_def set_delete_where split: option.splits if_splits)
  have inv': "store_inv db'" using RemoveMember_inv [OF inv, of g owner d now] removed by simp
  from read obtain row r where row: "row \<in> set (db_memberships db)" "is_place g d row" "active row"
    and r: "r \<in> set (db_groups db)" "grp_id r = g"
    and m: "M_ID m = mem_id row" "M_GroupID m = g" "M_DeviceID m = d" "mem_virtual_ip row = Some (M_VirtualIP m)"
    by (rule Membership_Inr)
  have row': "?f row \<in> set (db_memberships db')"
    unfolding ms set_update_where using row by (intro image_eqI [of _ _ row]) simp_all
  let ?rest = "delete_where (\<lambda>s. ses_membership_id s = M_ID m) (db_sessions db')"
  let ?s = "\<lparr>ses_id = i, ses_group_id = g, ses_membership_id = M_ID m, ses_endpoint = None,
    ses_connected_at = unix t, ses_last_seen_at = unix t\<rparr>"
  let ?db = "db'\<lparr>db_sessions := ?rest @ [?s]\<rparr>"
  have fresh: "i \<notin> ses_id ` set ?rest" using id(2) ses by (auto simp: set_delete_where)
  have "membership_by_id (M_ID m) db' \<noteq> None" "group_row_by_id g db' \<noteq> None"
    using imageI [OF row', of mem_id] m(1) imageI [OF r(1), of grp_id] r(2) by (simp_all add: row_by_key groups)
  then have create: "CreateSession raw m t db' = (Inr \<lparr>S_ID = i, S_GroupID = g, S_MembershipID = M_ID m, S_DeviceID = d,
      S_VirtualIP = M_VirtualIP m\<rparr>, ?db)"
    using id(1) fresh m by (simp add: CreateSession_def store_write_def Let_def)
  have "SessionByID i ?db = Inr \<lparr>S_ID = i, S_GroupID = g, S_MembershipID = M_ID m, S_DeviceID = d, S_VirtualIP = M_VirtualIP m\<rparr>"
    using SessionByID_last [OF fresh, of ?db ?s "?f row" "M_VirtualIP m"] row' row m store_invD(5) [OF inv']
    by (simp add: members_ok_def is_place_def)
  moreover have "Membership g d ?db = Inl ErrNotFound"
  proof -
    have "place g d db' = Some (?f row)" using place_Some [OF inv'] row' row(2) by simp
    then show ?thesis by (simp add: Membership_def place_def)
  qed
  ultimately show ?thesis using create by auto
qed

text \<open>
The landing page answers past the rate limit. When a client is out of attempts the API refuses to say what a code
opens, and the page of the same code still tells a code that opens a group from one that does not.
\<close>

theorem page_escapes_limit:
  assumes "allow client now (sv_joins sv) = (False, l)"
  shows "handleInvite c client now sv = (rate_limited, sv\<lparr>sv_joins := l\<rparr>) \<and>
    (\<forall>found. findInvite c (sv_db sv) = Inr found \<longrightarrow>
       handleInvitePage c sv = (200, Some (found, members_text (ai_Members found), DeepLink (ai_Code found)))) \<and>
    (findInvite c (sv_db sv) = Inl ErrNotFound \<longrightarrow> handleInvitePage c sv = (404, None))"
  using assms by (simp add: handleInvite_def handleInvitePage_def)

section \<open>Examples\<close>


definition toy_server :: server where
  "toy_server = NewServer toy_db"

lemma toy_server_db [simp]: "sv_db toy_server = toy_db" "hub_inv (sv_hub toy_server)"
  by (simp_all add: toy_server_def NewServer_def hub_inv_def NewHub_def listeners_def)

lemma toy_allow: "allow ''a'' 0 (sv_joins toy_server) = (True, snd (allow ''a'' 0 (sv_joins toy_server)))"
  by (simp add: toy_server_def NewServer_def allow_def newRateLimiter_def attempts_of_def Let_def)

lemma toy_codes: "Parse ''zzzz'' = ''zzzz''" "Parse ''abcdefgh'' = ''abcdefgh''"
  by (rule Parse_code; simp add: code_char_def is_lower_def)+

theorem failed_joins_look_alike_witness:
  "fst (handleJoinByCode (Some ''zzzz'') ''a'' None 0 (toy_device ''bob'') toy_server) = invite_gone 403"
proof -
  have "GroupByInviteCode (Parse ''zzzz'') (sv_db toy_server) = Inl ErrNotFound"
    by (simp add: toy_codes GroupByInviteCode_def toy_db_defs)
  then show ?thesis
    using failed_joins_look_alike [OF _ _ toy_allow, of "''zzzz''" "toy_device ''bob''" None] toy_db_inv by (simp add: toy_codes)
qed

lemma toy_session:
  "SessionByID ''s'' toy_db = Inr \<lparr>S_ID = ''s'', S_GroupID = ''grp'', S_MembershipID = ''m-bob'', S_DeviceID = ''bob'', S_VirtualIP = ''10.69.0.2''\<rparr>"
  by (simp add: SessionByID_def membership_by_id_def toy_db_defs)

theorem foreign_session_is_missing_witness:
  "handleHeartbeat ''s'' 9 (toy_device ''ann'') toy_server = (session_gone, toy_server)"
  using foreign_session_is_missing [of "''s''" toy_server "toy_device ''ann''" "\<lambda>_. True" None 9]
  by (simp add: toy_session) (simp add: toy_device_def)

theorem code_only_to_owner_witness:
  "\<exists>m ms. fst (handleListGroups (toy_device ''ann'') toy_server) = writeJSON 200 (MembershipsBody ms) \<and> m \<in> set ms \<and>
     am_InviteCode m = ''abcdefgh'' \<and> owns (am_GroupID m) ''ann'' toy_db"
proof -
  obtain m where m: "fst (handleListGroups (toy_device ''ann'') toy_server) = writeJSON 200 (MembershipsBody [m])"
    "am_InviteCode m = ''abcdefgh''"
    by (simp add: handleListGroups_def MembershipsByDevice_def toy_server_db) (simp add: toy_db_defs scan_all_def to_membership_def toMembership_def group_row_by_id_def writeJSON_def)
  have "owns (am_GroupID m) (dev_id (toy_device ''ann'')) (sv_db toy_server)"
    using code_only_to_owner [OF m(1)] m(2) by simp
  then have "owns (am_GroupID m) ''ann'' toy_db" by (simp add: toy_device_def)
  with m show ?thesis by (intro exI [of _ m] exI [of _ "[m]"]) simp
qed

theorem realtime_replays_sixteen_witness:
  "sub_send (hub_heap (sv_hub (snd (handleRealtime ''s'' (toy_device ''bob'') toy_server))) ! 0) = []"
proof -
  let ?s = "\<lparr>S_ID = ''s'', S_GroupID = ''grp'', S_MembershipID = ''m-bob'', S_DeviceID = ''bob'', S_VirtualIP = ''10.69.0.2''\<rparr>"
  have "handleRealtime ''s'' (toy_device ''bob'') toy_server =
      (Inr (?s, 0), snd (handleRealtime ''s'' (toy_device ''bob'') toy_server))"
    by (simp add: handleRealtime_def toy_session) (simp add: toy_device_def Subscribe_def toy_server_def NewServer_def NewHub_def)
  moreover have "PeersInGroup ''grp'' ''bob'' toy_db = Inr []"
    by (simp add: PeersInGroup_def toy_db_defs scan_all_def)
  ultimately show ?thesis
    using realtime_replays_sixteen [of toy_server "''s''" "toy_device ''bob''" ?s 0 _ "[]"]
    by (simp add: toPeers_def) (simp add: toy_device_def)
qed

theorem removed_member_connects_witness:
  "\<exists>m s db''. Membership ''grp'' ''bob'' toy_db = Inr m \<and>
     CreateSession (Some [1]) m 9 (snd (RemoveMember ''grp'' ''ann'' ''bob'' 8 toy_db)) = (Inr s, db'') \<and>
     S_DeviceID s = ''bob'' \<and> Membership ''grp'' ''bob'' db'' = Inl ErrNotFound"
proof -
  obtain m where read: "Membership ''grp'' ''bob'' toy_db = Inr m"
    by (simp add: Membership_def place_def is_place_def group_row_by_id_def to_membership_def toy_db_defs)
  have removed: "RemoveMember ''grp'' ''ann'' ''bob'' 8 toy_db = (Inr (), snd (RemoveMember ''grp'' ''ann'' ''bob'' 8 toy_db))"
    by (simp add: RemoveMember_def store_write_def Let_def ownerOnly_def is_place_def toy_db_defs)
  obtain i where "NewID ''ses'' (Some [1]) = Some (''ses_'' @ i)" by (simp add: NewID_def)
  from removed_member_connects [OF toy_db_inv read removed this, of 9] read
  show ?thesis by (auto simp: toy_db_defs)
qed

theorem page_escapes_limit_witness:
  "let sv = toy_server\<lparr>sv_joins := newRateLimiter 0 minute\<rparr>
   in fst (handleInvite ''abcdefgh'' ''a'' 0 sv) = rate_limited \<and> fst (handleInvitePage ''abcdefgh'' sv) = 200 \<and>
      fst (handleInvitePage ''zzzz'' sv) = 404"
proof -
  let ?sv = "toy_server\<lparr>sv_joins := newRateLimiter 0 minute\<rparr>"
  have out: "allow ''a'' 0 (sv_joins ?sv) = (False, snd (allow ''a'' 0 (sv_joins ?sv)))"
    by (simp add: allow_def newRateLimiter_def Let_def)
  have "GroupByInviteCode ''abcdefgh'' toy_db = Inr (to_group toy_group_row)"
    using code_lookup [OF toy_db_inv, of toy_group_row] by (simp add: toy_db_def) (simp add: toy_group_row_def)
  then obtain found where "findInvite ''abcdefgh'' (sv_db ?sv) = Inr found"
    by (simp add: findInvite_def toy_codes)
  moreover have "findInvite ''zzzz'' (sv_db ?sv) = Inl ErrNotFound"
    by (simp add: findInvite_def toy_codes GroupByInviteCode_def toy_db_defs)
  ultimately show ?thesis
    using page_escapes_limit [OF out, of "''abcdefgh''"] page_escapes_limit [OF out, of "''zzzz''"] by (simp add: Let_def)
qed

text \<open>A registration issued five minutes ahead of the server's clock, and presented again ten minutes later.\<close>

definition toy_request :: register_request where
  "toy_request = \<lparr>rr_DeviceID = ''dan'', rr_PublicKey = ''AAAAAAAAAAAAAAAAAAAAAAAAAAAAAAAA'', rr_TransportKey = ''t'', rr_DeviceName = ''pc'',
     rr_IssuedAt = 300, rr_Nonce = ''n'', rr_Signature = ''AAAAAAAAAAAAAAAAAAAAAAAAAAAAAAAA''\<rparr>"

lemma toy_verifies: "VerifyRegister toy_crypto (rr_PublicKey toy_request) d tk (rr_Signature toy_request) at nonce = None"
  by (simp add: VerifyRegister_None toy_crypto_def toy_request_def)

definition open_to_dan :: "string \<Rightarrow> server \<Rightarrow> bool" where
  "open_to_dan tok sv \<longleftrightarrow>
     (\<forall>r\<in>set (db_devices (sv_db sv)). dev_public_key r = rr_PublicKey toy_request \<longrightarrow> dev_id r = ''dan'') \<and>
     tok \<notin> tok_hash ` set (db_tokens (sv_db sv))"

lemma toy_registration:
  assumes "fst (allow ''a'' now (sv_devices sv))" "\<bar>now - 300 * second\<bar> \<le> 300 * second"
    and "\<forall>(n, at)\<in>set (db_nonces (sv_db sv)). at \<le> unix (now - 600 * second)" "open_to_dan tok sv"
  shows "\<exists>sv'. handleRegisterDevice toy_crypto (\<lambda>t. t) (Some toy_request) ''a'' (Some tok) now sv = (writeJSON 201 (TokenBody tok), sv') \<and>
    sv_devices sv' = snd (allow ''a'' now (sv_devices sv)) \<and> db_nonces (sv_db sv') = [(''n'', unix now)] \<and>
    (\<forall>tok'. tok' \<noteq> tok \<longrightarrow> open_to_dan tok' sv \<longrightarrow> open_to_dan tok' sv')"
proof -
  let ?d = "\<lparr>dev_id = ''dan'', dev_public_key = rr_PublicKey toy_request, dev_transport_key = ''t'',
      dev_name = ''pc'', dev_nickname = TrimSpace ''pc'', dev_created_at = 0, dev_last_seen_at = 0\<rparr>"
  let ?db = "(sv_db sv)\<lparr>db_nonces := [(''n'', unix now)]\<rparr>"
  have "delete_where (\<lambda>(n, at). at \<le> unix (now - 2 * RegisterMaxSkew)) (db_nonces (sv_db sv)) = []"
    using assms(3) by (auto simp: delete_where_def RegisterMaxSkew_def filter_empty_conv)
  then have claim: "ClaimRegisterNonce ''n'' (2 * RegisterMaxSkew) now (sv_db sv) = (True, ?db)"
    by (simp add: ClaimRegisterNonce_def Let_def)
  have "\<not> (\<exists>r\<in>set (db_devices ?db). dev_id r \<noteq> dev_id ?d \<and> dev_public_key r = dev_public_key ?d)"
    using assms(4) by (auto simp: open_to_dan_def)
  then have "\<exists>db. upsert_device ?d (unix now) ?db = Inr db \<and> db_tokens db = db_tokens ?db \<and> db_nonces db = db_nonces ?db \<and>
      (\<forall>r\<in>set (db_devices db). dev_public_key r = rr_PublicKey toy_request \<longrightarrow> dev_id r = ''dan'')"
    unfolding upsert_device_def by (cases "device_row ''dan'' ?db") (auto simp: set_update_where)
  then obtain db where up: "upsert_device ?d (unix now) ?db = Inr db"
    and db: "db_tokens db = db_tokens ?db" "db_nonces db = db_nonces ?db"
      "\<forall>r\<in>set (db_devices db). dev_public_key r = rr_PublicKey toy_request \<longrightarrow> dev_id r = ''dan''"
    by blast
  have skew: "\<not> RegisterMaxSkew < now - 300 * second" "\<not> now - 300 * second < - RegisterMaxSkew"
    using assms(2) by (auto simp: RegisterMaxSkew_def)
  obtain l where "allow ''a'' now (sv_devices sv) = (True, l)" using assms(1) by (cases "allow ''a'' now (sv_devices sv)") auto
  moreover have "\<exists>db'. RegisterDevice (\<lambda>t. t) (Some tok) ?d now ?db = (Inr tok, db') \<and> db_nonces db' = [(''n'', unix now)] \<and>
      db_devices db' = db_devices db \<and> tok_hash ` set (db_tokens db') = insert tok (tok_hash ` set (db_tokens (sv_db sv)))"
    using up db assms(4) by (simp add: RegisterDevice_def store_write_def open_to_dan_def)
  then obtain db' where "RegisterDevice (\<lambda>t. t) (Some tok) ?d now ?db = (Inr tok, db')" "db_nonces db' = [(''n'', unix now)]"
    "db_devices db' = db_devices db" "tok_hash ` set (db_tokens db') = insert tok (tok_hash ` set (db_tokens (sv_db sv)))"
    by blast
  ultimately show ?thesis
    using claim db(3) skew toy_verifies
    by (simp add: handleRegisterDevice_def Let_def open_to_dan_def) (simp add: toy_request_def)
qed


end
