(* ===== verification/Session.thy ===== *)
theory Session
  imports Prelude
begin

text \<open>
  The cryptography behind a link: package \<^verbatim>\<open>protocol/session\<close>, \<^verbatim>\<open>session.go\<close>. The
  Noise implementation (\<^verbatim>\<open>github.com/flynn/noise\<close>) is not part of the repository: it is
  the record \<open>noise\<close> of the operations the code calls, an argument of every definition
  that uses it. \<open>'k\<close> is a static key pair, \<open>'hs\<close> a handshake state and \<open>'cs\<close> a cipher
  state; the randomness a call draws is the \<open>nat\<close> argument.
\<close>

record ('k, 'hs, 'cs) noise =
  n_initiator :: "'k \<Rightarrow> bytes \<Rightarrow> nat \<Rightarrow> 'hs option"
  n_responder :: "'k \<Rightarrow> nat \<Rightarrow> 'hs option"
  n_write :: "'hs \<Rightarrow> 'hs \<times> (bytes \<times> 'cs option \<times> 'cs option) option"
  n_read :: "'hs \<Rightarrow> bytes \<Rightarrow> 'hs \<times> ('cs option \<times> 'cs option) option"
  n_peer_static :: "'hs \<Rightarrow> bytes"
  n_encrypt :: "'cs \<Rightarrow> u64 \<Rightarrow> bytes \<Rightarrow> bytes \<Rightarrow> bytes option"
  n_decrypt :: "'cs \<Rightarrow> u64 \<Rightarrow> bytes \<Rightarrow> bytes \<Rightarrow> bytes option"

definition KeySize :: nat where "KeySize = 32"

datatype session_error = ErrKeySize | ErrWrongRole | ErrNoise | ErrNoKeys

record 'hs handshake =
  hs_state :: 'hs
  hs_initiator :: bool

record 'cs session =
  s_send :: 'cs
  s_recv :: 'cs
  s_peerStatic :: bytes

definition NewInitiator ::
  "('k, 'hs, 'cs) noise \<Rightarrow> 'k \<Rightarrow> bytes \<Rightarrow> nat \<Rightarrow> session_error + 'hs handshake" where
  "NewInitiator N static peerStatic seed =
     (if length peerStatic \<noteq> KeySize then Inl ErrKeySize
      else case n_initiator N static peerStatic seed of
             None \<Rightarrow> Inl ErrNoise
           | Some st \<Rightarrow> Inr \<lparr>hs_state = st, hs_initiator = True\<rparr>)"

definition NewResponder ::
  "('k, 'hs, 'cs) noise \<Rightarrow> 'k \<Rightarrow> nat \<Rightarrow> session_error + 'hs handshake" where
  "NewResponder N static seed =
     (case n_responder N static seed of
        None \<Rightarrow> Inl ErrNoise
      | Some st \<Rightarrow> Inr \<lparr>hs_state = st, hs_initiator = False\<rparr>)"

text \<open>The methods below change the handshake state in place, so they return it.\<close>

definition WriteInit ::
  "('k, 'hs, 'cs) noise \<Rightarrow> 'hs handshake \<Rightarrow> 'hs handshake \<times> (session_error + bytes)" where
  "WriteInit N h =
     (if \<not> hs_initiator h then (h, Inl ErrWrongRole)
      else case n_write N (hs_state h) of
             (st, None) \<Rightarrow> (h\<lparr>hs_state := st\<rparr>, Inl ErrNoise)
           | (st, Some (msg, _, _)) \<Rightarrow> (h\<lparr>hs_state := st\<rparr>, Inr msg))"

definition ReadInit ::
  "('k, 'hs, 'cs) noise \<Rightarrow> 'hs handshake \<Rightarrow> bytes \<Rightarrow> 'hs handshake \<times> session_error option" where
  "ReadInit N h msg =
     (if hs_initiator h then (h, Some ErrWrongRole)
      else case n_read N (hs_state h) msg of
             (st, None) \<Rightarrow> (h\<lparr>hs_state := st\<rparr>, Some ErrNoise)
           | (st, Some _) \<Rightarrow> (h\<lparr>hs_state := st\<rparr>, None))"

definition WriteResponse ::
  "('k, 'hs, 'cs) noise \<Rightarrow> 'hs handshake \<Rightarrow>
     'hs handshake \<times> (session_error + bytes \<times> 'cs session)" where
  "WriteResponse N h =
     (if hs_initiator h then (h, Inl ErrWrongRole)
      else case n_write N (hs_state h) of
             (st, None) \<Rightarrow> (h\<lparr>hs_state := st\<rparr>, Inl ErrNoise)
           | (st, Some (msg, Some toResponder, Some toInitiator)) \<Rightarrow>
               (h\<lparr>hs_state := st\<rparr>,
                Inr (msg, \<lparr>s_send = toInitiator, s_recv = toResponder,
                           s_peerStatic = n_peer_static N st\<rparr>))
           | (st, Some (msg, _, _)) \<Rightarrow> (h\<lparr>hs_state := st\<rparr>, Inl ErrNoKeys))"

definition ReadResponse ::
  "('k, 'hs, 'cs) noise \<Rightarrow> 'hs handshake \<Rightarrow> bytes \<Rightarrow>
     'hs handshake \<times> (session_error + 'cs session)" where
  "ReadResponse N h msg =
     (if \<not> hs_initiator h then (h, Inl ErrWrongRole)
      else case n_read N (hs_state h) msg of
             (st, None) \<Rightarrow> (h\<lparr>hs_state := st\<rparr>, Inl ErrNoise)
           | (st, Some (Some toResponder, Some toInitiator)) \<Rightarrow>
               (h\<lparr>hs_state := st\<rparr>,
                Inr \<lparr>s_send = toResponder, s_recv = toInitiator,
                     s_peerStatic = n_peer_static N st\<rparr>)
           | (st, Some (_, _)) \<Rightarrow> (h\<lparr>hs_state := st\<rparr>, Inl ErrNoKeys))"

definition PeerStatic :: "('k, 'hs, 'cs) noise \<Rightarrow> 'hs handshake \<Rightarrow> bytes" where
  "PeerStatic N h = n_peer_static N (hs_state h)"

text \<open>
  \<open>Seal\<close> and \<open>Open\<close> set the nonce of the cipher state before every use, so the counter
  kept inside it plays no part.
\<close>

definition Seal ::
  "('k, 'hs, 'cs) noise \<Rightarrow> 'cs session \<Rightarrow> bytes \<Rightarrow> bytes \<Rightarrow> bytes \<Rightarrow> u64 \<Rightarrow> session_error + bytes" where
  "Seal N s dst additionalData plaintext counter =
     (case n_encrypt N (s_send s) counter additionalData plaintext of
        None \<Rightarrow> Inl ErrNoise
      | Some ct \<Rightarrow> Inr (dst @ ct))"

definition Open ::
  "('k, 'hs, 'cs) noise \<Rightarrow> 'cs session \<Rightarrow> bytes \<Rightarrow> bytes \<Rightarrow> bytes \<Rightarrow> u64 \<Rightarrow> session_error + bytes" where
  "Open N s dst additionalData ciphertext counter =
     (case n_decrypt N (s_recv s) counter additionalData ciphertext of
        None \<Rightarrow> Inl ErrNoise
      | Some pt \<Rightarrow> Inr (dst @ pt))"

section \<open>What the code relies on from Noise\<close>

text \<open>An AEAD opens what it sealed with the same key, nonce and additional data.\<close>

definition aead_correct :: "('k, 'hs, 'cs) noise \<Rightarrow> bool" where
  "aead_correct N \<longleftrightarrow>
     (\<forall>k n ad pt ct. n_encrypt N k n ad pt = Some ct \<longrightarrow> n_decrypt N k n ad ct = Some pt)"

text \<open>The AEAD tag is sixteen bytes.\<close>

definition aead_tag16 :: "('k, 'hs, 'cs) noise \<Rightarrow> bool" where
  "aead_tag16 N \<longleftrightarrow>
     (\<forall>k n ad pt ct. n_encrypt N k n ad pt = Some ct \<longrightarrow> length ct = length pt + 16)"

text \<open>
  The last message of the pattern gives both ends the same two cipher states, in the
  order initiator to responder first.
\<close>

definition split_agrees :: "('k, 'hs, 'cs) noise \<Rightarrow> 'hs \<Rightarrow> 'hs \<Rightarrow> bool" where
  "split_agrees N resp ini \<longleftrightarrow>
     (\<forall>st msg a b. n_write N resp = (st, Some (msg, Some a, Some b)) \<longrightarrow>
        (\<exists>st'. n_read N ini msg = (st', Some (Some a, Some b))))"

lemma Seal_Inr: "Seal N s dst ad pt c = Inr out \<longleftrightarrow>
    (\<exists>ct. n_encrypt N (s_send s) c ad pt = Some ct \<and> out = dst @ ct)"
  by (auto simp: Seal_def split: option.splits)

lemma Open_Inr: "Open N s dst ad ct c = Inr out \<longleftrightarrow>
    (\<exists>pt. n_decrypt N (s_recv s) c ad ct = Some pt \<and> out = dst @ pt)"
  by (auto simp: Open_def split: option.splits)

lemma WriteResponse_Inr:
  "WriteResponse N h = (h', Inr (msg, s)) \<Longrightarrow>
     \<exists>st. n_write N (hs_state h) = (st, Some (msg, Some (s_recv s), Some (s_send s)))"
  by (auto simp: WriteResponse_def split: if_splits prod.splits option.splits)

section \<open>Properties\<close>

text \<open>
C30: after the two handshake messages the ends hold opposite directions of the same two
keys. When the responder's reply opens a session and the initiator reads it, the
initiator gets a session too, each end receives with the key the other sends with, and
what either end seals under a counter and header the other end opens to the same bytes.
\<close>

theorem handshake_sessions_match:
  assumes "split_agrees N (hs_state r) (hs_state i)" and "aead_correct N"
    and "hs_initiator i"
    and "WriteResponse N r = (r', Inr (msg, rs))"
  shows "\<exists>i' ini. ReadResponse N i msg = (i', Inr ini) \<and>
      s_send ini = s_recv rs \<and> s_recv ini = s_send rs \<and>
      (\<forall>ad pt c out. Seal N ini [] ad pt c = Inr out \<longrightarrow> Open N rs [] ad out c = Inr pt) \<and>
      (\<forall>ad pt c out. Seal N rs [] ad pt c = Inr out \<longrightarrow> Open N ini [] ad out c = Inr pt)"
proof -
  obtain st where "n_write N (hs_state r) = (st, Some (msg, Some (s_recv rs), Some (s_send rs)))"
    using WriteResponse_Inr [OF assms(4)] by blast
  then obtain st' where
    read: "n_read N (hs_state i) msg = (st', Some (Some (s_recv rs), Some (s_send rs)))"
    using assms(1) by (auto simp: split_agrees_def)
  define ini where "ini = \<lparr>s_send = s_recv rs, s_recv = s_send rs, s_peerStatic = n_peer_static N st'\<rparr>"
  have "ReadResponse N i msg = (i\<lparr>hs_state := st'\<rparr>, Inr ini)"
    using assms(3) read by (simp add: ReadResponse_def ini_def)
  moreover have "s_send ini = s_recv rs" "s_recv ini = s_send rs"
    by (simp_all add: ini_def)
  ultimately show ?thesis
    using assms(2) by (auto simp: Seal_Inr Open_Inr aead_correct_def)
qed

text \<open>
  A Noise instance for examples: a key is a byte that is prepended sixteen times, and the
  handshake always agrees on the keys 1 and 2.
\<close>

definition toy_noise :: "(bytes, bytes, byte) noise" where
  "toy_noise = \<lparr>
     n_initiator = (\<lambda>k peer _. Some peer),
     n_responder = (\<lambda>k _. Some []),
     n_write = (\<lambda>st. (st, Some (st, Some 1, Some 2))),
     n_read = (\<lambda>st msg. (msg, Some (Some 1, Some 2))),
     n_peer_static = (\<lambda>st. st),
     n_encrypt = (\<lambda>k n ad pt. Some (replicate 16 k @ pt)),
     n_decrypt = (\<lambda>k n ad ct. if take 16 ct = replicate 16 k then Some (drop 16 ct) else None)\<rparr>"

lemma toy_noise_ok:
  "aead_correct toy_noise" "aead_tag16 toy_noise" "split_agrees toy_noise r i"
  by (simp_all add: aead_correct_def aead_tag16_def split_agrees_def toy_noise_def)

theorem handshake_sessions_match_witness:
  "let r = \<lparr>hs_state = [], hs_initiator = False\<rparr>; i = \<lparr>hs_state = [7], hs_initiator = True\<rparr>;
       rs = \<lparr>s_send = 2, s_recv = 1, s_peerStatic = []\<rparr>
   in WriteResponse toy_noise r = (r, Inr ([], rs)) \<and>
      (\<exists>i' ini. ReadResponse toy_noise i [] = (i', Inr ini) \<and> s_send ini = s_recv rs)"
proof -
  let ?r = "\<lparr>hs_state = [], hs_initiator = False\<rparr>" and ?i = "\<lparr>hs_state = [7], hs_initiator = True\<rparr>"
  have "WriteResponse toy_noise ?r = (?r, Inr ([], \<lparr>s_send = 2, s_recv = 1, s_peerStatic = []\<rparr>))"
    by (simp add: WriteResponse_def toy_noise_def)
  from this handshake_sessions_match [OF toy_noise_ok(3,1) _ this, of ?i]
  show ?thesis by (auto simp: Let_def)
qed

end
