(* ===== verification/Replay.thy ===== *)
theory Replay
  imports Prelude
begin

text \<open>
  The replay window of a link: package \<^verbatim>\<open>protocol/session\<close>, \<^verbatim>\<open>replay.go\<close>. The
  bitmap of \<open>ReplayWindow\<close> is refined against the set of all counters ever accepted,
  and the locale \<open>replay_filter\<close> carries what the rest of the daemon relies on to whole
  packet sequences.
\<close>

record replay_window =
  highest :: u64
  seen :: u64
  started :: bool

definition WindowSize :: nat where "WindowSize = 64"

definition empty_window :: replay_window where
  "empty_window = \<lparr>highest = 0, seen = 0, started = False\<rparr>"

definition Accept :: "replay_window \<Rightarrow> u64 \<Rightarrow> bool \<times> replay_window" where
  "Accept w counter =
     (if \<not> started w then (True, w\<lparr>started := True, highest := counter, seen := 1\<rparr>)
      else if counter > highest w then
        let shift = counter - highest w;
            s = (if unat shift \<ge> WindowSize then 0 else push_bit (unat shift) (seen w))
        in (True, w\<lparr>seen := s OR 1, highest := counter\<rparr>)
      else
        let behind = highest w - counter
        in if unat behind \<ge> WindowSize then (False, w)
           else if seen w AND push_bit (unat behind) 1 \<noteq> 0 then (False, w)
           else (True, w\<lparr>seen := seen w OR push_bit (unat behind) 1\<rparr>))"

section \<open>What a replay filter promises\<close>

text \<open>
  The abstract filter keeps the set of all counters it ever accepted. A counter passes
  when it is new and not too far behind the newest one.
\<close>

definition fresh :: "u64 set \<Rightarrow> u64 \<Rightarrow> bool" where
  "fresh S c \<longleftrightarrow> c \<notin> S \<and> (\<forall>h\<in>S. unat h < unat c + WindowSize)"

text \<open>A filter run over a sequence of counters, and the same run on the accepted set.\<close>

fun accept_run :: "('w \<Rightarrow> u64 \<Rightarrow> bool \<times> 'w) \<Rightarrow> 'w \<Rightarrow> u64 list \<Rightarrow> bool list \<times> 'w" where
  "accept_run accept w [] = ([], w)"
| "accept_run accept w (c # cs) =
     (let (ok, w') = accept w c; (oks, w'') = accept_run accept w' cs in (ok # oks, w''))"

fun fresh_run :: "u64 set \<Rightarrow> u64 list \<Rightarrow> bool list" where
  "fresh_run S [] = []"
| "fresh_run S (c # cs) = fresh S c # fresh_run (if fresh S c then insert c S else S) cs"

lemma length_fresh_run [simp]: "length (fresh_run S cs) = length cs"
  by (induction cs arbitrary: S) simp_all

lemma fresh_run_seen: "c \<in> S \<Longrightarrow> i < length cs \<Longrightarrow> cs ! i = c \<Longrightarrow> \<not> fresh_run S cs ! i"
proof (induction cs arbitrary: S i)
  case Nil
  then show ?case by simp
next
  case (Cons d cs)
  then show ?case by (cases i) (auto simp: fresh_def)
qed

lemma fresh_run_once:
  "i < j \<Longrightarrow> j < length cs \<Longrightarrow> cs ! i = cs ! j \<Longrightarrow> fresh_run S cs ! i \<Longrightarrow> \<not> fresh_run S cs ! j"
proof (induction cs arbitrary: S i j)
  case Nil
  then show ?case by simp
next
  case (Cons d cs)
  then obtain j' where j: "j = Suc j'" by (cases j) auto
  show ?case
  proof (cases i)
    case 0
    with Cons.prems j have "fresh S d" "j' < length cs" "cs ! j' = d" by auto
    then show ?thesis
      using fresh_run_seen [of d "insert d S" j' cs] by (simp add: j)
  next
    case (Suc i')
    with j Cons.prems Cons.IH show ?thesis by simp
  qed
qed

locale replay_filter =
  fixes accept :: "'w \<Rightarrow> u64 \<Rightarrow> bool \<times> 'w"
    and empty :: 'w
    and rel :: "'w \<Rightarrow> u64 set \<Rightarrow> bool"
  assumes rel_empty: "rel empty {}"
    and rel_accept: "rel w S \<Longrightarrow> fst (accept w c) = fresh S c"
    and rel_step: "rel w S \<Longrightarrow> rel (snd (accept w c)) (if fresh S c then insert c S else S)"
begin

lemma run_fresh: "rel w S \<Longrightarrow> fst (accept_run accept w cs) = fresh_run S cs"
proof (induction cs arbitrary: w S)
  case Nil
  then show ?case by simp
next
  case (Cons c cs)
  have "fst (accept_run accept (snd (accept w c)) cs)
      = fresh_run (if fresh S c then insert c S else S) cs"
    by (rule Cons.IH [OF rel_step [OF Cons.prems]])
  with rel_accept [OF Cons.prems, of c] show ?case
    by (simp add: Let_def split_beta)
qed

lemma never_twice:
  assumes "i < j" "j < length cs" "cs ! i = cs ! j" "fst (accept_run accept empty cs) ! i"
  shows "\<not> fst (accept_run accept empty cs) ! j"
  using assms fresh_run_once [of i j cs "{}"] by (simp add: run_fresh [OF rel_empty])

end

section \<open>The bitmap implements it\<close>

text \<open>
  The window represents a set of accepted counters: the newest is \<open>highest\<close>, and bit
  \<open>n\<close> of the bitmap says whether the counter \<open>n\<close> behind it was accepted.
\<close>

definition window_rel :: "replay_window \<Rightarrow> u64 set \<Rightarrow> bool" where
  "window_rel w S \<longleftrightarrow>
     (if started w
      then highest w \<in> S \<and> (\<forall>c\<in>S. unat c \<le> unat (highest w)) \<and>
           (\<forall>n<64. bit (seen w) n \<longleftrightarrow> (\<exists>c\<in>S. unat c + n = unat (highest w)))
      else S = {})"

lemma and_push_bit_1: "(x :: u64) AND 2 ^ n \<noteq> 0 \<longleftrightarrow> n < 64 \<and> bit x n"
  by (auto simp: bit_eq_iff [where 'a = "64 word"] bit_simps)

lemma bit_or_1: "bit ((x :: u64) OR 1) n \<longleftrightarrow> n = 0 \<or> bit x n"
  by (auto simp: bit_simps bit_1_iff)

lemma fresh_started:
  "started w \<Longrightarrow> window_rel w S \<Longrightarrow>
     fresh S c \<longleftrightarrow> c \<notin> S \<and> unat (highest w) < unat c + 64"
  by (force simp: fresh_def window_rel_def WindowSize_def)

lemma Accept_ahead:
  assumes "window_rel w S" "started w" "highest w < c"
  shows "fst (Accept w c)" "fresh S c" "window_rel (snd (Accept w c)) (insert c S)"
proof -
  let ?d = "unat c - unat (highest w)"
  have h: "unat (highest w) < unat c"
    using assms(3) by (simp add: word_less_nat_alt)
  have shift: "unat (c - highest w) = ?d"
    using assms(3) by (simp add: unat_sub)
  have S: "highest w \<in> S" "\<And>x. x \<in> S \<Longrightarrow> unat x \<le> unat (highest w)"
    and bits: "\<And>n. n < 64 \<Longrightarrow> bit (seen w) n \<longleftrightarrow> (\<exists>x\<in>S. unat x + n = unat (highest w))"
    using assms(1,2) by (auto simp: window_rel_def)
  have below: "unat x \<le> unat c" if "x \<in> S" for x
    using S(2) [OF that] h by simp
  have new: "c \<notin> S" using S(2) [of c] h by auto
  show "fst (Accept w c)"
    using assms(2,3) by (simp add: Accept_def Let_def)
  show "fresh S c"
    using fresh_started [OF assms(2,1)] new h by simp
  have old: "(\<exists>x\<in>insert c S. unat x + n = unat c) \<longleftrightarrow>
      n = 0 \<or> ?d \<le> n \<and> (\<exists>x\<in>S. unat x + (n - ?d) = unat (highest w))" for n
  proof
    assume "\<exists>x\<in>insert c S. unat x + n = unat c"
    then consider "n = 0" | x where "x \<in> S" "unat x + n = unat c" by auto
    then show "n = 0 \<or> ?d \<le> n \<and> (\<exists>x\<in>S. unat x + (n - ?d) = unat (highest w))"
    proof cases
      case (2 x)
      with S(2) [of x] h have "?d \<le> n" "unat x + (n - ?d) = unat (highest w)" by linarith+
      with 2 show ?thesis by blast
    qed simp
  next
    assume "n = 0 \<or> ?d \<le> n \<and> (\<exists>x\<in>S. unat x + (n - ?d) = unat (highest w))"
    then consider "n = 0" | x where "?d \<le> n" "x \<in> S" "unat x + (n - ?d) = unat (highest w)" by auto
    then show "\<exists>x\<in>insert c S. unat x + n = unat c"
    proof cases
      case (2 x)
      with h have "unat x + n = unat c" by linarith
      with 2 show ?thesis by blast
    qed simp
  qed
  have "bit (if ?d \<ge> 64 then 0 else push_bit ?d (seen w)) n \<longleftrightarrow>
      ?d \<le> n \<and> (\<exists>x\<in>S. unat x + (n - ?d) = unat (highest w))" if "n < 64" for n
    using that bits [of "n - ?d"] by (auto simp: bit_simps)
  then show "window_rel (snd (Accept w c)) (insert c S)"
    using assms(2,3) S h below
    by (auto simp: Accept_def Let_def shift WindowSize_def window_rel_def bit_or_1 old
        simp del: bex_simps)
qed

lemma Accept_behind:
  assumes "window_rel w S" "started w" "c \<le> highest w"
  shows "fst (Accept w c) = fresh S c"
    and "window_rel (snd (Accept w c)) (if fresh S c then insert c S else S)"
proof -
  let ?b = "unat (highest w) - unat c"
  have h: "unat c \<le> unat (highest w)"
    using assms(3) by (simp add: word_le_nat_alt)
  have behind: "unat (highest w - c) = ?b"
    using assms(3) by (simp add: unat_sub)
  have bits: "\<And>n. n < 64 \<Longrightarrow> bit (seen w) n \<longleftrightarrow> (\<exists>x\<in>S. unat x + n = unat (highest w))"
    using assms(1,2) by (auto simp: window_rel_def)
  have here: "(\<exists>x\<in>S. unat x + ?b = unat (highest w)) \<longleftrightarrow> c \<in> S"
  proof -
    have "unat x + ?b = unat (highest w) \<longleftrightarrow> x = c" for x
      using h by (auto simp: word_unat_eq_iff)
    then show ?thesis by auto
  qed
  have fresh: "fresh S c \<longleftrightarrow> ?b < 64 \<and> \<not> bit (seen w) ?b"
  proof -
    have "unat (highest w) < unat c + 64 \<longleftrightarrow> ?b < 64" using h by linarith
    with fresh_started [OF assms(2,1), of c] bits [of ?b] here show ?thesis by blast
  qed
  have acc: "Accept w c = (if fresh S c then (True, w\<lparr>seen := seen w OR push_bit ?b 1\<rparr>) else (False, w))"
    using assms(2,3) by (auto simp: Accept_def Let_def behind WindowSize_def fresh and_push_bit_1)
  show "fst (Accept w c) = fresh S c"
    by (simp add: acc)
  have "(\<exists>x\<in>insert c S. unat x + n = unat (highest w)) \<longleftrightarrow>
      n = ?b \<or> (\<exists>x\<in>S. unat x + n = unat (highest w))" for n
    using h by auto
  then show "window_rel (snd (Accept w c)) (if fresh S c then insert c S else S)"
    using assms(1,2) h bits
    by (auto simp: acc window_rel_def bit_simps bit_1_iff simp del: bex_simps)
qed

interpretation window: replay_filter Accept empty_window window_rel
proof
  show "window_rel empty_window {}"
    by (simp add: window_rel_def empty_window_def)
next
  fix w S c assume rel: "window_rel w S"
  consider (first) "\<not> started w" | (ahead) "started w" "highest w < c"
    | (behind) "started w" "c \<le> highest w" by fastforce
  then have "fst (Accept w c) = fresh S c \<and>
      window_rel (snd (Accept w c)) (if fresh S c then insert c S else S)"
  proof cases
    case first
    with rel show ?thesis
      by (auto simp: window_rel_def Accept_def fresh_def bit_1_iff)
  next
    case ahead
    with rel show ?thesis using Accept_ahead [of w S c] by simp
  next
    case behind
    with rel show ?thesis using Accept_behind [of w S c] by simp
  qed
  then show "fst (Accept w c) = fresh S c"
    and "window_rel (snd (Accept w c)) (if fresh S c then insert c S else S)"
    by auto
qed

section \<open>Properties\<close>

text \<open>
C14: the bitmap decides exactly like the set of all counters ever accepted. Over any
sequence of authenticated packets, a counter passes when it was never accepted before
and is less than 64 behind the newest accepted one, and is dropped otherwise.
\<close>

theorem replay_window_refines_set:
  "fst (accept_run Accept empty_window cs) = fresh_run {} cs"
  by (rule window.run_fresh [OF window.rel_empty])

text \<open>
No counter is accepted twice on one link, whatever order packets arrive in and
however far apart the two copies are.
\<close>

theorem replay_never_twice:
  assumes "i < j" "j < length cs" "cs ! i = cs ! j"
    and "fst (accept_run Accept empty_window cs) ! i"
  shows "\<not> fst (accept_run Accept empty_window cs) ! j"
  by (rule window.never_twice [OF assms])

theorem replay_never_twice_witness:
  "fst (accept_run Accept empty_window [5, 3, 100, 3]) ! 1
   \<and> \<not> fst (accept_run Accept empty_window [5, 3, 100, 3]) ! 3"
proof -
  have "fst (accept_run Accept empty_window [5, 3, 100, 3]) ! 1"
    by (simp add: Accept_def empty_window_def WindowSize_def Let_def)
  with replay_never_twice [of 1 3 "[5, 3, 100, 3]"] show ?thesis by simp
qed

end
