(* ===== verification/Peer.thy ===== *)
theory Peer
  imports Session Replay "HOL-Library.List_Lexorder"
begin

text \<open>
  One link to one other device: package \<^verbatim>\<open>daemon/mesh\<close>, \<^verbatim>\<open>peer.go\<close>. A link is a
  record with the fields of \<open>Peer\<close>; the relay that carries it is a reference into the
  heap of links, which the theory \<open>Mesh\<close> keeps. \<open>now\<close> is the clock the operation reads,
  and the zero \<open>time.Time\<close> is \<open>None\<close>.
\<close>

datatype peer_state = PeerConnecting | PeerDirect | PeerIndirect | PeerOffline | PeerFailed
datatype peer_reason = NoReason | ReasonNoAddress | ReasonNoRoute

type_synonym ref = nat

datatype mesh_error =
    ErrNoSession
  | ErrReplayed
  | ErrNoPath
  | ErrCrypto session_error
  | ErrEncode
  | ErrSocket

record ('hs, 'cs) peer =
  p_DeviceID :: bytes
  p_Nickname :: bytes
  p_VirtualIP :: addr
  p_transportKey :: bytes
  p_endpoint :: addrport
  p_state :: peer_state
  p_latency :: duration
  p_via :: "ref option"
  p_relaysTried :: "bytes list"
  p_sender :: u64
  p_handshake :: "'hs handshake option"
  p_session :: "'cs session option"
  p_replay :: replay_window
  p_counter :: u64
  p_pending :: "(u64, instant) gomap"
  p_lastHeard :: "instant option"
  p_lastProbe :: "instant option"
  p_lastHandshake :: "instant option"
  p_handshakes :: nat
  p_sent :: u64
  p_received :: u64

definition newPeer ::
  "bytes \<Rightarrow> bytes \<Rightarrow> addr \<Rightarrow> bytes \<Rightarrow> addrport \<Rightarrow> u64 \<Rightarrow> ('hs, 'cs) peer" where
  "newPeer deviceID nickname virtualIP transportKey endpoint sender =
     \<lparr>p_DeviceID = deviceID, p_Nickname = nickname, p_VirtualIP = virtualIP,
      p_transportKey = transportKey, p_endpoint = endpoint, p_state = PeerConnecting,
      p_latency = 0, p_via = None, p_relaysTried = [], p_sender = sender,
      p_handshake = None, p_session = None, p_replay = empty_window, p_counter = 0,
      p_pending = [], p_lastHeard = None, p_lastProbe = None, p_lastHandshake = None,
      p_handshakes = 0, p_sent = 0, p_received = 0\<rparr>"

definition status :: "('hs, 'cs) peer \<Rightarrow> peer_state \<times> peer_reason" where
  "status p =
     (if p_state p = PeerFailed then (p_state p, ReasonNoRoute)
      else if p_state p = PeerConnecting \<and> \<not> addrport_valid (p_endpoint p) \<and> p_via p = None
      then (p_state p, ReasonNoAddress)
      else (p_state p, NoReason))"

definition goDirectLocked :: "('hs, 'cs) peer \<Rightarrow> ('hs, 'cs) peer" where
  "goDirectLocked p = p\<lparr>p_via := None, p_relaysTried := []\<rparr>"

definition resetLocked :: "('hs, 'cs) peer \<Rightarrow> ('hs, 'cs) peer" where
  "resetLocked p =
     p\<lparr>p_session := None, p_handshake := None, p_replay := empty_window, p_counter := 0,
       p_state := PeerConnecting, p_lastProbe := None, p_lastHeard := None,
       p_lastHandshake := None, p_handshakes := 0, p_pending := []\<rparr>"

definition setEndpoint :: "addrport \<Rightarrow> ('hs, 'cs) peer \<Rightarrow> bool \<times> ('hs, 'cs) peer" where
  "setEndpoint endpoint p =
     (if p_endpoint p = endpoint then (False, p)
      else (True, goDirectLocked (resetLocked (p\<lparr>p_endpoint := endpoint\<rparr>))))"

definition restart :: "('hs, 'cs) peer \<Rightarrow> ('hs, 'cs) peer" where
  "restart p = goDirectLocked (resetLocked p)"

text \<open>A relay is given by its reference and its device id.\<close>

definition relayThrough :: "ref \<Rightarrow> bytes \<Rightarrow> ('hs, 'cs) peer \<Rightarrow> ('hs, 'cs) peer" where
  "relayThrough relay relayID p =
     (let p = resetLocked p
      in p\<lparr>p_via := Some relay, p_relaysTried := List.insert relayID (p_relaysTried p)\<rparr>)"

definition answerVia :: "ref \<Rightarrow> bytes \<Rightarrow> ('hs, 'cs) peer \<Rightarrow> ('hs, 'cs) peer" where
  "answerVia relay relayID p =
     (if p_via p = Some relay then p
      else
        let p = p\<lparr>p_via := Some relay, p_relaysTried := List.insert relayID (p_relaysTried p)\<rparr>
        in if p_session p \<noteq> None then p\<lparr>p_state := PeerIndirect\<rparr> else p)"

definition triedRelay :: "bytes \<Rightarrow> ('hs, 'cs) peer \<Rightarrow> bool" where
  "triedRelay deviceID p \<longleftrightarrow> deviceID \<in> set (p_relaysTried p)"

definition open_link :: "instant \<Rightarrow> 'cs session \<Rightarrow> ('hs, 'cs) peer \<Rightarrow> ('hs, 'cs) peer" where
  "open_link now s p =
     p\<lparr>p_session := Some s, p_handshake := None, p_replay := empty_window, p_counter := 0,
       p_state := (if p_via p \<noteq> None then PeerIndirect else PeerDirect),
       p_lastHeard := Some now\<rparr>"

definition nextCounter ::
  "('hs, 'cs) peer \<Rightarrow> (mesh_error + 'cs session \<times> u64) \<times> ('hs, 'cs) peer" where
  "nextCounter p =
     (case p_session p of
        None \<Rightarrow> (Inl ErrNoSession, p)
      | Some s \<Rightarrow> (Inr (s, p_counter p), p\<lparr>p_counter := p_counter p + 1\<rparr>))"

definition accept ::
  "('k, 'hs, 'cs) noise \<Rightarrow> instant \<Rightarrow> bytes \<Rightarrow> bytes \<Rightarrow> u64 \<Rightarrow> ('hs, 'cs) peer \<Rightarrow>
     (mesh_error + bytes) \<times> ('hs, 'cs) peer" where
  "accept N now hdr ciphertext counter p =
     (case p_session p of
        None \<Rightarrow> (Inl ErrNoSession, p)
      | Some s \<Rightarrow>
          (case Open N s [] hdr ciphertext counter of
             Inl e \<Rightarrow> (Inl (ErrCrypto e), p)
           | Inr plaintext \<Rightarrow>
               (case Accept (p_replay p) counter of
                  (False, w) \<Rightarrow> (Inl ErrReplayed, p\<lparr>p_replay := w\<rparr>)
                | (True, w) \<Rightarrow> (Inr plaintext, p\<lparr>p_replay := w, p_lastHeard := Some now\<rparr>))))"

definition heard :: "instant \<Rightarrow> ('hs, 'cs) peer \<Rightarrow> ('hs, 'cs) peer" where
  "heard now p = p\<lparr>p_lastHeard := Some now\<rparr>"

definition expect :: "instant \<Rightarrow> u64 \<Rightarrow> ('hs, 'cs) peer \<Rightarrow> ('hs, 'cs) peer" where
  "expect now token p =
     (let pending = (if length (p_pending p) > 32 then [] else p_pending p)
      in p\<lparr>p_pending := store token now pending\<rparr>)"

definition measure_rtt ::
  "instant \<Rightarrow> u64 \<Rightarrow> ('hs, 'cs) peer \<Rightarrow> duration option \<times> ('hs, 'cs) peer" where
  "measure_rtt now token p =
     (case lookup (p_pending p) token of
        None \<Rightarrow> (None, p)
      | Some sentAt \<Rightarrow>
          (Some (now - sentAt),
           p\<lparr>p_pending := remove token (p_pending p), p_latency := now - sentAt,
             p_lastHeard := Some now\<rparr>))"

definition fail_link :: "('hs, 'cs) peer \<Rightarrow> bool \<times> ('hs, 'cs) peer" where
  "fail_link p =
     (if p_state p = PeerFailed then (False, p)
      else (True, p\<lparr>p_state := PeerFailed, p_session := None, p_handshake := None\<rparr>))"

declare newPeer_def [peer_defs] status_def [peer_defs] goDirectLocked_def [peer_defs]
  resetLocked_def [peer_defs] setEndpoint_def [peer_defs] restart_def [peer_defs]
  relayThrough_def [peer_defs] answerVia_def [peer_defs] triedRelay_def [peer_defs]
  open_link_def [peer_defs] nextCounter_def [peer_defs] accept_def [peer_defs]
  heard_def [peer_defs] expect_def [peer_defs] measure_rtt_def [peer_defs]
  fail_link_def [peer_defs]

section \<open>The state of a link\<close>

text \<open>
  The state shown to the user agrees with what the link holds: an open link has a session
  and no handshake under way, is direct exactly when nobody carries it, and one that is
  still connecting or given up on has no session.
\<close>

definition peer_inv :: "('hs, 'cs) peer \<Rightarrow> bool" where
  "peer_inv p \<longleftrightarrow>
     (case p_session p of
        None \<Rightarrow> p_state p = PeerConnecting \<or> p_state p = PeerFailed
      | Some _ \<Rightarrow> p_handshake p = None \<and> p_lastHeard p \<noteq> None \<and>
                  p_state p = (if p_via p = None then PeerDirect else PeerIndirect)) \<and>
     distinct (map fst (p_pending p)) \<and> length (p_pending p) \<le> 33"

lemma length_store_le: "length (store k v m) \<le> Suc (length m)"
  by (induction m) auto

lemma length_remove_le: "length (remove k m) \<le> length m"
  by (simp add: AList.delete_eq)

lemma peer_inv_ops:
  assumes "peer_inv p"
  shows "peer_inv (snd (setEndpoint ep p))" "peer_inv (restart p)"
    "peer_inv (relayThrough r rid p)" "peer_inv (answerVia r rid p)"
    "peer_inv (open_link now s p)" "peer_inv (snd (nextCounter p))"
    "peer_inv (heard now p)" "peer_inv (snd (fail_link p))"
  using assms
  by (auto simp: peer_defs peer_inv_def Let_def split: option.splits if_splits)

lemma peer_inv_new: "peer_inv (newPeer d n ip k ep s)"
  by (simp add: newPeer_def peer_inv_def)

lemma peer_inv_accept: "peer_inv p \<Longrightarrow> peer_inv (snd (accept N now h ct c p))"
  by (auto simp: accept_def peer_inv_def split: option.splits sum.splits prod.splits bool.splits)

lemma peer_inv_expect: "peer_inv p \<Longrightarrow> peer_inv (expect now t p)"
  using length_store_le [of t now "p_pending p"] length_store_le [of t now "[]"]
  by (auto simp: expect_def peer_inv_def Let_def simp del: AList.update.simps split: option.splits)

lemma peer_inv_measure: "peer_inv p \<Longrightarrow> peer_inv (snd (measure_rtt now t p))"
  using length_remove_le [of t "p_pending p"]
  by (auto simp: measure_rtt_def peer_inv_def split: option.splits)

lemma peer_inv_handshake:
  "peer_inv p \<Longrightarrow> p_session p = None \<Longrightarrow>
     peer_inv (p\<lparr>p_handshake := h, p_handshakes := n, p_lastHandshake := l\<rparr>)"
  by (simp add: peer_inv_def)

lemmas peer_inv_intros [intro] =
  peer_inv_ops peer_inv_new peer_inv_accept peer_inv_expect peer_inv_measure

text \<open>Fields that identify a link never change.\<close>

definition same_peer :: "('hs, 'cs) peer \<Rightarrow> ('hs, 'cs) peer \<Rightarrow> bool" where
  "same_peer p q \<longleftrightarrow> p_DeviceID q = p_DeviceID p \<and> p_VirtualIP q = p_VirtualIP p \<and>
     p_transportKey q = p_transportKey p \<and> p_sender q = p_sender p \<and> p_Nickname q = p_Nickname p"

lemma same_peer_ops [simp, intro]:
  "same_peer p p" "same_peer p (snd (setEndpoint ep p))" "same_peer p (restart p)"
  "same_peer p (relayThrough r rid p)" "same_peer p (answerVia r rid p)"
  "same_peer p (open_link now s p)" "same_peer p (snd (nextCounter p))"
  "same_peer p (heard now p)" "same_peer p (snd (fail_link p))"
  "same_peer p (snd (accept N now h ct c p))" "same_peer p (expect now t p)"
  "same_peer p (snd (measure_rtt now t p))"
  by (auto simp: peer_defs same_peer_def Let_def split: option.splits if_splits sum.splits
      prod.splits bool.splits)

lemma endpoint_ops [simp]:
  "p_endpoint (restart p) = p_endpoint p"
  "p_endpoint (relayThrough r rid p) = p_endpoint p" "p_endpoint (answerVia r rid p) = p_endpoint p"
  "p_endpoint (open_link now s p) = p_endpoint p" "p_endpoint (snd (nextCounter p)) = p_endpoint p"
  "p_endpoint (heard now p) = p_endpoint p" "p_endpoint (snd (fail_link p)) = p_endpoint p"
  "p_endpoint (snd (accept N now h ct c p)) = p_endpoint p" "p_endpoint (expect now t p) = p_endpoint p"
  "p_endpoint (snd (measure_rtt now t p)) = p_endpoint p"
  "p_endpoint (snd (setEndpoint ep p)) = ep"
  by (auto simp: peer_defs Let_def split: option.splits if_splits sum.splits prod.splits
      bool.splits)

section \<open>A link as a state machine\<close>

text \<open>
  Everything the daemon does to a link is one of these steps: the operations above, and
  the three field updates of \<open>beginHandshake\<close>, \<open>punch\<close> and \<open>handleHandshakeResponse\<close>.
\<close>

inductive link_step :: "('k, 'hs, 'cs) noise \<Rightarrow> ('hs, 'cs) peer \<Rightarrow> ('hs, 'cs) peer \<Rightarrow> bool"
  for N :: "('k, 'hs, 'cs) noise" where
  endpoint: "link_step N p (snd (setEndpoint ep p))"
| restarted: "link_step N p (restart p)"
| relayed: "link_step N p (relayThrough r rid p)"
| answered: "link_step N p (answerVia r rid p)"
| opened: "link_step N p (open_link now s p)"
| counted: "link_step N p (snd (nextCounter p))"
| received: "link_step N p (snd (accept N now h ct c p))"
| keepalive: "link_step N p (heard now p)"
| expected: "link_step N p (expect now t p)"
| measured: "link_step N p (snd (measure_rtt now t p))"
| failed: "link_step N p (snd (fail_link p))"
| attempt: "p_session p = None \<Longrightarrow>
    link_step N p (p\<lparr>p_handshakes := n, p_lastHandshake := Some now\<rparr>)"
| initiated: "p_session p = None \<Longrightarrow> link_step N p (p\<lparr>p_handshake := h\<rparr>)"
| probed: "link_step N p (p\<lparr>p_lastProbe := Some now\<rparr>)"
| traffic: "link_step N p (p\<lparr>p_sent := x, p_received := y\<rparr>)"

definition new_link :: "('hs, 'cs) peer \<Rightarrow> bool" where
  "new_link p \<longleftrightarrow> (\<exists>d n ip k ep s. p = newPeer d n ip k ep s)"

lemma link_step_inv: "link_step N p q \<Longrightarrow> peer_inv p \<Longrightarrow> peer_inv q"
  by (induction rule: link_step.induct) (auto, auto simp: peer_inv_def split: option.splits)

interpretation link: invariant_system new_link "link_step N" peer_inv for N
  by unfold_locales (auto simp: new_link_def intro: link_step_inv)

section \<open>Packets accepted on a link\<close>

lemma accept_Inr_iff:
  "fst (accept N now h ct c p) = Inr pt \<longleftrightarrow>
     (\<exists>s. p_session p = Some s \<and> n_decrypt N (s_recv s) c h ct = Some pt \<and> fst (Accept (p_replay p) c))"
  by (auto simp: accept_def Open_def split: option.splits sum.splits prod.splits bool.splits)

lemma accept_session [simp]: "p_session (snd (accept N now h ct c p)) = p_session p"
  by (auto simp: accept_def split: option.splits sum.splits prod.splits bool.splits)

lemma accept_window:
  assumes "window_rel (p_replay p) S"
  shows "\<exists>S'. S \<subseteq> S' \<and> window_rel (p_replay (snd (accept N now h ct c p))) S' \<and>
    (\<forall>pt. fst (accept N now h ct c p) = Inr pt \<longrightarrow> c \<notin> S \<and> c \<in> S')"
proof (cases "\<exists>pt. fst (accept N now h ct c p) = Inr pt")
  case True
  then have "fst (Accept (p_replay p) c)" by (auto simp: accept_Inr_iff)
  then have "fresh S c" using window.rel_accept [OF assms] by simp
  moreover have "p_replay (snd (accept N now h ct c p)) = snd (Accept (p_replay p) c)"
    using True by (auto simp: accept_def split: option.splits sum.splits prod.splits bool.splits)
  ultimately show ?thesis
    using window.rel_step [OF assms, of c] by (intro exI [of _ "insert c S"]) (auto simp: fresh_def)
next
  case False
  have "p_replay (snd (accept N now h ct c p)) = p_replay p \<or>
      \<not> fst (Accept (p_replay p) c) \<and> p_replay (snd (accept N now h ct c p)) = snd (Accept (p_replay p) c)"
    using False by (auto simp: accept_def split: option.splits sum.splits prod.splits bool.splits)
  then have "window_rel (p_replay (snd (accept N now h ct c p))) S"
    using window.rel_step [OF assms, of c] window.rel_accept [OF assms, of c] assms by auto
  with False show ?thesis by blast
qed

text \<open>A sequence of packets, each a header, a ciphertext, a counter and a time of arrival.\<close>

fun accept_all ::
  "('k, 'hs, 'cs) noise \<Rightarrow> (bytes \<times> bytes \<times> u64 \<times> instant) list \<Rightarrow> ('hs, 'cs) peer \<Rightarrow>
     (mesh_error + bytes) list" where
  "accept_all N [] p = []"
| "accept_all N ((h, ct, c, now) # pkts) p =
     fst (accept N now h ct c p) # accept_all N pkts (snd (accept N now h ct c p))"

lemma length_accept_all [simp]: "length (accept_all N pkts p) = length pkts"
  by (induction pkts arbitrary: p) auto

lemma accept_all_seen:
  "window_rel (p_replay p) S \<Longrightarrow> c \<in> S \<Longrightarrow> i < length pkts \<Longrightarrow> fst (snd (snd (pkts ! i))) = c \<Longrightarrow>
     accept_all N pkts p ! i \<noteq> Inr pt"
proof (induction pkts arbitrary: p S i)
  case Nil
  then show ?case by simp
next
  case (Cons x pkts)
  obtain h ct d now where x: "x = (h, ct, d, now)" by (cases x)
  from accept_window [OF Cons.prems(1), where N = N and now = now and h = h and ct = ct and c = d]
  obtain S' where S': "S \<subseteq> S'" "window_rel (p_replay (snd (accept N now h ct d p))) S'"
    "\<And>pt. fst (accept N now h ct d p) = Inr pt \<Longrightarrow> d \<notin> S" by blast
  show ?case
  proof (cases i)
    case 0
    with Cons.prems S'(3) show ?thesis by (auto simp: x)
  next
    case (Suc i')
    with Cons.prems S'(1) Cons.IH [OF S'(2), of i'] show ?thesis by (auto simp: x)
  qed
qed

lemma accept_all_once:
  "window_rel (p_replay p) S \<Longrightarrow> i < j \<Longrightarrow> j < length pkts \<Longrightarrow>
     fst (snd (snd (pkts ! i))) = fst (snd (snd (pkts ! j))) \<Longrightarrow>
     accept_all N pkts p ! i = Inr a \<Longrightarrow> accept_all N pkts p ! j \<noteq> Inr b"
proof (induction pkts arbitrary: p S i j)
  case Nil
  then show ?case by simp
next
  case (Cons x pkts)
  obtain h ct d now where x: "x = (h, ct, d, now)" by (cases x)
  from Cons.prems obtain j' where j: "j = Suc j'" by (cases j) auto
  from accept_window [OF Cons.prems(1), where N = N and now = now and h = h and ct = ct and c = d]
  obtain S' where S': "window_rel (p_replay (snd (accept N now h ct d p))) S'"
    "\<And>pt. fst (accept N now h ct d p) = Inr pt \<Longrightarrow> d \<in> S'" by blast
  show ?case
  proof (cases i)
    case 0
    with Cons.prems have "fst (accept N now h ct d p) = Inr a"
      and j': "j' < length pkts" "fst (snd (snd (pkts ! j'))) = d"
      by (simp_all add: x j)
    then have "d \<in> S'" using S'(2) by simp
    from accept_all_seen [OF S'(1) this j'] show ?thesis by (simp add: x j)
  next
    case (Suc i')
    with Cons.prems Cons.IH [OF S'(1), of i' j'] show ?thesis by (simp add: x j)
  qed
qed

lemma window_rel_open: "window_rel (p_replay (open_link now s p)) {}"
  using window.rel_empty by (simp add: open_link_def)

text \<open>The counters handed out to packets sent one after another.\<close>

fun draw_counters :: "nat \<Rightarrow> ('hs, 'cs) peer \<Rightarrow> (mesh_error + 'cs session \<times> u64) list" where
  "draw_counters 0 p = []"
| "draw_counters (Suc n) p = fst (nextCounter p) # draw_counters n (snd (nextCounter p))"

lemma draw_counters_eq:
  "p_session p = Some s \<Longrightarrow>
     draw_counters n p = map (\<lambda>i. Inr (s, p_counter p + of_nat i)) [0..<n]"
proof (induction n arbitrary: p)
  case 0
  then show ?case by simp
next
  case (Suc n)
  have "[0..<Suc n] = 0 # map Suc [0..<n]"
    by (simp add: map_Suc_upt upt_conv_Cons)
  with Suc show ?case by (simp add: nextCounter_def ac_simps)
qed

lemma inj_of_nat_u64: "i < 2 ^ 64 \<Longrightarrow> j < 2 ^ 64 \<Longrightarrow> (of_nat i :: u64) = of_nat j \<Longrightarrow> i = j"
  by (simp add: word_of_nat_eq_iff take_bit_nat_eq_self)

section \<open>Properties\<close>

text \<open>
In every state a link can reach, what the user is shown agrees with what the link
holds. It is shown as direct or indirect exactly when it has a session, as indirect
exactly when in addition another peer carries it, and otherwise as connecting or failed;
and the tokens waiting for an echo stay bounded.
\<close>

theorem link_state_agrees:
  assumes "new_link p" and "(link_step N)\<^sup>*\<^sup>* p q"
  shows "(p_session q \<noteq> None \<longleftrightarrow> p_state q = PeerDirect \<or> p_state q = PeerIndirect) \<and>
    (p_state q = PeerIndirect \<longleftrightarrow> p_session q \<noteq> None \<and> p_via q \<noteq> None) \<and>
    (p_session q = None \<longleftrightarrow> p_state q = PeerConnecting \<or> p_state q = PeerFailed) \<and>
    length (p_pending q) \<le> 33"
  using link.inv_reachable [OF assms] by (auto simp: peer_inv_def split: option.splits if_splits)

theorem link_state_agrees_witness:
  "let p = newPeer [1] [] NoAddr [] no_addrport 7;
       q = answerVia 3 [9] (open_link 5 \<lparr>s_send = 1, s_recv = 2, s_peerStatic = []\<rparr> p)
   in p_state q = PeerIndirect \<and> p_session q \<noteq> None"
proof -
  let ?p = "newPeer [1] [] NoAddr [] no_addrport 7 :: (bytes, byte) peer"
  let ?o = "open_link 5 \<lparr>s_send = 1, s_recv = 2, s_peerStatic = []\<rparr> ?p"
  have "(link_step toy_noise)\<^sup>*\<^sup>* ?p (answerVia 3 [9] ?o)"
    by (rule rtranclp.rtrancl_into_rtrancl [OF r_into_rtranclp])
      (rule link_step.opened, rule link_step.answered)
  moreover have "new_link ?p" by (force simp: new_link_def)
  ultimately have "p_state (answerVia 3 [9] ?o) = PeerIndirect \<longleftrightarrow>
      p_session (answerVia 3 [9] ?o) \<noteq> None \<and> p_via (answerVia 3 [9] ?o) \<noteq> None"
    using link_state_agrees [of ?p toy_noise] by blast
  then show ?thesis by (simp add: peer_defs Let_def)
qed

text \<open>
A packet is taken from a link exactly when the link is open, the packet decrypts
under the link's receive key with the header as additional data, and its counter is new
to the replay window. A packet the keys refuse changes nothing about the link, the
window included, so nobody can slide the window with a forged counter.
\<close>

theorem accept_spec:
  "(fst (accept N now h ct c p) = Inr pt \<longleftrightarrow>
      (\<exists>s. p_session p = Some s \<and> n_decrypt N (s_recv s) c h ct = Some pt \<and>
           fst (Accept (p_replay p) c))) \<and>
   ((\<exists>e. fst (accept N now h ct c p) = Inl (ErrCrypto e)) \<longleftrightarrow>
      (\<exists>s. p_session p = Some s \<and> n_decrypt N (s_recv s) c h ct = None)) \<and>
   (snd (accept N now h ct c p) =
      (case p_session p of
         None \<Rightarrow> p
       | Some s \<Rightarrow> if n_decrypt N (s_recv s) c h ct = None then p
                   else p\<lparr>p_replay := snd (Accept (p_replay p) c),
                          p_lastHeard := (if fst (Accept (p_replay p) c) then Some now
                                          else p_lastHeard p)\<rparr>))"
  by (auto simp: accept_def Open_def split: option.splits sum.splits prod.splits bool.splits)

text \<open>
C29: from the moment a link opens, no two packets with the same counter are both taken,
whatever else arrives between them and whether or not it is authentic.
\<close>

theorem link_accepts_once:
  assumes "i < j" and "j < length pkts"
    and "fst (snd (snd (pkts ! i))) = fst (snd (snd (pkts ! j)))"
    and "accept_all N pkts (open_link now s p) ! i = Inr a"
  shows "accept_all N pkts (open_link now s p) ! j \<noteq> Inr b"
  by (rule accept_all_once [OF window_rel_open assms])

theorem link_accepts_once_witness:
  "let s = \<lparr>s_send = 1, s_recv = 2, s_peerStatic = []\<rparr>;
       p = newPeer [1] [] NoAddr [] no_addrport 7 :: (bytes, byte) peer;
       pkts = [([], replicate 16 2 @ [42], 5, 0), ([], replicate 16 2 @ [43], 5, 1)]
   in accept_all toy_noise pkts (open_link 0 s p) ! 0 = Inr [42] \<and>
      accept_all toy_noise pkts (open_link 0 s p) ! 1 \<noteq> Inr [43]"
proof -
  let ?s = "\<lparr>s_send = 1 :: byte, s_recv = 2, s_peerStatic = []\<rparr>"
  let ?p = "newPeer [1] [] NoAddr [] no_addrport 7 :: (bytes, byte) peer"
  let ?pkts = "[([], replicate 16 2 @ [42], 5, 0), ([], replicate 16 2 @ [43], 5, 1)]
    :: (bytes \<times> bytes \<times> u64 \<times> instant) list"
  have "accept_all toy_noise ?pkts (open_link 0 ?s ?p) ! 0 = Inr [42]"
    by (simp add: accept_def Open_def open_link_def toy_noise_def Accept_def empty_window_def)
  with link_accepts_once [of 0 1 ?pkts toy_noise 0 ?s ?p "[42]" "[43]"] show ?thesis
    by (simp add: Let_def)
qed

text \<open>
The counters of the packets sent on one session are the successive numbers from
zero, so no nonce is used twice in the first \<open>2^64\<close> packets.
\<close>

theorem counters_distinct:
  "draw_counters n (open_link now s p) = map (\<lambda>i. Inr (s, of_nat i)) [0..<n] \<and>
   (n \<le> 2 ^ 64) = distinct (draw_counters n (open_link now s p))"
proof -
  have eq: "draw_counters n (open_link now s p) = map (\<lambda>i. Inr (s, of_nat i)) [0..<n]"
    by (subst draw_counters_eq [of _ s]) (simp_all add: open_link_def)
  have "inj_on (\<lambda>i. Inr (s, of_nat i :: u64)) {0..<n}" if "n \<le> 2 ^ 64"
    using that by (auto simp: inj_on_def intro: inj_of_nat_u64)
  moreover have "\<not> inj_on (\<lambda>i. Inr (s, of_nat i :: u64)) {0..<n}" if "\<not> n \<le> 2 ^ 64"
  proof -
    have "(of_nat (2 ^ 64) :: u64) = of_nat 0" by simp
    then show ?thesis
      using that inj_onD [of "\<lambda>i. Inr (s, of_nat i :: u64)" "{0..<n}" "2 ^ 64" 0] by auto
  qed
  ultimately show ?thesis by (auto simp: eq distinct_map)
qed

end
