(* ===== verification/Transport.thy ===== *)
theory Transport
  imports Prelude
begin

text \<open>
  The peer-to-peer wire format: package \<^verbatim>\<open>protocol/transport\<close> (\<^verbatim>\<open>wire.go\<close>,
  \<^verbatim>\<open>payloads.go\<close>). Every message type has an encoder and a decoder; the locale
  \<open>wire_codec\<close> states what the rest of the daemon relies on (a decoder undoes its
  encoder), and each message type interprets it.
\<close>

section \<open>Constants\<close>

definition TransportVersion :: u8 where "TransportVersion = 1"
definition Magic :: u16 where "Magic = 0xC192"

definition MsgProbe :: u8 where "MsgProbe = 1"
definition MsgHandshakeInit :: u8 where "MsgHandshakeInit = 2"
definition MsgHandshakeResponse :: u8 where "MsgHandshakeResponse = 3"
definition MsgKeepalive :: u8 where "MsgKeepalive = 4"
definition MsgData :: u8 where "MsgData = 5"
definition MsgClose :: u8 where "MsgClose = 6"
definition MsgForward :: u8 where "MsgForward = 7"

lemmas msg_type_defs =
  MsgProbe_def MsgHandshakeInit_def MsgHandshakeResponse_def MsgKeepalive_def MsgData_def
  MsgClose_def MsgForward_def

definition HeaderSize :: nat where "HeaderSize = 20"
definition PingSize :: nat where "PingSize = 9"
definition ForwardHeaderSize :: nat where "ForwardHeaderSize = 9"
definition AEADTagSize :: nat where "AEADTagSize = 16"
definition TunnelMTU :: nat where "TunnelMTU = 1400"

definition Overhead :: nat where "Overhead = HeaderSize + AEADTagSize"
definition MaxPacketSize :: nat where "MaxPacketSize = TunnelMTU + Overhead"
definition ForwardOverhead :: nat where
  "ForwardOverhead = HeaderSize + AEADTagSize + ForwardHeaderSize"
definition MaxDatagramSize :: nat where "MaxDatagramSize = MaxPacketSize + ForwardOverhead"

lemmas size_defs =
  HeaderSize_def PingSize_def ForwardHeaderSize_def AEADTagSize_def TunnelMTU_def
  Overhead_def MaxPacketSize_def ForwardOverhead_def MaxDatagramSize_def

section \<open>The packet envelope\<close>

record header =
  hdr_Version :: u8
  hdr_Type :: u8
  hdr_Sender :: u64
  hdr_Counter :: u64

datatype wire_error =
    ErrShortPacket
  | ErrBadMagic
  | UnsupportedVersionError u8
  | ErrMalformedPayload
  | ErrTooLong
  | ErrNotIPv4

text \<open>The twenty bytes in front of every packet.\<close>

definition header_bytes :: "header \<Rightarrow> bytes" where
  "header_bytes h =
     put16 Magic @ [hdr_Version h] @ [hdr_Type h] @ put64 (hdr_Sender h) @ put64 (hdr_Counter h)"

definition Header_Encode :: "header \<Rightarrow> bytes \<Rightarrow> bytes \<Rightarrow> bytes" where
  "Header_Encode h dst payload = (dst @ header_bytes h) @ payload"

text \<open>
  \<open>Decode\<close> also hands back the header with an unsupported-version error; nothing in the
  program reads it, and the error carries the version.
\<close>

definition Decode :: "bytes \<Rightarrow> wire_error + (header \<times> bytes)" where
  "Decode pkt =
     (if length pkt < HeaderSize then Inl ErrShortPacket
      else if get16 (slice 0 2 pkt) \<noteq> Magic then Inl ErrBadMagic
      else
        let h = \<lparr>hdr_Version = pkt ! 2, hdr_Type = pkt ! 3,
                 hdr_Sender = get64 (slice 4 12 pkt), hdr_Counter = get64 (slice 12 20 pkt)\<rparr>
        in if hdr_Version h \<noteq> TransportVersion
           then Inl (UnsupportedVersionError (hdr_Version h))
           else Inr (h, drop HeaderSize pkt))"

section \<open>Probe and keepalive bodies\<close>

record ping =
  ping_Token :: u64
  ping_Reply :: bool

definition Ping_Encode :: "ping \<Rightarrow> bytes \<Rightarrow> bytes" where
  "Ping_Encode p dst = dst @ put64 (ping_Token p) @ [if ping_Reply p then 1 else 0]"

definition DecodePing :: "bytes \<Rightarrow> wire_error + ping" where
  "DecodePing payload =
     (if length payload < PingSize then Inl ErrMalformedPayload
      else Inr \<lparr>ping_Token = get64 (slice 0 8 payload), ping_Reply = (payload ! 8 = 1)\<rparr>)"

section \<open>Handshake bodies\<close>

text \<open>A Go string is its bytes.\<close>

record handshake_init =
  hi_DeviceID :: bytes
  hi_KeyExchange :: bytes

definition HandshakeInit_Encode :: "handshake_init \<Rightarrow> bytes \<Rightarrow> wire_error + bytes" where
  "HandshakeInit_Encode h dst =
     (if length (hi_DeviceID h) > 255 then Inl ErrTooLong
      else if length (hi_KeyExchange h) > 65535 then Inl ErrTooLong
      else Inr (dst @ [of_nat (length (hi_DeviceID h))] @ hi_DeviceID h
                @ put16 (of_nat (length (hi_KeyExchange h))) @ hi_KeyExchange h))"

definition DecodeHandshakeInit :: "bytes \<Rightarrow> wire_error + handshake_init" where
  "DecodeHandshakeInit payload =
     (if length payload < 1 then Inl ErrMalformedPayload
      else
        let idLen = unat (payload ! 0); rest = drop 1 payload
        in if length rest < idLen + 2 then Inl ErrMalformedPayload
           else
             let deviceID = take idLen rest; rest = drop idLen rest;
                 keyLen = unat (get16 (slice 0 2 rest)); rest = drop 2 rest
             in if length rest < keyLen then Inl ErrMalformedPayload
                else Inr \<lparr>hi_DeviceID = deviceID, hi_KeyExchange = take keyLen rest\<rparr>)"

record handshake_response =
  hr_KeyExchange :: bytes

definition HandshakeResponse_Encode :: "handshake_response \<Rightarrow> bytes \<Rightarrow> wire_error + bytes" where
  "HandshakeResponse_Encode h dst =
     (if length (hr_KeyExchange h) > 65535 then Inl ErrTooLong
      else Inr (dst @ put16 (of_nat (length (hr_KeyExchange h))) @ hr_KeyExchange h))"

definition DecodeHandshakeResponse :: "bytes \<Rightarrow> wire_error + handshake_response" where
  "DecodeHandshakeResponse payload =
     (if length payload < 2 then Inl ErrMalformedPayload
      else
        let keyLen = unat (get16 (slice 0 2 payload)); rest = drop 2 payload
        in if length rest < keyLen then Inl ErrMalformedPayload
           else Inr \<lparr>hr_KeyExchange = take keyLen rest\<rparr>)"

section \<open>Carrying somebody else's packet\<close>

record forward_msg =
  fw_HopLimit :: u8
  fw_Source :: addr
  fw_Destination :: addr
  fw_Packet :: bytes

definition Forward_Encode :: "forward_msg \<Rightarrow> bytes \<Rightarrow> wire_error + bytes" where
  "Forward_Encode f dst =
     (if \<not> is4 (fw_Source f) \<or> \<not> is4 (fw_Destination f) then Inl ErrNotIPv4
      else Inr (dst @ [fw_HopLimit f] @ as4 (fw_Source f) @ as4 (fw_Destination f) @ fw_Packet f))"

definition DecodeForward :: "bytes \<Rightarrow> wire_error + forward_msg" where
  "DecodeForward payload =
     (if length payload < ForwardHeaderSize + HeaderSize then Inl ErrMalformedPayload
      else Inr \<lparr>fw_HopLimit = payload ! 0,
                fw_Source = addr_from4 (slice 1 5 payload),
                fw_Destination = addr_from4 (slice 5 9 payload),
                fw_Packet = drop ForwardHeaderSize payload\<rparr>)"

declare Header_Encode_def [wire_defs] Decode_def [wire_defs] Ping_Encode_def [wire_defs]
  DecodePing_def [wire_defs] HandshakeInit_Encode_def [wire_defs]
  DecodeHandshakeInit_def [wire_defs] HandshakeResponse_Encode_def [wire_defs]
  DecodeHandshakeResponse_def [wire_defs] Forward_Encode_def [wire_defs]
  DecodeForward_def [wire_defs]

section \<open>Layout of the envelope\<close>

lemma length_header_bytes [simp]: "length (header_bytes h) = HeaderSize"
  by (simp add: header_bytes_def HeaderSize_def)

lemma header_bytes_slices [wire_simps]:
  "slice 0 2 (header_bytes h @ ps) = put16 Magic"
  "(header_bytes h @ ps) ! 2 = hdr_Version h"
  "(header_bytes h @ ps) ! 3 = hdr_Type h"
  "slice 4 12 (header_bytes h @ ps) = put64 (hdr_Sender h)"
  "slice 12 20 (header_bytes h @ ps) = put64 (hdr_Counter h)"
  by (simp_all add: header_bytes_def slice_def nth_append)

lemma Decode_header_bytes:
  "hdr_Version h = TransportVersion \<Longrightarrow> Decode (header_bytes h @ ps) = Inr (h, ps)"
  by (simp add: Decode_def header_bytes_slices Let_def)

lemma Decode_Inr_iff:
  "Decode pkt = Inr (h, ps) \<longleftrightarrow> hdr_Version h = TransportVersion \<and> pkt = header_bytes h @ ps"
proof
  assume dec: "Decode pkt = Inr (h, ps)"
  then have len: "20 \<le> length pkt" and magic: "get16 (slice 0 2 pkt) = Magic"
    and h: "h = \<lparr>hdr_Version = pkt ! 2, hdr_Type = pkt ! 3,
              hdr_Sender = get64 (slice 4 12 pkt), hdr_Counter = get64 (slice 12 20 pkt)\<rparr>"
    and ps: "ps = drop 20 pkt" and ver: "hdr_Version h = TransportVersion"
    by (auto simp: Decode_def HeaderSize_def Let_def split: if_splits)
  have "put16 Magic = slice 0 2 pkt"
    using len magic put_get(1) [of "slice 0 2 pkt"] by simp
  moreover have "put64 (hdr_Sender h) = slice 4 12 pkt" "put64 (hdr_Counter h) = slice 12 20 pkt"
    using len by (simp_all add: h put_get(3))
  moreover have "slice 0 2 pkt @ [pkt ! 2] @ [pkt ! 3] @ slice 4 12 pkt @ slice 12 20 pkt = take 20 pkt"
    using len by (intro nth_equalityI)
      (auto simp: slice_def nth_append nth_Cons' intro!: arg_cong [where f = "(!) pkt"])
  ultimately have "header_bytes h = take 20 pkt"
    by (simp add: header_bytes_def h)
  then show "hdr_Version h = TransportVersion \<and> pkt = header_bytes h @ ps"
    using ver ps by simp
next
  assume "hdr_Version h = TransportVersion \<and> pkt = header_bytes h @ ps"
  then show "Decode pkt = Inr (h, ps)"
    by (simp add: Decode_header_bytes)
qed

section \<open>What a message format promises\<close>

text \<open>
  \<open>ok x\<close> says that \<open>x\<close> fits the format. An encoder appends one body to whatever is
  already in the buffer, and the decoder reads the value back from that body.
\<close>

locale wire_codec =
  fixes enc :: "'a \<Rightarrow> bytes \<Rightarrow> wire_error + bytes"
    and dec :: "bytes \<Rightarrow> wire_error + 'a"
    and ok :: "'a \<Rightarrow> bool"
  assumes enc_dec: "ok x \<Longrightarrow> \<exists>body. (\<forall>dst. enc x dst = Inr (dst @ body)) \<and> dec body = Inr x"
begin

lemma roundtrip: "ok x \<Longrightarrow> enc x [] = Inr body \<Longrightarrow> dec body = Inr x"
  using enc_dec [of x] by auto

lemma append_only: "ok x \<Longrightarrow> enc x [] = Inr body \<Longrightarrow> enc x dst = Inr (dst @ body)"
  using enc_dec [of x] by auto

lemma encodes: "ok x \<Longrightarrow> \<exists>body. enc x [] = Inr body"
  using enc_dec [of x] by auto

lemma enc_inject: "ok x \<Longrightarrow> ok y \<Longrightarrow> enc x dst = enc y dst \<Longrightarrow> x = y"
  using enc_dec [of x] enc_dec [of y] by fastforce

lemma in_envelope:
  assumes "ok x" and "enc x [] = Inr body" and "hdr_Version h = TransportVersion"
  shows "\<exists>payload. Decode (Header_Encode h [] body) = Inr (h, payload) \<and> dec payload = Inr x"
  using assms by (simp add: Header_Encode_def Decode_header_bytes roundtrip)

end

subsection \<open>Probe and keepalive\<close>

lemma DecodePing_append:
  "DecodePing (put64 t @ [if r then 1 else 0] @ slack) = Inr \<lparr>ping_Token = t, ping_Reply = r\<rparr>"
  by (simp add: DecodePing_def PingSize_def slice_def nth_append)

interpretation ping: wire_codec "\<lambda>p dst. Inr (Ping_Encode p dst)" DecodePing "\<lambda>_. True"
proof
  fix x :: ping
  have "DecodePing (Ping_Encode x []) = Inr x"
    using DecodePing_append [of "ping_Token x" "ping_Reply x" "[]"] by (simp add: Ping_Encode_def)
  then show "\<exists>body. (\<forall>dst. Inr (Ping_Encode x dst) = Inr (dst @ body)) \<and> DecodePing body = Inr x"
    by (auto simp: Ping_Encode_def)
qed

subsection \<open>Handshake\<close>

definition init_fits :: "handshake_init \<Rightarrow> bool" where
  "init_fits h \<longleftrightarrow> length (hi_DeviceID h) \<le> 255 \<and> length (hi_KeyExchange h) \<le> 65535"

definition response_fits :: "handshake_response \<Rightarrow> bool" where
  "response_fits h \<longleftrightarrow> length (hr_KeyExchange h) \<le> 65535"

lemma unat_of_nat_byte [simp]: "n \<le> 255 \<Longrightarrow> unat (of_nat n :: byte) = n"
  by (simp add: unat_of_nat)

lemma unat_of_nat_u16 [simp]: "n \<le> 65535 \<Longrightarrow> unat (of_nat n :: u16) = n"
  by (simp add: unat_of_nat)

lemma length_prefixed16:
  assumes "length key \<le> 65535"
  shows "slice 0 2 (put16 (of_nat (length key)) @ key @ slack) = put16 (of_nat (length key))"
    and "unat (get16 (put16 (of_nat (length key)))) = length key"
  using assms by (simp_all add: slice_def del: be_put.simps)

lemma DecodeHandshakeInit_append:
  assumes "init_fits h" and "HandshakeInit_Encode h [] = Inr body"
  shows "DecodeHandshakeInit (body @ slack) = Inr h"
proof -
  have body: "body = of_nat (length (hi_DeviceID h)) # hi_DeviceID h
      @ put16 (of_nat (length (hi_KeyExchange h))) @ hi_KeyExchange h"
    using assms by (simp add: HandshakeInit_Encode_def init_fits_def)
  show ?thesis
    using assms(1) unfolding body init_fits_def
    by (simp add: DecodeHandshakeInit_def Let_def length_prefixed16 del: be_put.simps)
qed

lemma DecodeHandshakeResponse_append:
  assumes "response_fits h" and "HandshakeResponse_Encode h [] = Inr body"
  shows "DecodeHandshakeResponse (body @ slack) = Inr h"
proof -
  have body: "body = put16 (of_nat (length (hr_KeyExchange h))) @ hr_KeyExchange h"
    using assms by (simp add: HandshakeResponse_Encode_def response_fits_def)
  show ?thesis
    using assms(1) unfolding body response_fits_def
    by (simp add: DecodeHandshakeResponse_def Let_def length_prefixed16 del: be_put.simps)
qed

interpretation init: wire_codec HandshakeInit_Encode DecodeHandshakeInit init_fits
proof
  fix x assume fits: "init_fits x"
  then obtain body where body: "\<And>dst. HandshakeInit_Encode x dst = Inr (dst @ body)"
    by (auto simp: HandshakeInit_Encode_def init_fits_def)
  then have "DecodeHandshakeInit body = Inr x"
    using DecodeHandshakeInit_append [OF fits, of body "[]"] by simp
  with body show "\<exists>body. (\<forall>dst. HandshakeInit_Encode x dst = Inr (dst @ body))
      \<and> DecodeHandshakeInit body = Inr x"
    by auto
qed

interpretation response: wire_codec HandshakeResponse_Encode DecodeHandshakeResponse response_fits
proof
  fix x assume fits: "response_fits x"
  then obtain body where body: "\<And>dst. HandshakeResponse_Encode x dst = Inr (dst @ body)"
    by (auto simp: HandshakeResponse_Encode_def response_fits_def)
  then have "DecodeHandshakeResponse body = Inr x"
    using DecodeHandshakeResponse_append [OF fits, of body "[]"] by simp
  with body show "\<exists>body. (\<forall>dst. HandshakeResponse_Encode x dst = Inr (dst @ body))
      \<and> DecodeHandshakeResponse body = Inr x"
    by auto
qed

subsection \<open>Forward\<close>

definition forward_fits :: "forward_msg \<Rightarrow> bool" where
  "forward_fits f \<longleftrightarrow>
     is4 (fw_Source f) \<and> is4 (fw_Destination f) \<and> HeaderSize \<le> length (fw_Packet f)"

lemma forward_layout:
  assumes "is4 (fw_Source f)" "is4 (fw_Destination f)"
    and body: "body = [fw_HopLimit f] @ as4 (fw_Source f) @ as4 (fw_Destination f) @ fw_Packet f"
  shows "body ! 0 = fw_HopLimit f" "slice 1 5 body = as4 (fw_Source f)"
    "slice 5 9 body = as4 (fw_Destination f)" "drop 9 body = fw_Packet f"
    "length body = 9 + length (fw_Packet f)"
  using assms by (simp_all add: slice_def)

lemma DecodeForward_Encode:
  assumes "forward_fits f" and "Forward_Encode f [] = Inr body"
  shows "DecodeForward body = Inr f"
proof -
  have fits: "is4 (fw_Source f)" "is4 (fw_Destination f)" "HeaderSize \<le> length (fw_Packet f)"
    using assms by (auto simp: forward_fits_def)
  have body: "body = [fw_HopLimit f] @ as4 (fw_Source f) @ as4 (fw_Destination f) @ fw_Packet f"
    using assms fits by (simp add: Forward_Encode_def)
  note layout = forward_layout [OF fits(1,2) body]
  show ?thesis
    using fits by (simp add: DecodeForward_def layout ForwardHeaderSize_def del: One_nat_def)
qed

interpretation forward: wire_codec Forward_Encode DecodeForward forward_fits
proof
  fix x assume fits: "forward_fits x"
  then obtain body where body: "\<And>dst. Forward_Encode x dst = Inr (dst @ body)"
    by (auto simp: Forward_Encode_def forward_fits_def)
  with DecodeForward_Encode [OF fits, of body]
  show "\<exists>body. (\<forall>dst. Forward_Encode x dst = Inr (dst @ body)) \<and> DecodeForward body = Inr x"
    by auto
qed

text \<open>What a relay decodes it can encode again, byte for byte.\<close>

lemma Forward_Encode_Decode:
  assumes "DecodeForward body = Inr f"
  shows "Forward_Encode f dst = Inr (dst @ body)" and "forward_fits f"
proof -
  have len: "29 \<le> length body"
    and f: "f = \<lparr>fw_HopLimit = body ! 0, fw_Source = addr_from4 (slice 1 5 body),
        fw_Destination = addr_from4 (slice 5 9 body), fw_Packet = drop 9 body\<rparr>"
    using assms by (auto simp: DecodeForward_def size_defs split: if_splits)
  have as4s: "as4 (addr_from4 (slice 1 5 body)) = slice 1 5 body"
    "as4 (addr_from4 (slice 5 9 body)) = slice 5 9 body"
    using len by (simp_all add: as4_addr_from4)
  have "[body ! 0] @ slice 1 5 body @ slice 5 9 body @ drop 9 body = body"
    using len by (intro nth_equalityI) (auto simp: slice_def nth_append nth_Cons')
  then show "Forward_Encode f dst = Inr (dst @ body)"
    by (simp add: f Forward_Encode_def as4s del: One_nat_def)
  show "forward_fits f"
    using len by (simp add: f forward_fits_def HeaderSize_def)
qed

section \<open>Properties\<close>

text \<open>
C38: a datagram decodes to a header and a payload exactly when it is the encoding of
that header, at the supported version, in front of that payload. Nothing else is
accepted, and no packet is read in two ways.
\<close>

theorem Decode_iff_Encode:
  "Decode pkt = Inr (h, payload) \<longleftrightarrow>
     hdr_Version h = TransportVersion \<and> pkt = Header_Encode h [] payload"
  by (simp add: Decode_Inr_iff Header_Encode_def)

text \<open>
Each reason to refuse a datagram is reported as its own error, in the order of the
checks: shorter than a header, not ours, or a version this daemon does not speak.
\<close>

theorem Decode_errors:
  "Decode pkt = Inl e \<longleftrightarrow>
     (length pkt < 20 \<and> e = ErrShortPacket) \<or>
     (20 \<le> length pkt \<and> get16 (take 2 pkt) \<noteq> Magic \<and> e = ErrBadMagic) \<or>
     (20 \<le> length pkt \<and> get16 (take 2 pkt) = Magic \<and> pkt ! 2 \<noteq> 1
       \<and> e = UnsupportedVersionError (pkt ! 2))"
  by (auto simp: Decode_def HeaderSize_def TransportVersion_def slice_0 Let_def)

text \<open>
A handshake init that fits the length fields survives the wire: its encoding inside
an envelope decodes to the same header, device id and key exchange message, whatever
else the buffer already held; one that does not fit is refused by the encoder.
\<close>

theorem handshake_init_roundtrip:
  "(if length (hi_DeviceID m) \<le> 255 \<and> length (hi_KeyExchange m) \<le> 65535
    then \<exists>body payload. HandshakeInit_Encode m dst = Inr (dst @ body) \<and>
           Decode (Header_Encode (h\<lparr>hdr_Version := TransportVersion\<rparr>) [] body)
             = Inr (h\<lparr>hdr_Version := TransportVersion\<rparr>, payload) \<and>
           DecodeHandshakeInit payload = Inr m
    else HandshakeInit_Encode m dst = Inl ErrTooLong)"
proof (cases "init_fits m")
  case True
  then obtain body where body: "HandshakeInit_Encode m [] = Inr body"
    using init.encodes by blast
  with True have "HandshakeInit_Encode m dst = Inr (dst @ body)"
    by (rule init.append_only)
  with True body init.in_envelope [OF True body, of "h\<lparr>hdr_Version := TransportVersion\<rparr>"]
  show ?thesis by (auto simp: init_fits_def)
next
  case False
  then show ?thesis by (auto simp: init_fits_def HandshakeInit_Encode_def)
qed

text \<open>
A forwarded packet is carried byte for byte. What a relay decodes from a forward
body it encodes again to the same body, and the two addresses and the wrapped packet
of a forward that fits are what the far end reads.
\<close>

theorem forward_roundtrip:
  "(DecodeForward body = Inr f \<and> HeaderSize \<le> length (fw_Packet f)) =
     (Forward_Encode f [] = Inr body \<and> HeaderSize \<le> length (fw_Packet f))"
proof
  assume "DecodeForward body = Inr f \<and> HeaderSize \<le> length (fw_Packet f)"
  then show "Forward_Encode f [] = Inr body \<and> HeaderSize \<le> length (fw_Packet f)"
    using Forward_Encode_Decode(1) [of body f "[]"] by simp
next
  assume enc: "Forward_Encode f [] = Inr body \<and> HeaderSize \<le> length (fw_Packet f)"
  then have "forward_fits f"
    by (auto simp: Forward_Encode_def forward_fits_def split: if_splits)
  with enc show "DecodeForward body = Inr f \<and> HeaderSize \<le> length (fw_Packet f)"
    by (simp add: DecodeForward_Encode)
qed

end
