(* ===== verification/Stun.thy ===== *)
theory Stun
  imports Transport
begin

text \<open>
  Finding the public address: package \<^verbatim>\<open>daemon/stun\<close>, \<^verbatim>\<open>stun.go\<close>. The random
  transaction id is an argument of \<open>NewRequest\<close>.
\<close>

section \<open>Messages\<close>

definition bindingRequest :: u16 where "bindingRequest = 0x0001"
definition bindingSuccess :: u16 where "bindingSuccess = 0x0101"
definition magicCookie :: u32 where "magicCookie = 0x2112A442"
definition stunHeaderSize :: nat where "stunHeaderSize = 20"
definition attrMappedAddress :: u16 where "attrMappedAddress = 0x0001"
definition attrXorMappedAddress :: u16 where "attrXorMappedAddress = 0x0020"
definition familyIPv4 :: byte where "familyIPv4 = 0x01"
definition familyIPv6 :: byte where "familyIPv6 = 0x02"

lemmas stun_consts = bindingRequest_def bindingSuccess_def magicCookie_def stunHeaderSize_def
  attrMappedAddress_def attrXorMappedAddress_def familyIPv4_def familyIPv6_def

datatype stun_error =
    ErrNotSTUN
  | ErrNotSuccess u16
  | ErrOtherRequest
  | ErrMessageShort
  | ErrAttribute
  | ErrAddressShort
  | ErrFamily byte
  | ErrNoAddress

record request =
  rq_ID :: bytes
  rq_Packet :: bytes

definition NewRequest :: "bytes \<Rightarrow> request" where
  "NewRequest tid =
     \<lparr>rq_ID = tid, rq_Packet = put16 bindingRequest @ put16 0 @ put32 magicCookie @ tid\<rparr>"

definition Looks :: "bytes \<Rightarrow> bool" where
  "Looks packet \<longleftrightarrow>
     \<not> length packet < stunHeaderSize \<and>
     packet ! 0 AND 0xC0 = 0 \<and>
     get32 (slice 4 8 packet) = magicCookie"

definition xor_bytes :: "bytes \<Rightarrow> bytes \<Rightarrow> bytes" where
  "xor_bytes xs key = map2 (\<lambda>x k. x XOR k) xs key"

definition parseAddress :: "bytes \<Rightarrow> bytes \<Rightarrow> bool \<Rightarrow> stun_error + addrport" where
  "parseAddress value tid xored =
     (if length value < 4 then Inl ErrAddressShort
      else
        let family = value ! 1;
            port = get16 (slice 2 4 value);
            raw = drop 4 value;
            key = put32 magicCookie @ tid;
            port = (if xored then port XOR ucast (drop_bit 16 magicCookie) else port)
        in if family = familyIPv4 then
             (if length raw < 4 then Inl ErrAddressShort
              else let out = take 4 raw; out = (if xored then xor_bytes out key else out)
                   in Inr (addr_from4 out, port))
           else if family = familyIPv6 then
             (if length raw < 16 then Inl ErrAddressShort
              else let out = take 16 raw; out = (if xored then xor_bytes out key else out)
                   in Inr (addr_from16 out, port))
           else Inl (ErrFamily family))"

text \<open>Attributes are padded to a multiple of four bytes.\<close>

definition attr_padding :: "nat \<Rightarrow> nat" where
  "attr_padding sz = (if sz mod 4 \<noteq> 0 then 4 - sz mod 4 else 0)"

definition mapped_result :: "addrport \<Rightarrow> stun_error + addrport" where
  "mapped_result fallback = (if addrport_valid fallback then Inr fallback else Inl ErrNoAddress)"

text \<open>The loop over the attributes of a message.\<close>

function parse_attrs :: "bytes \<Rightarrow> bytes \<Rightarrow> addrport \<Rightarrow> stun_error + addrport" where
  "parse_attrs tid body fallback =
     (if length body < 4 then mapped_result fallback
      else
        let kind = get16 (slice 0 2 body);
            sz = unat (get16 (slice 2 4 body))
        in if 4 + sz > length body then Inl ErrAttribute
           else
             let val = slice 4 (4 + sz) body
             in if kind = attrXorMappedAddress then parseAddress val tid True
                else
                  let fallback' = (if kind = attrMappedAddress
                                   then (case parseAddress val tid False of
                                           Inl _ \<Rightarrow> fallback | Inr addr \<Rightarrow> addr)
                                   else fallback);
                      advance = 4 + sz + attr_padding sz
                  in if advance > length body then mapped_result fallback'
                     else parse_attrs tid (drop advance body) fallback')"
  by pat_completeness auto
termination
  by (relation "measure (\<lambda>(tid, body, fallback). length body)") auto

declare parse_attrs.simps [simp del]

definition ParseResponse :: "bytes \<Rightarrow> bytes \<Rightarrow> stun_error + addrport" where
  "ParseResponse tid packet =
     (if \<not> Looks packet then Inl ErrNotSTUN
      else if get16 (slice 0 2 packet) \<noteq> bindingSuccess
      then Inl (ErrNotSuccess (get16 (slice 0 2 packet)))
      else if slice 8 20 packet \<noteq> tid then Inl ErrOtherRequest
      else
        let len = unat (get16 (slice 2 4 packet))
        in if stunHeaderSize + len > length packet then Inl ErrMessageShort
           else parse_attrs tid (slice stunHeaderSize (stunHeaderSize + len) packet) no_addrport)"

section \<open>One socket for both protocols\<close>

lemma header_bytes_first: "(header_bytes h @ ps) ! 0 = 0xC1"
  by (simp add: header_bytes_def Magic_def put16_unfold)

lemma Decode_first_byte: "Decode pkt = Inr (h, ps) \<Longrightarrow> pkt ! 0 = 0xC1"
  using header_bytes_first by (auto simp: Decode_Inr_iff)

section \<open>What a server answers\<close>

text \<open>
  The encoding of RFC 5389, as a server builds it: an attribute with its padding, and an
  IPv4 address in the XOR form.
\<close>

definition attr_bytes :: "u16 \<times> bytes \<Rightarrow> bytes" where
  "attr_bytes a = (case a of (k, v) \<Rightarrow>
     put16 k @ put16 (of_nat (length v)) @ v @ replicate (attr_padding (length v)) 0)"

definition xor_address4 :: "u32 \<Rightarrow> u16 \<Rightarrow> bytes" where
  "xor_address4 ip port =
     [0, familyIPv4] @ put16 (port XOR 0x2112) @ put32 (ip XOR magicCookie)"

definition success_packet :: "bytes \<Rightarrow> bytes \<Rightarrow> bytes" where
  "success_packet tid body =
     put16 bindingSuccess @ put16 (of_nat (length body)) @ put32 magicCookie @ tid @ body"

lemma attr_bytes_parts:
  assumes "length v \<le> 65535"
  shows "slice 0 2 (attr_bytes (k, v) @ rest) = put16 k"
    "slice 2 4 (attr_bytes (k, v) @ rest) = put16 (of_nat (length v))"
    "slice 4 (4 + length v) (attr_bytes (k, v) @ rest) = v"
    "length (attr_bytes (k, v)) = 4 + length v + attr_padding (length v)"
  using assms by (simp_all add: attr_bytes_def slice_def del: be_put.simps)

lemma parse_attrs_skip:
  assumes "length v \<le> 65535" "k \<noteq> attrXorMappedAddress"
  shows "\<exists>fb'. parse_attrs tid (attr_bytes (k, v) @ rest) fb = parse_attrs tid rest fb'"
  using assms
  by (subst parse_attrs.simps)
    (auto simp: attr_bytes_parts Let_def simp del: be_put.simps split_paired_Ex)

lemma parse_attrs_xor:
  assumes "length v \<le> 65535"
  shows "parse_attrs tid (attr_bytes (attrXorMappedAddress, v) @ rest) fb = parseAddress v tid True"
  using assms
  by (subst parse_attrs.simps) (auto simp: attr_bytes_parts Let_def simp del: be_put.simps)

lemma parse_attrs_skips:
  assumes "\<forall>(k, v)\<in>set attrs. length v \<le> 65535 \<and> k \<noteq> attrXorMappedAddress"
  shows "\<exists>fb'. parse_attrs tid (concat (map attr_bytes attrs) @ rest) fb = parse_attrs tid rest fb'"
  using assms
proof (induction attrs arbitrary: fb)
  case Nil
  then show ?case by (auto simp del: split_paired_Ex)
next
  case (Cons a attrs)
  obtain k v where a: "a = (k, v)" by (cases a)
  with Cons.prems parse_attrs_skip [of v k tid "concat (map attr_bytes attrs) @ rest" fb]
  obtain fb' where "parse_attrs tid (concat (map attr_bytes (a # attrs)) @ rest) fb
      = parse_attrs tid (concat (map attr_bytes attrs) @ rest) fb'"
    by (auto simp del: split_paired_Ex)
  with Cons show ?case by (auto simp del: split_paired_Ex)
qed

lemma be_put_xor: "xor_bytes (be_put n v) (be_put n w) = be_put n (v XOR w)"
  by (induction n) (auto simp: xor_bytes_def intro!: bit_word_eqI simp: bit_simps)

lemma xor_bytes_append: "length xs \<le> length ys \<Longrightarrow> xor_bytes xs (ys @ zs) = xor_bytes xs ys"
  by (simp add: xor_bytes_def zip_append2)

lemma parse_xor_address4:
  "parseAddress (xor_address4 ip port) tid True = Inr (Addr4 ip, port)"
proof -
  have "xor_bytes (put32 (ip XOR magicCookie)) (put32 magicCookie @ tid) = put32 ip"
    by (simp add: xor_bytes_append be_put_xor xor.assoc del: be_put.simps)
  moreover have "ucast (drop_bit 16 magicCookie) = (0x2112 :: u16)"
    by (simp add: magicCookie_def)
  ultimately show ?thesis
    by (simp add: parseAddress_def xor_address4_def slice_def Let_def addr_from4_def be_get_put
        xor.assoc del: be_put.simps)
qed

lemma success_packet_parts:
  assumes "length tid = 12" "length body \<le> 65535"
  shows "Looks (success_packet tid body)"
    "slice 0 2 (success_packet tid body) = put16 bindingSuccess"
    "slice 2 4 (success_packet tid body) = put16 (of_nat (length body))"
    "slice 8 20 (success_packet tid body) = tid"
    "slice 20 (20 + length body) (success_packet tid body) = body"
    "length (success_packet tid body) = 20 + length body"
proof -
  have "success_packet tid body ! 0 = 1"
    by (simp add: success_packet_def bindingSuccess_def put16_unfold)
  moreover have "slice 4 8 (success_packet tid body) = put32 magicCookie"
    by (simp add: success_packet_def slice_def del: be_put.simps)
  ultimately show "Looks (success_packet tid body)"
    using assms by (simp add: Looks_def success_packet_def stunHeaderSize_def del: be_put.simps)
qed (use assms in \<open>simp_all add: success_packet_def slice_def del: be_put.simps\<close>)

section \<open>Properties\<close>

text \<open>
The socket shared with STUN is unambiguous. Nothing this protocol sends looks like
STUN, and nothing that looks like STUN decodes as a packet of this protocol; a binding
request of our own looks like STUN.
\<close>

theorem stun_disjoint:
  "\<not> Looks (Header_Encode h [] payload) \<and>
   \<not> (Looks pkt \<and> Decode pkt = Inr r) \<and>
   (length tid = 12 \<longleftrightarrow> length (rq_Packet (NewRequest tid)) = 20 \<and> Looks (rq_Packet (NewRequest tid)))"
proof (intro conjI)
  show "\<not> Looks (Header_Encode h [] payload)"
    using header_bytes_first [of h payload] by (simp add: Looks_def Header_Encode_def)
  show "\<not> (Looks pkt \<and> Decode pkt = Inr r)"
    using Decode_first_byte by (cases r) (fastforce simp: Looks_def)
  have "rq_Packet (NewRequest tid) ! 0 = 0"
    by (simp add: NewRequest_def bindingRequest_def put16_unfold)
  moreover have "slice 4 8 (rq_Packet (NewRequest tid)) = put32 magicCookie"
    by (simp add: NewRequest_def slice_def del: be_put.simps)
  ultimately show "length tid = 12 \<longleftrightarrow>
      length (rq_Packet (NewRequest tid)) = 20 \<and> Looks (rq_Packet (NewRequest tid))"
    by (auto simp: Looks_def NewRequest_def stunHeaderSize_def simp del: be_put.simps)
qed

text \<open>
A server's answer is read back as the address the server saw. For a binding
success to our transaction that carries any other attributes (the plain mapped address
included), then the XOR-mapped IPv4 address, then anything at all, the parser returns
exactly that address and port.
\<close>

theorem ParseResponse_xor_mapped:
  assumes "length tid = 12"
    and "\<forall>(k, v)\<in>set attrs. length v \<le> 65535 \<and> k \<noteq> attrXorMappedAddress"
    and "body = concat (map attr_bytes attrs)
           @ attr_bytes (attrXorMappedAddress, xor_address4 ip port) @ rest"
    and "length body \<le> 65535"
  shows "ParseResponse tid (success_packet tid body) = Inr (Addr4 ip, port)"
proof -
  note parts = success_packet_parts [OF assms(1,4)]
  have "length (xor_address4 ip port) \<le> 65535"
    by (simp add: xor_address4_def)
  then have "parse_attrs tid body no_addrport = Inr (Addr4 ip, port)"
    using parse_attrs_skips [OF assms(2), of tid "attr_bytes (attrXorMappedAddress,
        xor_address4 ip port) @ rest" no_addrport]
    by (auto simp: assms(3) parse_attrs_xor parse_xor_address4)
  then show ?thesis
    using assms(4) by (simp add: ParseResponse_def parts stunHeaderSize_def Let_def del: be_put.simps)
qed

theorem ParseResponse_xor_mapped_witness:
  "ParseResponse (replicate 12 7)
     (success_packet (replicate 12 7)
        (attr_bytes (0x8022, [1, 2, 3]) @ attr_bytes (attrXorMappedAddress, xor_address4 0x01020304 4242)))
   = Inr (Addr4 0x01020304, 4242)"
proof -
  let ?attrs = "[(0x8022, [1, 2, 3])] :: (u16 \<times> bytes) list"
  have "length (concat (map attr_bytes ?attrs)
      @ attr_bytes (attrXorMappedAddress, xor_address4 0x01020304 4242) @ []) \<le> 65535"
    by (simp add: attr_bytes_def attr_padding_def xor_address4_def)
  from ParseResponse_xor_mapped [OF _ _ refl this, of "replicate 12 7"] show ?thesis
    by (simp add: attrXorMappedAddress_def)
qed

text \<open>
An answer is only believed for the request it answers. Whatever arrives, an address
comes out only of a well-formed binding success that carries our transaction id.
\<close>

theorem ParseResponse_authentic:
  assumes "ParseResponse tid packet = Inr a"
  shows "Looks packet \<and> slice 8 20 packet = tid \<and> get16 (slice 0 2 packet) = bindingSuccess
    \<and> 20 + unat (get16 (slice 2 4 packet)) \<le> length packet"
  using assms by (auto simp: ParseResponse_def stunHeaderSize_def Let_def split: if_splits)

theorem ParseResponse_authentic_witness:
  "let body = attr_bytes (attrXorMappedAddress, xor_address4 0x01020304 4242)
   in slice 8 20 (success_packet (replicate 12 7) body) = replicate 12 7"
proof -
  let ?body = "attr_bytes (attrXorMappedAddress, xor_address4 0x01020304 4242)"
  have "length (xor_address4 0x01020304 4242) \<le> 65535" and len: "length ?body \<le> 65535"
    by (simp_all add: attr_bytes_def attr_padding_def xor_address4_def)
  then have "ParseResponse (replicate 12 7) (success_packet (replicate 12 7) ?body)
      = Inr (Addr4 0x01020304, 4242)"
    using success_packet_parts [OF _ len, of "replicate 12 7"]
      parse_attrs_xor [of "xor_address4 0x01020304 4242" "replicate 12 7" "[]"]
    by (simp add: ParseResponse_def stunHeaderSize_def Let_def parse_xor_address4 del: be_put.simps)
  from ParseResponse_authentic [OF this] show ?thesis by (simp add: Let_def)
qed

end
