(* ===== verification/Netlog.thy ===== *)
theory Netlog
  imports Prelude
begin

text \<open>
  The account of what happens to packets: package \<^verbatim>\<open>daemon/netlog\<close>, \<^verbatim>\<open>netlog.go\<close>.
  Counters are 64-bit and wrap. The packet log is the list of its lines; opening, rolling
  and closing the file behind it is left to package \<^verbatim>\<open>config\<close> and appears here as
  whether the open succeeds. A nil recorder, which ignores every call, is not modelled.
\<close>

datatype reason =
    NoPeer | NoSession | NoPath | NotIPv4 | AdapterFull | QueueFull | Undecryptable | Replayed
  | UnknownPeer | Unroutable | HopsExhausted | Malformed | Undeliverable

definition reasons :: "reason list" where
  "reasons = [NoPeer, NoSession, NoPath, NotIPv4, AdapterFull, QueueFull, Undecryptable, Replayed,
     UnknownPeer, Unroutable, HopsExhausted, Malformed, Undeliverable]"

fun reason_String :: "reason \<Rightarrow> string" where
  "reason_String NoPeer = ''noPeer''"
| "reason_String NoSession = ''noSession''"
| "reason_String NoPath = ''noPath''"
| "reason_String NotIPv4 = ''notIPv4''"
| "reason_String AdapterFull = ''adapterFull''"
| "reason_String QueueFull = ''queueFull''"
| "reason_String Undecryptable = ''undecryptable''"
| "reason_String Replayed = ''replayed''"
| "reason_String UnknownPeer = ''unknownPeer''"
| "reason_String Unroutable = ''unroutable''"
| "reason_String HopsExhausted = ''hopsExhausted''"
| "reason_String Malformed = ''malformed''"
| "reason_String Undeliverable = ''undeliverable''"

record totals =
  t_sent :: u64
  t_received :: u64
  t_shouted :: u64
  t_overheard :: u64
  t_drops :: "reason \<Rightarrow> u64"

text \<open>One line of the packet log.\<close>

datatype detail =
    Dropped reason
  | Replicated addr nat nat
  | ArrivedForEveryone addr addr nat

record recorder =
  r_totals :: totals
  r_on :: bool
  r_detail :: "detail list"

definition no_totals :: totals where
  "no_totals = \<lparr>t_sent = 0, t_received = 0, t_shouted = 0, t_overheard = 0, t_drops = (\<lambda>_. 0)\<rparr>"

definition new_recorder :: recorder where
  "new_recorder = \<lparr>r_totals = no_totals, r_on = False, r_detail = []\<rparr>"

text \<open>\<open>SetEnabled on\<close>: whether it succeeds depends on the file opening.\<close>

definition SetEnabled :: "bool \<Rightarrow> bool \<Rightarrow> recorder \<Rightarrow> bool \<times> recorder" where
  "SetEnabled openable on r =
     (if on = r_on r then (True, r)
      else if \<not> on then (True, r\<lparr>r_on := False\<rparr>)
      else if \<not> openable then (False, r)
      else (True, r\<lparr>r_on := True\<rparr>))"

definition Detail :: "detail \<Rightarrow> recorder \<Rightarrow> recorder" where
  "Detail line r = (if \<not> r_on r then r else r\<lparr>r_detail := r_detail r @ [line]\<rparr>)"

definition Sent :: "recorder \<Rightarrow> recorder" where
  "Sent r = (let t = r_totals r in r\<lparr>r_totals := t\<lparr>t_sent := t_sent t + 1\<rparr>\<rparr>)"

definition Received :: "recorder \<Rightarrow> recorder" where
  "Received r = (let t = r_totals r in r\<lparr>r_totals := t\<lparr>t_received := t_received t + 1\<rparr>\<rparr>)"

definition Drop :: "reason \<Rightarrow> recorder \<Rightarrow> recorder" where
  "Drop reason r =
     (let t = r_totals r;
          r' = r\<lparr>r_totals := t\<lparr>t_drops := (t_drops t)(reason := t_drops t reason + 1)\<rparr>\<rparr>
      in if \<not> r_on r' then r' else Detail (Dropped reason) r')"

definition Shouted :: "addr \<Rightarrow> nat \<Rightarrow> nat \<Rightarrow> recorder \<Rightarrow> recorder" where
  "Shouted destination peers len r =
     (let t = r_totals r; r' = r\<lparr>r_totals := t\<lparr>t_shouted := t_shouted t + 1\<rparr>\<rparr>
      in if r_on r' then Detail (Replicated destination peers len) r' else r')"

definition Overheard :: "addr \<Rightarrow> addr \<Rightarrow> nat \<Rightarrow> recorder \<Rightarrow> recorder" where
  "Overheard from destination len r =
     (let t = r_totals r; r' = r\<lparr>r_totals := t\<lparr>t_overheard := t_overheard t + 1\<rparr>\<rparr>
      in if r_on r' then Detail (ArrivedForEveryone from destination len) r' else r')"

section \<open>Summaries\<close>

definition moved_drops :: "totals \<Rightarrow> totals \<Rightarrow> (string \<times> u64) list" where
  "moved_drops t since =
     concat (map (\<lambda>r. let moved = t_drops t r - t_drops since r
                       in if moved = 0 then [] else [(reason_String r, moved)]) reasons)"

definition attrs :: "totals \<Rightarrow> totals \<Rightarrow> (string \<times> u64) list" where
  "attrs t since =
     (let a = [(''sent'', t_sent t - t_sent since), (''received'', t_received t - t_received since)];
          a = a @ (if t_shouted t - t_shouted since > 0
                   then [(''replicated'', t_shouted t - t_shouted since)] else []);
          a = a @ (if t_overheard t - t_overheard since > 0
                   then [(''arrivedForEveryone'', t_overheard t - t_overheard since)] else []);
          moved = moved_drops t since;
          dropped = sum_list (map snd moved);
          a = a @ moved
      in if dropped > 0 then (''dropped'', dropped) # a else a)"

text \<open>
  \<open>Run\<close>: at every tick the counters are read, and a reading that moved is written to the
  log as its change since the last one written.
\<close>

fun summaries :: "totals \<Rightarrow> totals list \<Rightarrow> (string \<times> u64) list list" where
  "summaries prev [] = []"
| "summaries prev (current # readings) =
     (if current = prev then summaries prev readings
      else attrs current prev # summaries current readings)"

text \<open>What a log line says under a name, zero when it does not name it.\<close>

definition reported :: "string \<Rightarrow> (string \<times> u64) list \<Rightarrow> u64" where
  "reported name line = (case map_of line name of None \<Rightarrow> 0 | Some v \<Rightarrow> v)"

lemma reason_String_inject: "reason_String a = reason_String b \<longleftrightarrow> a = b"
  by (cases a; cases b) simp_all

lemma reason_String_neq:
  "reason_String r \<noteq> ''sent''" "reason_String r \<noteq> ''received''" "reason_String r \<noteq> ''replicated''"
  "reason_String r \<noteq> ''arrivedForEveryone''" "reason_String r \<noteq> ''dropped''"
  by (cases r; simp)+

lemma reasons_complete: "r \<in> set reasons"
  by (cases r) (simp_all add: reasons_def)

lemma map_of_moved:
  "map_of (concat (map (\<lambda>r. let moved = f r in if moved = (0::u64) then [] else [(reason_String r, moved)]) rs))
     (reason_String r) = (if r \<in> set rs \<and> f r \<noteq> 0 then Some (f r) else None)"
  by (induction rs) (auto simp: Let_def reason_String_inject)

lemma map_of_append_other: "k \<notin> fst ` set xs \<Longrightarrow> map_of (xs @ ys) k = map_of ys k"
  by (simp add: map_add_def dom_map_of_conv_image_fst [symmetric] domIff)

definition summary_names :: "string set" where
  "summary_names = {''sent'', ''received'', ''replicated'', ''arrivedForEveryone'', ''dropped''}"

lemma attrs_split:
  obtains pre where "attrs t since = pre @ moved_drops t since" "fst ` set pre \<subseteq> summary_names"
proof
  let ?d = "sum_list (map snd (moved_drops t since))"
  let ?s = "t_shouted t - t_shouted since" and ?o = "t_overheard t - t_overheard since"
  let ?pre = "(if ?d > 0 then [(''dropped'', ?d)] else [])
    @ [(''sent'', t_sent t - t_sent since), (''received'', t_received t - t_received since)]
    @ (if ?s > 0 then [(''replicated'', ?s)] else [])
    @ (if ?o > 0 then [(''arrivedForEveryone'', ?o)] else [])"
  show "attrs t since = ?pre @ moved_drops t since"
    by (simp only: attrs_def Let_def append_assoc append_Cons append_Nil split: if_split) simp
  show "fst ` set ?pre \<subseteq> summary_names"
    by (auto simp: summary_names_def)
qed

lemma reason_not_summary: "reason_String r \<notin> summary_names"
  unfolding summary_names_def using reason_String_neq [of r] by simp

lemma reported_attrs:
  "reported (reason_String r) (attrs t since) = t_drops t r - t_drops since r"
proof -
  obtain pre where pre: "attrs t since = pre @ moved_drops t since" "fst ` set pre \<subseteq> summary_names"
    by (rule attrs_split)
  then have "reason_String r \<notin> fst ` set pre"
    using reason_not_summary by blast
  then have "map_of (attrs t since) (reason_String r) = map_of (moved_drops t since) (reason_String r)"
    unfolding pre(1) by (rule map_of_append_other)
  then have "map_of (attrs t since) (reason_String r) =
      (if t_drops t r - t_drops since r \<noteq> 0 then Some (t_drops t r - t_drops since r) else None)"
    unfolding moved_drops_def by (simp only: map_of_moved reasons_complete simp_thms)
  then show ?thesis by (simp add: reported_def)
qed

section \<open>Properties\<close>

text \<open>
The half-minute summaries account for every dropped packet. Whatever readings the
ticker takes, what the log lines say was dropped for a reason adds up to what the
counter for that reason moved between the first and the last reading.
\<close>

theorem summaries_account_for_drops:
  "sum_list (map (reported (reason_String r)) (summaries t readings)) =
     t_drops (last (t # readings)) r - t_drops t r"
proof (induction readings arbitrary: t)
  case Nil
  then show ?case by simp
next
  case (Cons current readings)
  show ?case
  proof (cases "current = t")
    case True
    with Cons [of t] show ?thesis by (cases readings) simp_all
  next
    case False
    with Cons [of current] show ?thesis by (cases readings) (simp_all add: reported_attrs)
  qed
qed

end
