(* ===== verification/Mesh.thy ===== *)
theory Mesh
  imports Peer Transport Stun Netlog
begin

text \<open>
  The peer-to-peer half of the daemon: package \<^verbatim>\<open>daemon/mesh\<close>, \<^verbatim>\<open>mesh.go\<close> and
  \<^verbatim>\<open>handle.go\<close>. The state of the socket, the links and their indexes is the record
  \<open>mesh\<close>. Links are shared and mutable in the code (a link points at the link that
  carries it, also after that one was removed from the group), so they live in a heap
  and everything else holds references into it. What the code writes to the socket and
  reports to the core is appended to \<open>m_out\<close> and \<open>m_events\<close>. Log lines are left out.

  The environment of one call: the clock, the random numbers still to be drawn (\<open>None\<close>
  when the system source fails), and whether the socket takes a write.
\<close>

record env =
  e_now :: instant
  e_rand :: "nat \<Rightarrow> u64 option"
  e_write :: "addrport \<Rightarrow> bytes \<Rightarrow> bool"

datatype mesh_event =
    PeerStateChanged bytes peer_state peer_reason
  | PeerLatencyChanged bytes duration

record ('k, 'hs, 'cs) mesh =
  m_keys :: 'k
  m_device :: bytes
  m_virtualIP :: addr
  m_packets :: recorder
  m_heap :: "('hs, 'cs) peer list"
  m_peers :: "(bytes, ref) gomap"
  m_byIP :: "(addr, ref) gomap"
  m_byUDP :: "(addrport, ref) gomap"
  m_strangers :: "addrport list"
  m_stunWaiters :: "(bytes, addrport option) gomap"
  m_inbound :: "bytes list"
  m_out :: "(addrport \<times> bytes) list"
  m_events :: "mesh_event list"
  m_draws :: nat

definition probeInterval :: duration where "probeInterval = 500 * millisecond"
definition keepaliveInterval :: duration where "keepaliveInterval = 15 * second"
definition deadAfter :: duration where "deadAfter = 45 * second"
definition handshakeRetry :: duration where "handshakeRetry = second"
definition maxHandshakes :: nat where "maxHandshakes = 10"
definition maxRelayHandshakes :: nat where "maxRelayHandshakes = 3"
definition initialHopLimit :: u8 where "initialHopLimit = 1"
definition inboundCapacity :: nat where "inboundCapacity = 256"

definition New :: "bytes \<Rightarrow> addr \<Rightarrow> 'k \<Rightarrow> recorder \<Rightarrow> ('k, 'hs, 'cs) mesh" where
  "New deviceID virtualIP keys packets =
     \<lparr>m_keys = keys, m_device = deviceID, m_virtualIP = virtualIP, m_packets = packets,
      m_heap = [], m_peers = [], m_byIP = [], m_byUDP = [], m_strangers = [],
      m_stunWaiters = [], m_inbound = [], m_out = [], m_events = [], m_draws = 0\<rparr>"

section \<open>Heap, randomness, reports\<close>

abbreviation peer_ref :: "('k, 'hs, 'cs) mesh \<Rightarrow> ref \<Rightarrow> ('hs, 'cs) peer" where
  "peer_ref m r \<equiv> m_heap m ! r"

definition upd_peer ::
  "ref \<Rightarrow> (('hs, 'cs) peer \<Rightarrow> ('hs, 'cs) peer) \<Rightarrow> ('k, 'hs, 'cs) mesh \<Rightarrow> ('k, 'hs, 'cs) mesh" where
  "upd_peer r f m = m\<lparr>m_heap := (m_heap m)[r := f (m_heap m ! r)]\<rparr>"

definition drop_packet :: "reason \<Rightarrow> ('k, 'hs, 'cs) mesh \<Rightarrow> ('k, 'hs, 'cs) mesh" where
  "drop_packet reason m = m\<lparr>m_packets := Drop reason (m_packets m)\<rparr>"

definition randomSender :: "env \<Rightarrow> ('k, 'hs, 'cs) mesh \<Rightarrow> u64 option \<times> ('k, 'hs, 'cs) mesh" where
  "randomSender env m = (e_rand env (m_draws m), m\<lparr>m_draws := Suc (m_draws m)\<rparr>)"

definition randomToken :: "env \<Rightarrow> ('k, 'hs, 'cs) mesh \<Rightarrow> u64 \<times> ('k, 'hs, 'cs) mesh" where
  "randomToken env m =
     (case randomSender env m of
        (None, m) \<Rightarrow> (of_int (e_now env), m)
      | (Some token, m) \<Rightarrow> (token, m))"

definition report :: "ref \<Rightarrow> ('k, 'hs, 'cs) mesh \<Rightarrow> ('k, 'hs, 'cs) mesh" where
  "report r m =
     (case status (peer_ref m r) of (state, reason) \<Rightarrow>
        m\<lparr>m_events := m_events m @ [PeerStateChanged (p_DeviceID (peer_ref m r)) state reason]\<rparr>)"

definition noteStranger :: "addrport \<Rightarrow> ('k, 'hs, 'cs) mesh \<Rightarrow> ('k, 'hs, 'cs) mesh" where
  "noteStranger from m =
     (if from \<notin> set (m_strangers m) \<and> length (m_strangers m) < 32
      then m\<lparr>m_strangers := m_strangers m @ [from]\<rparr> else m)"

definition forgetStranger :: "addrport \<Rightarrow> ('k, 'hs, 'cs) mesh \<Rightarrow> ('k, 'hs, 'cs) mesh" where
  "forgetStranger from m = m\<lparr>m_strangers := removeAll from (m_strangers m)\<rparr>"

text \<open>\<open>Peers\<close>: the links, in the order this iteration of the map happens to take.\<close>

definition Peers :: "('k, 'hs, 'cs) mesh \<Rightarrow> ref list" where
  "Peers m = map snd (m_peers m)"

definition peerAt :: "addrport \<Rightarrow> ('k, 'hs, 'cs) mesh \<Rightarrow> ref option" where
  "peerAt from m = lookup (m_byUDP m) from"

definition index_ip :: "('hs, 'cs) peer list \<Rightarrow> (bytes, ref) gomap \<Rightarrow> (addr, ref) gomap" where
  "index_ip heap peers =
     fold (\<lambda>(d, r) acc. if addr_valid (p_VirtualIP (heap ! r)) then store (p_VirtualIP (heap ! r)) r acc
                        else acc) peers []"

definition index_udp :: "('hs, 'cs) peer list \<Rightarrow> (bytes, ref) gomap \<Rightarrow> (addrport, ref) gomap" where
  "index_udp heap peers =
     fold (\<lambda>(d, r) acc. if addrport_valid (p_endpoint (heap ! r)) then store (p_endpoint (heap ! r)) r acc
                        else acc) peers []"

definition reindex :: "('k, 'hs, 'cs) mesh \<Rightarrow> ('k, 'hs, 'cs) mesh" where
  "reindex m = m\<lparr>m_byIP := index_ip (m_heap m) (m_peers m),
                 m_byUDP := index_udp (m_heap m) (m_peers m)\<rparr>"

section \<open>Sending\<close>

definition envelope :: "u8 \<Rightarrow> u64 \<Rightarrow> u64 \<Rightarrow> bytes \<Rightarrow> bytes" where
  "envelope kind sender counter body =
     Header_Encode \<lparr>hdr_Version = TransportVersion, hdr_Type = kind, hdr_Sender = sender,
                    hdr_Counter = counter\<rparr> [] body"

definition write_udp ::
  "env \<Rightarrow> addrport \<Rightarrow> bytes \<Rightarrow> ('k, 'hs, 'cs) mesh \<Rightarrow> mesh_error option \<times> ('k, 'hs, 'cs) mesh" where
  "write_udp env to packet m =
     (if e_write env to packet then (None, m\<lparr>m_out := m_out m @ [(to, packet)]\<rparr>)
      else (Some ErrSocket, m))"

definition sendTo ::
  "env \<Rightarrow> addrport \<Rightarrow> bytes \<Rightarrow> ('k, 'hs, 'cs) mesh \<Rightarrow> ('k, 'hs, 'cs) mesh" where
  "sendTo env to packet m = snd (write_udp env to packet m)"

text \<open>A body sealed for one link, in its envelope: the common part of \<open>sendData\<close> and \<open>forward\<close>.\<close>

definition seal_for ::
  "('k, 'hs, 'cs) noise \<Rightarrow> u8 \<Rightarrow> ref \<Rightarrow> bytes \<Rightarrow> ('k, 'hs, 'cs) mesh \<Rightarrow>
     (mesh_error + bytes) \<times> ('k, 'hs, 'cs) mesh" where
  "seal_for N kind r body m =
     (case nextCounter (peer_ref m r) of
        (Inl e, _) \<Rightarrow> (Inl e, m)
      | (Inr (current, counter), p) \<Rightarrow>
          let m = upd_peer r (\<lambda>_. p) m;
              out = Header_Encode \<lparr>hdr_Version = TransportVersion, hdr_Type = kind,
                      hdr_Sender = p_sender p, hdr_Counter = counter\<rparr> [] []
          in case Seal N current out (take HeaderSize out) body counter of
               Inl e \<Rightarrow> (Inl (ErrCrypto e), m)
             | Inr out \<Rightarrow> (Inr out, m))"

definition forward ::
  "('k, 'hs, 'cs) noise \<Rightarrow> env \<Rightarrow> ref \<Rightarrow> forward_msg \<Rightarrow> ('k, 'hs, 'cs) mesh \<Rightarrow>
     mesh_error option \<times> ('k, 'hs, 'cs) mesh" where
  "forward N env relay carried m =
     (case Forward_Encode carried [] of
        Inl _ \<Rightarrow> (Some ErrEncode, m)
      | Inr body \<Rightarrow>
          (case seal_for N MsgForward relay body m of
             (Inl e, m) \<Rightarrow> (Some e, m)
           | (Inr out, m) \<Rightarrow>
               let endpoint = p_endpoint (peer_ref m relay)
               in if \<not> addrport_valid endpoint then (Some ErrNoPath, m)
                  else write_udp env endpoint out m))"

definition deliver ::
  "('k, 'hs, 'cs) noise \<Rightarrow> env \<Rightarrow> ref \<Rightarrow> bytes \<Rightarrow> ('k, 'hs, 'cs) mesh \<Rightarrow>
     mesh_error option \<times> ('k, 'hs, 'cs) mesh" where
  "deliver N env r packet m =
     (case p_via (peer_ref m r) of
        Some relay \<Rightarrow>
          forward N env relay \<lparr>fw_HopLimit = initialHopLimit, fw_Source = m_virtualIP m,
            fw_Destination = p_VirtualIP (peer_ref m r), fw_Packet = packet\<rparr> m
      | None \<Rightarrow>
          let endpoint = p_endpoint (peer_ref m r)
          in if \<not> addrport_valid endpoint then (Some ErrNoPath, m)
             else write_udp env endpoint packet m)"

definition sendData ::
  "('k, 'hs, 'cs) noise \<Rightarrow> env \<Rightarrow> ref \<Rightarrow> bytes \<Rightarrow> ('k, 'hs, 'cs) mesh \<Rightarrow>
     mesh_error option \<times> ('k, 'hs, 'cs) mesh" where
  "sendData N env r packet m =
     (case seal_for N MsgData r packet m of
        (Inl e, m) \<Rightarrow> (Some e, m)
      | (Inr out, m) \<Rightarrow>
          (case deliver N env r out m of
             (Some e, m) \<Rightarrow> (Some e, m)
           | (None, m) \<Rightarrow> (None, upd_peer r (\<lambda>p. p\<lparr>p_sent := p_sent p + 1\<rparr>) m)))"

definition reasonFor :: "mesh_error \<Rightarrow> reason" where
  "reasonFor err = (case err of ErrNoSession \<Rightarrow> NoSession | ErrNoPath \<Rightarrow> NoPath | _ \<Rightarrow> Undeliverable)"

datatype send_result = Delivered | NobodyHas | SendFailed mesh_error

definition Send ::
  "('k, 'hs, 'cs) noise \<Rightarrow> env \<Rightarrow> addr \<Rightarrow> bytes \<Rightarrow> ('k, 'hs, 'cs) mesh \<Rightarrow>
     send_result \<times> ('k, 'hs, 'cs) mesh" where
  "Send N env destination packet m =
     (case lookup (m_byIP m) destination of
        None \<Rightarrow> (NobodyHas, drop_packet NoPeer m)
      | Some r \<Rightarrow>
          (case sendData N env r packet m of
             (Some e, m) \<Rightarrow> (SendFailed e, drop_packet (reasonFor e) m)
           | (None, m) \<Rightarrow> (Delivered, m)))"

fun broadcast_to ::
  "('k, 'hs, 'cs) noise \<Rightarrow> env \<Rightarrow> bytes \<Rightarrow> ref list \<Rightarrow> ('k, 'hs, 'cs) mesh \<Rightarrow>
     nat \<times> ('k, 'hs, 'cs) mesh" where
  "broadcast_to N env packet [] m = (0, m)"
| "broadcast_to N env packet (r # rs) m =
     (case sendData N env r packet m of
        (None, m) \<Rightarrow> (case broadcast_to N env packet rs m of (sent, m) \<Rightarrow> (Suc sent, m))
      | (Some e, m) \<Rightarrow> broadcast_to N env packet rs (drop_packet (reasonFor e) m))"

definition Broadcast ::
  "('k, 'hs, 'cs) noise \<Rightarrow> env \<Rightarrow> bytes \<Rightarrow> ('k, 'hs, 'cs) mesh \<Rightarrow> nat \<times> ('k, 'hs, 'cs) mesh" where
  "Broadcast N env packet m = broadcast_to N env packet (Peers m) m"

definition send ::
  "('k, 'hs, 'cs) noise \<Rightarrow> env \<Rightarrow> ref \<Rightarrow> u8 \<Rightarrow> u64 \<Rightarrow> u64 \<Rightarrow> bytes \<Rightarrow>
     ('k, 'hs, 'cs) mesh \<Rightarrow> ('k, 'hs, 'cs) mesh" where
  "send N env r kind sender counter body m =
     snd (deliver N env r (envelope kind sender counter body) m)"

section \<open>Punching and handshakes\<close>

definition punch :: "env \<Rightarrow> ref \<Rightarrow> ('k, 'hs, 'cs) mesh \<Rightarrow> ('k, 'hs, 'cs) mesh" where
  "punch env r m =
     (let endpoint = p_endpoint (peer_ref m r)
      in if \<not> addrport_valid endpoint then m
         else
           case randomToken env m of (token, m) \<Rightarrow>
             let m = upd_peer r (expect (e_now env) token) m;
                 m = upd_peer r (\<lambda>p. p\<lparr>p_lastProbe := Some (e_now env)\<rparr>) m
             in sendTo env endpoint
                  (envelope MsgProbe 0 0 (Ping_Encode \<lparr>ping_Token = token, ping_Reply = False\<rparr> [])) m)"

definition sendKeepalive ::
  "('k, 'hs, 'cs) noise \<Rightarrow> env \<Rightarrow> ref \<Rightarrow> ('k, 'hs, 'cs) mesh \<Rightarrow> ('k, 'hs, 'cs) mesh" where
  "sendKeepalive N env r m =
     (case randomToken env m of (token, m) \<Rightarrow>
        let m = upd_peer r (expect (e_now env) token) m
        in send N env r MsgKeepalive (p_sender (peer_ref m r)) 0
             (Ping_Encode \<lparr>ping_Token = token, ping_Reply = False\<rparr> []) m)"

definition handshakeBudget :: "ref option \<Rightarrow> nat" where
  "handshakeBudget via = (if via \<noteq> None then maxRelayHandshakes else maxHandshakes)"

definition beginHandshake ::
  "('k, 'hs, 'cs) noise \<Rightarrow> env \<Rightarrow> ref \<Rightarrow> ('k, 'hs, 'cs) mesh \<Rightarrow> ('k, 'hs, 'cs) mesh" where
  "beginHandshake N env r m =
     (let p = peer_ref m r in
      if p_DeviceID p < m_device m then m
      else
        let reachable = addrport_valid (p_endpoint p) \<or> p_via p \<noteq> None;
            waiting = (p_handshake p \<noteq> None \<and>
              (case p_lastHandshake p of None \<Rightarrow> False
               | Some t \<Rightarrow> e_now env - t < handshakeRetry));
            busy = (p_session p \<noteq> None \<or> waiting \<or> p_handshakes p \<ge> handshakeBudget (p_via p))
        in if busy \<or> \<not> reachable then m
           else
             let m = upd_peer r (\<lambda>p. p\<lparr>p_handshakes := Suc (p_handshakes p),
                                       p_lastHandshake := Some (e_now env)\<rparr>) m;
                 seed = m_draws m; m = m\<lparr>m_draws := Suc (m_draws m)\<rparr>
             in case NewInitiator N (m_keys m) (p_transportKey p) seed of
                  Inl _ \<Rightarrow> m
                | Inr initiator \<Rightarrow>
                    (case WriteInit N initiator of
                       (_, Inl _) \<Rightarrow> m
                     | (initiator, Inr message) \<Rightarrow>
                         (case HandshakeInit_Encode \<lparr>hi_DeviceID = m_device m,
                                 hi_KeyExchange = message\<rparr> [] of
                            Inl _ \<Rightarrow> m
                          | Inr body \<Rightarrow>
                              let m = upd_peer r (\<lambda>p. p\<lparr>p_handshake := Some initiator\<rparr>) m
                              in send N env r MsgHandshakeInit (p_sender p) 0 body m)))"

text \<open>The next peer to ask to carry a link: the lowest device id among the candidates.\<close>

definition relay_candidate ::
  "('k, 'hs, 'cs) mesh \<Rightarrow> ref \<Rightarrow> ref \<Rightarrow> bool" where
  "relay_candidate m r c \<longleftrightarrow>
     \<not> (c = r \<or> p_state (peer_ref m c) \<noteq> PeerDirect \<or>
        triedRelay (p_DeviceID (peer_ref m c)) (peer_ref m r))"

definition pick_relay :: "('k, 'hs, 'cs) mesh \<Rightarrow> ref \<Rightarrow> ref option" where
  "pick_relay m r =
     fold (\<lambda>c relay. if \<not> relay_candidate m r c then relay
                     else case relay of
                            None \<Rightarrow> Some c
                          | Some b \<Rightarrow> if p_DeviceID (peer_ref m c) < p_DeviceID (peer_ref m b)
                                      then Some c else Some b)
       (Peers m) None"

definition tryRelay ::
  "('k, 'hs, 'cs) noise \<Rightarrow> env \<Rightarrow> ref \<Rightarrow> ('k, 'hs, 'cs) mesh \<Rightarrow> bool \<times> ('k, 'hs, 'cs) mesh" where
  "tryRelay N env r m =
     (case pick_relay m r of
        None \<Rightarrow> (False, m)
      | Some relay \<Rightarrow>
          let m = upd_peer r (relayThrough relay (p_DeviceID (peer_ref m relay))) m;
              m = report r m
          in (True, beginHandshake N env r m))"

section \<open>The links of the group\<close>

definition AddPeer ::
  "env \<Rightarrow> bytes \<Rightarrow> bytes \<Rightarrow> addr \<Rightarrow> bytes \<Rightarrow> addrport \<Rightarrow> ('k, 'hs, 'cs) mesh \<Rightarrow>
     bool \<times> ('k, 'hs, 'cs) mesh" where
  "AddPeer env deviceID nickname virtualIP transportKey endpoint m =
     (if length transportKey \<noteq> KeySize then (False, m)
      else case randomSender env m of
             (None, m) \<Rightarrow> (False, m)
           | (Some sender, m) \<Rightarrow>
               (case lookup (m_peers m) deviceID of
                  Some r \<Rightarrow>
                    if p_state (peer_ref m r) = PeerDirect then (True, m)
                    else if addrport_valid endpoint \<and> fst (setEndpoint endpoint (peer_ref m r))
                    then (True, report r (reindex (upd_peer r (\<lambda>p. snd (setEndpoint endpoint p)) m)))
                    else (True, m)
                | None \<Rightarrow>
                    let r = length (m_heap m);
                        m = m\<lparr>m_heap := m_heap m @
                                [newPeer deviceID nickname virtualIP transportKey endpoint sender],
                              m_peers := store deviceID r (m_peers m)\<rparr>;
                        m = report r (reindex m)
                    in (True, punch env r m)))"

definition SetPeerEndpoint ::
  "env \<Rightarrow> bytes \<Rightarrow> addrport \<Rightarrow> ('k, 'hs, 'cs) mesh \<Rightarrow> ('k, 'hs, 'cs) mesh" where
  "SetPeerEndpoint env deviceID endpoint m =
     (case lookup (m_peers m) deviceID of
        None \<Rightarrow> m
      | Some r \<Rightarrow>
          if \<not> addrport_valid endpoint then m
          else if fst (setEndpoint endpoint (peer_ref m r))
          then punch env r (report r (reindex (upd_peer r (\<lambda>p. snd (setEndpoint endpoint p)) m)))
          else m)"

definition restart_link :: "env \<Rightarrow> ref \<Rightarrow> ('k, 'hs, 'cs) mesh \<Rightarrow> ('k, 'hs, 'cs) mesh" where
  "restart_link env r m = punch env r (report r (upd_peer r restart m))"

definition RestartLinks :: "env \<Rightarrow> ('k, 'hs, 'cs) mesh \<Rightarrow> ('k, 'hs, 'cs) mesh" where
  "RestartLinks env m = fold (restart_link env) (Peers m) m"

definition RetryPeer ::
  "('k, 'hs, 'cs) noise \<Rightarrow> env \<Rightarrow> bytes \<Rightarrow> ('k, 'hs, 'cs) mesh \<Rightarrow> bool \<times> ('k, 'hs, 'cs) mesh" where
  "RetryPeer N env deviceID m =
     (case lookup (m_peers m) deviceID of
        None \<Rightarrow> (False, m)
      | Some r \<Rightarrow> (True, beginHandshake N env r (restart_link env r m)))"

definition RemovePeer :: "bytes \<Rightarrow> ('k, 'hs, 'cs) mesh \<Rightarrow> ('k, 'hs, 'cs) mesh" where
  "RemovePeer deviceID m = reindex (m\<lparr>m_peers := remove deviceID (m_peers m)\<rparr>)"

section \<open>Receiving\<close>

text \<open>Where a packet came from: an address on the wire, or the relay that carried it.\<close>

record source =
  src_addr :: addrport
  src_peer :: "ref option"
  src_relay :: "ref option"

definition acceptReason :: "mesh_error \<Rightarrow> reason" where
  "acceptReason err =
     (case err of ErrNoSession \<Rightarrow> NoSession | ErrReplayed \<Rightarrow> Replayed | _ \<Rightarrow> Undecryptable)"

fun diff_bytes :: "bytes \<Rightarrow> bytes \<Rightarrow> byte \<Rightarrow> byte" where
  "diff_bytes (x # xs) (y # ys) acc = diff_bytes xs ys (acc OR (x XOR y))"
| "diff_bytes _ _ acc = acc"

definition equalKeys :: "bytes \<Rightarrow> bytes \<Rightarrow> bool" where
  "equalKeys a b \<longleftrightarrow> length a = length b \<and> diff_bytes a b 0 = 0"

definition handleStun :: "bytes \<Rightarrow> ('k, 'hs, 'cs) mesh \<Rightarrow> ('k, 'hs, 'cs) mesh" where
  "handleStun packet m =
     (if length packet < 20 then m
      else
        let tid = slice 8 20 packet
        in case lookup (m_stunWaiters m) tid of
             None \<Rightarrow> m
           | Some waiter \<Rightarrow>
               (case ParseResponse tid packet of
                  Inl _ \<Rightarrow> m
                | Inr addr \<Rightarrow>
                    if waiter = None
                    then m\<lparr>m_stunWaiters := store tid (Some addr) (m_stunWaiters m)\<rparr>
                    else m))"

definition handleProbe ::
  "('k, 'hs, 'cs) noise \<Rightarrow> env \<Rightarrow> bytes \<Rightarrow> addrport \<Rightarrow> ('k, 'hs, 'cs) mesh \<Rightarrow> ('k, 'hs, 'cs) mesh" where
  "handleProbe N env payload from m =
     (case DecodePing payload of
        Inl _ \<Rightarrow> m
      | Inr ping \<Rightarrow>
          if ping_Reply ping then
            (case peerAt from m of
               None \<Rightarrow> m
             | Some r \<Rightarrow>
                 beginHandshake N env r
                   (upd_peer r (\<lambda>p. snd (measure_rtt (e_now env) (ping_Token ping) p)) m))
          else
            let m = sendTo env from (envelope MsgProbe 0 0
                      (Ping_Encode \<lparr>ping_Token = ping_Token ping, ping_Reply = True\<rparr> [])) m
            in case peerAt from m of None \<Rightarrow> m | Some r \<Rightarrow> beginHandshake N env r m)"

definition replyTo ::
  "('k, 'hs, 'cs) noise \<Rightarrow> env \<Rightarrow> source \<Rightarrow> ref \<Rightarrow> u8 \<Rightarrow> u64 \<Rightarrow> u64 \<Rightarrow> bytes \<Rightarrow>
     ('k, 'hs, 'cs) mesh \<Rightarrow> ('k, 'hs, 'cs) mesh" where
  "replyTo N env src r kind sender counter body m =
     (let packet = envelope kind sender counter body
      in case src_relay src of
           None \<Rightarrow> sendTo env (src_addr src) packet m
         | Some relay \<Rightarrow>
             snd (forward N env relay \<lparr>fw_HopLimit = initialHopLimit, fw_Source = m_virtualIP m,
                    fw_Destination = p_VirtualIP (peer_ref m r), fw_Packet = packet\<rparr> m))"

definition answer_via_relay ::
  "source \<Rightarrow> ref \<Rightarrow> ('k, 'hs, 'cs) mesh \<Rightarrow> ('k, 'hs, 'cs) mesh" where
  "answer_via_relay src r m =
     (case src_relay src of
        None \<Rightarrow> m
      | Some relay \<Rightarrow> upd_peer r (answerVia relay (p_DeviceID (peer_ref m relay))) m)"

definition handleHandshakeInit ::
  "('k, 'hs, 'cs) noise \<Rightarrow> env \<Rightarrow> bytes \<Rightarrow> source \<Rightarrow> ('k, 'hs, 'cs) mesh \<Rightarrow> ('k, 'hs, 'cs) mesh" where
  "handleHandshakeInit N env payload src m =
     (case DecodeHandshakeInit payload of
        Inl _ \<Rightarrow> m
      | Inr init \<Rightarrow>
          (case lookup (m_peers m) (hi_DeviceID init) of
             None \<Rightarrow> m
           | Some r \<Rightarrow>
               let seed = m_draws m; m = m\<lparr>m_draws := Suc (m_draws m)\<rparr>
               in case NewResponder N (m_keys m) seed of
                    Inl _ \<Rightarrow> m
                  | Inr responder \<Rightarrow>
                      (case ReadInit N responder (hi_KeyExchange init) of
                         (_, Some _) \<Rightarrow> m
                       | (responder, None) \<Rightarrow>
                           if \<not> equalKeys (PeerStatic N responder) (p_transportKey (peer_ref m r)) then m
                           else
                             (case WriteResponse N responder of
                                (_, Inl _) \<Rightarrow> m
                              | (_, Inr (reply, open)) \<Rightarrow>
                                  let m = (if src_relay src \<noteq> None then answer_via_relay src r m
                                           else
                                             let m = (if p_endpoint (peer_ref m r) \<noteq> src_addr src
                                                      then reindex (upd_peer r
                                                             (\<lambda>p. snd (setEndpoint (src_addr src) p)) m)
                                                      else m)
                                             in forgetStranger (src_addr src) m)
                                  in case HandshakeResponse_Encode \<lparr>hr_KeyExchange = reply\<rparr> [] of
                                       Inl _ \<Rightarrow> m
                                     | Inr body \<Rightarrow>
                                         let m = send N env r MsgHandshakeResponse
                                                   (p_sender (peer_ref m r)) 0 body m;
                                             m = upd_peer r (open_link (e_now env) open) m;
                                             m = report r m
                                         in sendKeepalive N env r m))))"

definition handleHandshakeResponse ::
  "('k, 'hs, 'cs) noise \<Rightarrow> env \<Rightarrow> bytes \<Rightarrow> source \<Rightarrow> ('k, 'hs, 'cs) mesh \<Rightarrow> ('k, 'hs, 'cs) mesh" where
  "handleHandshakeResponse N env payload src m =
     (case DecodeHandshakeResponse payload of
        Inl _ \<Rightarrow> m
      | Inr response \<Rightarrow>
          (case src_peer src of
             None \<Rightarrow> m
           | Some r \<Rightarrow>
               (case p_handshake (peer_ref m r) of
                  None \<Rightarrow> m
                | Some handshake \<Rightarrow>
                    (case ReadResponse N handshake (hr_KeyExchange response) of
                       (handshake, Inl _) \<Rightarrow> upd_peer r (\<lambda>p. p\<lparr>p_handshake := Some handshake\<rparr>) m
                     | (handshake, Inr open) \<Rightarrow>
                         let m = answer_via_relay src r m;
                             m = upd_peer r (open_link (e_now env) open) m;
                             m = report r m
                         in sendKeepalive N env r m))))"

definition handleKeepalive ::
  "('k, 'hs, 'cs) noise \<Rightarrow> env \<Rightarrow> bytes \<Rightarrow> source \<Rightarrow> ('k, 'hs, 'cs) mesh \<Rightarrow> ('k, 'hs, 'cs) mesh" where
  "handleKeepalive N env payload src m =
     (case DecodePing payload of
        Inl _ \<Rightarrow> m
      | Inr ping \<Rightarrow>
          (case src_peer src of
             None \<Rightarrow> noteStranger (src_addr src) m
           | Some r \<Rightarrow>
               if \<not> ping_Reply ping then
                 let m = upd_peer r (heard (e_now env)) m
                 in replyTo N env src r MsgKeepalive (p_sender (peer_ref m r)) 0
                      (Ping_Encode \<lparr>ping_Token = ping_Token ping, ping_Reply = True\<rparr> []) m
               else
                 case measure_rtt (e_now env) (ping_Token ping) (peer_ref m r) of
                   (None, _) \<Rightarrow> m
                 | (Some latency, p) \<Rightarrow>
                     let m = upd_peer r (\<lambda>_. p) m
                     in m\<lparr>m_events := m_events m @ [PeerLatencyChanged (p_DeviceID p) latency]\<rparr>))"

definition handleData ::
  "('k, 'hs, 'cs) noise \<Rightarrow> env \<Rightarrow> bytes \<Rightarrow> bytes \<Rightarrow> u64 \<Rightarrow> source \<Rightarrow> ('k, 'hs, 'cs) mesh \<Rightarrow>
     ('k, 'hs, 'cs) mesh" where
  "handleData N env packet ciphertext counter src m =
     (case src_peer src of
        None \<Rightarrow> noteStranger (src_addr src) (drop_packet UnknownPeer m)
      | Some r \<Rightarrow>
          (case accept N (e_now env) (take HeaderSize packet) ciphertext counter (peer_ref m r) of
             (Inl e, p) \<Rightarrow> drop_packet (acceptReason e) (upd_peer r (\<lambda>_. p) m)
           | (Inr plaintext, p) \<Rightarrow>
               let m = upd_peer r (\<lambda>_. p\<lparr>p_received := p_received p + 1\<rparr>) m;
                   m = answer_via_relay src r m
               in if length (m_inbound m) < inboundCapacity
                  then m\<lparr>m_inbound := m_inbound m @ [plaintext]\<rparr>
                  else drop_packet QueueFull m))"

definition handleClose :: "source \<Rightarrow> ('k, 'hs, 'cs) mesh \<Rightarrow> ('k, 'hs, 'cs) mesh" where
  "handleClose src m =
     (case src_peer src of
        None \<Rightarrow> m
      | Some r \<Rightarrow>
          (case fail_link (peer_ref m r) of
             (True, p) \<Rightarrow> report r (upd_peer r (\<lambda>_. p) m)
           | (False, _) \<Rightarrow> m))"

definition dispatch ::
  "('k, 'hs, 'cs) noise \<Rightarrow> env \<Rightarrow> header \<Rightarrow> bytes \<Rightarrow> bytes \<Rightarrow> source \<Rightarrow> ('k, 'hs, 'cs) mesh \<Rightarrow>
     ('k, 'hs, 'cs) mesh" where
  "dispatch N env header packet payload src m =
     (if hdr_Type header = MsgHandshakeInit then handleHandshakeInit N env payload src m
      else if hdr_Type header = MsgHandshakeResponse then handleHandshakeResponse N env payload src m
      else if hdr_Type header = MsgKeepalive then handleKeepalive N env payload src m
      else if hdr_Type header = MsgData then handleData N env packet payload (hdr_Counter header) src m
      else if hdr_Type header = MsgClose then handleClose src m
      else m)"

definition deliverForwarded ::
  "('k, 'hs, 'cs) noise \<Rightarrow> env \<Rightarrow> forward_msg \<Rightarrow> ref \<Rightarrow> ('k, 'hs, 'cs) mesh \<Rightarrow> ('k, 'hs, 'cs) mesh" where
  "deliverForwarded N env carried relay m =
     (case lookup (m_byIP m) (fw_Source carried) of
        None \<Rightarrow> drop_packet Unroutable m
      | Some r \<Rightarrow>
          if r = relay then drop_packet Unroutable m
          else
            (case Decode (fw_Packet carried) of
               Inl _ \<Rightarrow> drop_packet Malformed m
             | Inr (header, payload) \<Rightarrow>
                 dispatch N env header (fw_Packet carried) payload
                   \<lparr>src_addr = no_addrport, src_peer = Some r, src_relay = Some relay\<rparr> m))"

definition passOn ::
  "('k, 'hs, 'cs) noise \<Rightarrow> env \<Rightarrow> forward_msg \<Rightarrow> ref \<Rightarrow> ('k, 'hs, 'cs) mesh \<Rightarrow> ('k, 'hs, 'cs) mesh" where
  "passOn N env carried from m =
     (if fw_HopLimit carried = 0 then drop_packet HopsExhausted m
      else
        (case lookup (m_byIP m) (fw_Destination carried) of
           None \<Rightarrow> drop_packet Unroutable m
         | Some target \<Rightarrow>
             if target = from \<or> p_state (peer_ref m target) \<noteq> PeerDirect
             then drop_packet Unroutable m
             else
               (case forward N env target (carried\<lparr>fw_HopLimit := fw_HopLimit carried - 1\<rparr>) m of
                  (None, m) \<Rightarrow> m
                | (Some e, m) \<Rightarrow> drop_packet (reasonFor e) m)))"

definition handleForward ::
  "('k, 'hs, 'cs) noise \<Rightarrow> env \<Rightarrow> bytes \<Rightarrow> bytes \<Rightarrow> u64 \<Rightarrow> addrport \<Rightarrow> ('k, 'hs, 'cs) mesh \<Rightarrow>
     ('k, 'hs, 'cs) mesh" where
  "handleForward N env packet ciphertext counter from m =
     (case peerAt from m of
        None \<Rightarrow> noteStranger from (drop_packet UnknownPeer m)
      | Some relay \<Rightarrow>
          (case accept N (e_now env) (take HeaderSize packet) ciphertext counter (peer_ref m relay) of
             (Inl e, p) \<Rightarrow> drop_packet (acceptReason e) (upd_peer relay (\<lambda>_. p) m)
           | (Inr body, p) \<Rightarrow>
               let m = upd_peer relay (\<lambda>_. p) m
               in case DecodeForward body of
                    Inl _ \<Rightarrow> drop_packet Malformed m
                  | Inr carried \<Rightarrow>
                      if fw_Destination carried = m_virtualIP m
                      then deliverForwarded N env carried relay m
                      else passOn N env carried relay m))"

definition handle ::
  "('k, 'hs, 'cs) noise \<Rightarrow> env \<Rightarrow> bytes \<Rightarrow> addrport \<Rightarrow> ('k, 'hs, 'cs) mesh \<Rightarrow> ('k, 'hs, 'cs) mesh" where
  "handle N env packet from m =
     (if Looks packet then handleStun packet m
      else case Decode packet of
             Inl _ \<Rightarrow> drop_packet Malformed m
           | Inr (header, payload) \<Rightarrow>
               if hdr_Type header = MsgProbe then handleProbe N env payload from m
               else if hdr_Type header = MsgForward
               then handleForward N env packet payload (hdr_Counter header) from m
               else dispatch N env header packet payload
                      \<lparr>src_addr = from, src_peer = peerAt from m, src_relay = None\<rparr> m)"

section \<open>Keeping links alive\<close>

definition maintain_peer ::
  "('k, 'hs, 'cs) noise \<Rightarrow> env \<Rightarrow> bool \<Rightarrow> ref \<Rightarrow> ('k, 'hs, 'cs) mesh \<Rightarrow> ('k, 'hs, 'cs) mesh" where
  "maintain_peer N env keepalives r m =
     (let p = peer_ref m r;
          open = (p_session p \<noteq> None);
          silent = (open \<and> (case p_lastHeard p of None \<Rightarrow> False
                            | Some t \<Rightarrow> e_now env - t > deadAfter))
      in if silent then restart_link env r m
         else if open then (if keepalives then sendKeepalive N env r m else m)
         else if p_state p = PeerFailed then snd (tryRelay N env r m)
         else if p_handshakes p \<ge> handshakeBudget (p_via p) then
           (case tryRelay N env r m of
              (True, m) \<Rightarrow> m
            | (False, m) \<Rightarrow>
                (case fail_link (peer_ref m r) of
                   (True, p) \<Rightarrow> report r (upd_peer r (\<lambda>_. p) m)
                 | (False, _) \<Rightarrow> m))
         else if p_via p \<noteq> None then beginHandshake N env r m
         else beginHandshake N env r (punch env r m))"

text \<open>One tick of \<open>maintain\<close>, with the time of the last round of keepalives.\<close>

definition maintain_tick ::
  "('k, 'hs, 'cs) noise \<Rightarrow> env \<Rightarrow> instant \<Rightarrow> ('k, 'hs, 'cs) mesh \<Rightarrow> instant \<times> ('k, 'hs, 'cs) mesh" where
  "maintain_tick N env lastKeepalive m =
     (let keepalives = (e_now env - lastKeepalive \<ge> keepaliveInterval)
      in (if keepalives then e_now env else lastKeepalive,
          fold (maintain_peer N env keepalives) (Peers m) m))"

section \<open>Asking STUN\<close>

text \<open>
  \<open>queryStun\<close> registers a waiter under the transaction id, writes the request and, on
  every way out, removes the waiter; the replies that arrive meanwhile go through
  \<open>handleStun\<close>. \<open>PublicEndpoint\<close> takes the first server that answers.
\<close>

definition stun_begin ::
  "env \<Rightarrow> bytes \<Rightarrow> addrport \<Rightarrow> ('k, 'hs, 'cs) mesh \<Rightarrow> ('k, 'hs, 'cs) mesh" where
  "stun_begin env tid server m =
     (let req = NewRequest tid;
          m = m\<lparr>m_stunWaiters := store (rq_ID req) None (m_stunWaiters m)\<rparr>
      in sendTo env server (rq_Packet req) m)"

definition stun_end ::
  "bytes \<Rightarrow> ('k, 'hs, 'cs) mesh \<Rightarrow> addrport option \<times> ('k, 'hs, 'cs) mesh" where
  "stun_end tid m =
     (case lookup (m_stunWaiters m) tid of None \<Rightarrow> None | Some waiter \<Rightarrow> waiter,
      m\<lparr>m_stunWaiters := remove tid (m_stunWaiters m)\<rparr>)"

fun PublicEndpoint :: "('server \<Rightarrow> addrport option) \<Rightarrow> 'server list \<Rightarrow> addrport option" where
  "PublicEndpoint query [] = None"
| "PublicEndpoint query (server # servers) =
     (case query server of Some addr \<Rightarrow> Some addr | None \<Rightarrow> PublicEndpoint query servers)"

end
