(* ===== verification/Mesh_Inv.thy ===== *)
theory Mesh_Inv
  imports Mesh
begin

text \<open>
  The invariant of the mesh and that every operation keeps it. Most operations only move
  links along and write packets: \<open>evolves\<close> collects what all of them leave alone, so
  that each handler needs one line.
\<close>

section \<open>What an operation on links leaves alone\<close>

definition link_evolves :: "nat \<Rightarrow> ('hs, 'cs) peer \<Rightarrow> ('hs, 'cs) peer \<Rightarrow> bool" where
  "link_evolves n p q \<longleftrightarrow>
     same_peer p q \<and> p_endpoint q = p_endpoint p \<and> (peer_inv p \<longrightarrow> peer_inv q) \<and>
     (p_session q = p_session p \<or> p_session q = None) \<and>
     (p_via q = p_via p \<or> p_via q = None \<or> (\<exists>v<n. p_via q = Some v))"

definition evolves :: "('k, 'hs, 'cs) mesh \<Rightarrow> ('k, 'hs, 'cs) mesh \<Rightarrow> bool" where
  "evolves m m' \<longleftrightarrow>
     m_keys m' = m_keys m \<and> m_device m' = m_device m \<and> m_virtualIP m' = m_virtualIP m \<and>
     m_peers m' = m_peers m \<and> m_byIP m' = m_byIP m \<and> m_byUDP m' = m_byUDP m \<and>
     m_stunWaiters m' = m_stunWaiters m \<and> m_inbound m' = m_inbound m \<and>
     (length (m_strangers m) \<le> 32 \<longrightarrow> length (m_strangers m') \<le> 32) \<and>
     length (m_heap m') = length (m_heap m) \<and>
     (\<forall>r<length (m_heap m). link_evolves (length (m_heap m)) (peer_ref m r) (peer_ref m' r))"

lemma link_evolves_refl [simp, intro]: "link_evolves n p p"
  by (simp add: link_evolves_def)

lemma link_evolves_trans:
  "link_evolves n p q \<Longrightarrow> link_evolves n q s \<Longrightarrow> link_evolves n p s"
  by (auto simp: link_evolves_def same_peer_def)

lemma evolves_refl [simp, intro]: "evolves m m"
  by (simp add: evolves_def)

lemma evolves_trans [trans]: "evolves m m' \<Longrightarrow> evolves m' m'' \<Longrightarrow> evolves m m''"
  by (auto simp: evolves_def intro: link_evolves_trans)

lemma evolves_same:
  assumes "evolves m m'"
  shows "m_peers m' = m_peers m" "m_byIP m' = m_byIP m" "m_byUDP m' = m_byUDP m"
    "m_device m' = m_device m" "m_virtualIP m' = m_virtualIP m" "m_inbound m' = m_inbound m"
    "length (m_heap m') = length (m_heap m)" "m_stunWaiters m' = m_stunWaiters m"
    "m_keys m' = m_keys m"
  using assms by (auto simp: evolves_def)

lemma evolves_link:
  "evolves m m' \<Longrightarrow> r < length (m_heap m) \<Longrightarrow>
     link_evolves (length (m_heap m)) (peer_ref m r) (peer_ref m' r)"
  by (simp add: evolves_def)

text \<open>Fields outside the heap that any operation may write.\<close>

lemma evolves_fields [simp, intro]:
  "evolves m (m\<lparr>m_packets := a\<rparr>)" "evolves m (m\<lparr>m_out := b\<rparr>)" "evolves m (m\<lparr>m_events := c\<rparr>)"
  "evolves m (m\<lparr>m_draws := d\<rparr>)"
  by (auto simp: evolves_def)

lemma evolves_upd:
  "link_evolves (length (m_heap m)) (peer_ref m r) (f (peer_ref m r)) \<Longrightarrow> evolves m (upd_peer r f m)"
  by (cases "r < length (m_heap m)")
    (auto simp: evolves_def upd_peer_def nth_list_update list_update_beyond)

lemma link_evolves_ops [intro]:
  "link_evolves n p (restart p)" "link_evolves n p (snd (nextCounter p))"
  "link_evolves n p (heard now p)" "link_evolves n p (snd (fail_link p))"
  "link_evolves n p (snd (accept N now h ct c p))" "link_evolves n p (expect now t p)"
  "link_evolves n p (snd (measure_rtt now t p))"
  unfolding link_evolves_def
  by (auto simp: peer_inv_intros) (auto simp: peer_defs Let_def split: option.splits if_splits
      sum.splits prod.splits bool.splits)

lemma link_evolves_fields [intro]:
  "link_evolves n p (p\<lparr>p_sent := x\<rparr>)" "link_evolves n p (p\<lparr>p_received := x\<rparr>)"
  "link_evolves n p (p\<lparr>p_lastProbe := l\<rparr>)"
  "link_evolves n p (p\<lparr>p_handshakes := k, p_lastHandshake := l\<rparr>)"
  "p_session p = None \<or> p_handshake p \<noteq> None \<Longrightarrow> link_evolves n p (p\<lparr>p_handshake := h\<rparr>)"
  by (auto simp: link_evolves_def same_peer_def peer_inv_def split: option.splits)

lemma link_evolves_relay [intro]:
  "r < n \<Longrightarrow> link_evolves n p (relayThrough r rid p)"
  "r < n \<Longrightarrow> link_evolves n p (answerVia r rid p)"
  unfolding link_evolves_def
  by (auto simp: peer_inv_intros) (auto simp: peer_defs Let_def split: if_splits)

lemma evolves_basic [intro]:
  "evolves m (drop_packet x m)" "evolves m (report r m)" "evolves m (noteStranger a m)"
  "evolves m (forgetStranger a m)" "evolves m (snd (randomSender env m))"
  "evolves m (snd (randomToken env m))" "evolves m (snd (write_udp env to pkt m))"
  "evolves m (sendTo env to pkt m)"
proof -
  show "evolves m (snd (randomToken env m))"
    by (auto simp: randomToken_def randomSender_def split: prod.splits option.splits)
  show "evolves m (forgetStranger a m)"
    by (auto simp: evolves_def forgetStranger_def intro: le_trans [OF length_removeAll_less_eq])
qed (auto simp: drop_packet_def report_def noteStranger_def randomSender_def write_udp_def sendTo_def
    split_beta evolves_def)

text \<open>The same facts as rules that add one more operation to a chain.\<close>

lemmas evolves_chain [intro] =
  evolves_trans [OF _ evolves_basic(1)] evolves_trans [OF _ evolves_basic(2)]
  evolves_trans [OF _ evolves_basic(3)] evolves_trans [OF _ evolves_basic(4)]
  evolves_trans [OF _ evolves_basic(5)] evolves_trans [OF _ evolves_basic(6)]
  evolves_trans [OF _ evolves_basic(7)] evolves_trans [OF _ evolves_basic(8)]
  evolves_trans [OF _ evolves_fields(1)] evolves_trans [OF _ evolves_fields(2)]
  evolves_trans [OF _ evolves_fields(3)] evolves_trans [OF _ evolves_fields(4)]

lemma evolves_upd_chain:
  "evolves m0 m \<Longrightarrow> link_evolves (length (m_heap m)) (peer_ref m r) (f (peer_ref m r)) \<Longrightarrow>
     evolves m0 (upd_peer r f m)"
  by (blast intro: evolves_trans evolves_upd)

lemma evolves_snd: "evolves m0 (snd x) \<Longrightarrow> x = (a, b) \<Longrightarrow> evolves m0 b"
  by simp

lemma evolves_seal_for [intro]:
  assumes "evolves m0 m"
  shows "evolves m0 (snd (seal_for N kind r body m))"
proof -
  have "evolves m0 (upd_peer r (\<lambda>_. snd (nextCounter (peer_ref m r))) m)"
    by (rule evolves_upd_chain [OF assms]) auto
  with assms show ?thesis
    by (auto simp: seal_for_def Let_def split: prod.splits sum.splits)
qed

lemma evolves_forward [intro]:
  assumes "evolves m0 m"
  shows "evolves m0 (snd (forward N env relay f m))"
proof (cases "Forward_Encode f []")
  case (Inr body)
  obtain res m1 where s: "seal_for N MsgForward relay body m = (res, m1)" by fastforce
  have "evolves m0 m1" by (rule evolves_snd [OF evolves_seal_for s]) (rule assms)
  with Inr s show ?thesis
    by (auto simp: forward_def Let_def split: sum.splits)
qed (simp add: forward_def assms)

lemma evolves_deliver [intro]: "evolves m0 m \<Longrightarrow> evolves m0 (snd (deliver N env r pkt m))"
  by (auto simp: deliver_def Let_def split: option.splits)

lemma evolves_send [intro]: "evolves m0 m \<Longrightarrow> evolves m0 (send N env r k s c b m)"
  by (auto simp: send_def)

lemma evolves_sendData [intro]:
  assumes "evolves m0 m"
  shows "evolves m0 (snd (sendData N env r pkt m))"
proof -
  obtain res m1 where s: "seal_for N MsgData r pkt m = (res, m1)" by fastforce
  have m1: "evolves m0 m1" by (rule evolves_snd [OF evolves_seal_for s]) (rule assms)
  show ?thesis
  proof (cases res)
    case (Inr out)
    obtain e m2 where d: "deliver N env r out m1 = (e, m2)" by fastforce
    have m2: "evolves m0 m2" by (rule evolves_snd [OF evolves_deliver d]) (rule m1)
    have "evolves m0 (upd_peer r (\<lambda>p. p\<lparr>p_sent := p_sent p + 1\<rparr>) m2)"
      by (rule evolves_upd_chain [OF m2]) blast
    with m2 show ?thesis by (cases e) (simp_all add: sendData_def s Inr d)
  qed (simp add: sendData_def s m1)
qed

lemma evolves_broadcast_to [intro]:
  "evolves m0 m \<Longrightarrow> evolves m0 (snd (broadcast_to N env pkt rs m))"
proof (induction rs arbitrary: m)
  case Nil
  then show ?case by simp
next
  case (Cons r rs)
  obtain e m1 where s: "sendData N env r pkt m = (e, m1)" by fastforce
  have "evolves m0 m1" by (rule evolves_snd [OF evolves_sendData s]) (rule Cons.prems)
  then show ?case
    by (cases e) (auto simp: s split_beta intro: Cons.IH)
qed

lemma evolves_Send [intro]:
  assumes "evolves m0 m"
  shows "evolves m0 (snd (Send N env d pkt m))"
proof (cases "lookup (m_byIP m) d")
  case (Some r)
  obtain e m1 where s: "sendData N env r pkt m = (e, m1)" by fastforce
  have "evolves m0 m1" by (rule evolves_snd [OF evolves_sendData s]) (rule assms)
  then show ?thesis by (cases e) (auto simp: Send_def Some s)
qed (use assms in \<open>auto simp: Send_def\<close>)

lemma evolves_punch [intro]:
  assumes "evolves m0 m"
  shows "evolves m0 (punch env r m)"
proof (cases "addrport_valid (p_endpoint (peer_ref m r))")
  case True
  obtain t m1 where rt: "randomToken env m = (t, m1)" by fastforce
  have "evolves m0 m1" by (rule evolves_snd [OF evolves_chain(6) rt]) (rule assms)
  then have "evolves m0 (upd_peer r (\<lambda>p. p\<lparr>p_lastProbe := Some (e_now env)\<rparr>)
      (upd_peer r (expect (e_now env) t) m1))"
    by (intro evolves_upd_chain) auto
  with True show ?thesis by (auto simp: punch_def rt Let_def)
qed (simp add: punch_def assms)

lemma evolves_sendKeepalive [intro]:
  assumes "evolves m0 m"
  shows "evolves m0 (sendKeepalive N env r m)"
proof -
  obtain t m1 where rt: "randomToken env m = (t, m1)" by fastforce
  have "evolves m0 m1" by (rule evolves_snd [OF evolves_chain(6) rt]) (rule assms)
  then have "evolves m0 (upd_peer r (expect (e_now env) t) m1)"
    by (intro evolves_upd_chain) auto
  then show ?thesis by (auto simp: sendKeepalive_def rt Let_def)
qed

lemma evolves_beginHandshake [intro]:
  assumes m: "evolves m0 m"
  shows "evolves m0 (beginHandshake N env r m)"
proof -
  let ?m1 = "upd_peer r (\<lambda>p. p\<lparr>p_handshakes := Suc (p_handshakes p),
      p_lastHandshake := Some (e_now env)\<rparr>) m"
  let ?m2 = "?m1\<lparr>m_draws := Suc (m_draws ?m1)\<rparr>"
  have m2: "evolves m0 ?m2"
    by (rule evolves_chain, rule evolves_upd_chain [OF m]) blast
  have "evolves m0 (upd_peer r (\<lambda>p. p\<lparr>p_handshake := Some h\<rparr>) ?m2)"
    if "p_session (peer_ref m r) = None" for h
  proof (cases "r < length (m_heap m)")
    case True
    then have "p_session (peer_ref ?m2 r) = None"
      using that by (simp add: upd_peer_def)
    then show ?thesis by (intro evolves_upd_chain [OF m2] link_evolves_fields) simp
  next
    case False
    then have "upd_peer r (\<lambda>p. p\<lparr>p_handshake := Some h\<rparr>) ?m2 = ?m2"
      by (simp add: upd_peer_def list_update_beyond)
    with m2 show ?thesis by simp
  qed
  with m m2 show ?thesis
    by (auto simp: beginHandshake_def Let_def split: sum.splits prod.splits)
qed

lemma evolves_restart_link [intro]:
  assumes "evolves m0 m"
  shows "evolves m0 (restart_link env r m)"
proof -
  have "evolves m0 (upd_peer r restart m)" by (rule evolves_upd_chain [OF assms]) blast
  then show ?thesis unfolding restart_link_def by blast
qed

lemma evolves_fold:
  "(\<And>r m. r \<in> set rs \<Longrightarrow> evolves m0 m \<Longrightarrow> evolves m0 (f r m)) \<Longrightarrow> evolves m0 m \<Longrightarrow>
     evolves m0 (fold f rs m)"
  by (induction rs arbitrary: m) auto

lemma evolves_handleProbe [intro]:
  assumes "evolves m0 m"
  shows "evolves m0 (handleProbe N env payload from m)"
proof -
  have "evolves m0 (upd_peer r (\<lambda>p. snd (measure_rtt (e_now env) t p)) m)" for r t
    by (rule evolves_upd_chain [OF assms]) blast
  with assms show ?thesis
    by (auto simp: handleProbe_def Let_def split: sum.splits option.splits)
qed

lemma evolves_replyTo [intro]: "evolves m0 m \<Longrightarrow> evolves m0 (replyTo N env src r k s c b m)"
  by (auto simp: replyTo_def Let_def split: option.splits)

lemma evolves_const_upd:
  "evolves m0 m \<Longrightarrow> (\<And>p. link_evolves (length (m_heap m)) p (snd (f p))) \<Longrightarrow>
     f (peer_ref m r) = (x, q) \<Longrightarrow> evolves m0 (upd_peer r (\<lambda>_. q) m)"
  by (rule evolves_upd_chain) (metis snd_conv)+

lemma evolves_handleKeepalive [intro]:
  assumes "evolves m0 m"
  shows "evolves m0 (handleKeepalive N env payload src m)"
proof -
  have heard: "evolves m0 (upd_peer r (heard now) m)" for r now
    by (rule evolves_upd_chain [OF assms]) blast
  have measured: "evolves m0 (upd_peer r (\<lambda>_. q) m)"
    if "measure_rtt now t (peer_ref m r) = (l, q)" for r now t l q
    by (rule evolves_const_upd [where f = "measure_rtt now t", OF assms _ that]) blast
  show ?thesis
    using assms by (auto simp: handleKeepalive_def Let_def split: sum.splits option.splits prod.splits
        intro: heard measured)
qed

lemma evolves_handleClose [intro]:
  assumes "evolves m0 m"
  shows "evolves m0 (handleClose src m)"
proof -
  have "evolves m0 (upd_peer r (\<lambda>_. q) m)" if "fail_link (peer_ref m r) = (b, q)" for r b q
    by (rule evolves_const_upd [where f = fail_link, OF assms _ that]) blast
  with assms show ?thesis
    by (auto simp: handleClose_def split: option.splits prod.splits bool.splits)
qed

lemma evolves_passOn [intro]:
  assumes "evolves m0 m"
  shows "evolves m0 (passOn N env carried from m)"
proof -
  have "evolves m0 m'" if "forward N env t f m = (e, m')" for t f e m'
    by (rule evolves_snd [OF evolves_forward that]) (rule assms)
  with assms show ?thesis
    by (auto simp: passOn_def split: option.splits prod.splits)
qed

lemma evolves_answer_via_relay [intro]:
  "evolves m0 m \<Longrightarrow> (\<And>relay. src_relay src = Some relay \<Longrightarrow> relay < length (m_heap m)) \<Longrightarrow>
     evolves m0 (answer_via_relay src r m)"
  by (auto simp: answer_via_relay_def split: option.splits intro!: evolves_upd_chain)

section \<open>The invariant\<close>

text \<open>
  Every reference points into the heap, the group's map is keyed by device id, and the
  two indexes agree with the links: an address leads to a member that is really there,
  and every member with an address can be found by it. The queue to the adapter and the
  memory of strangers stay bounded.
\<close>

definition refs_ok :: "('k, 'hs, 'cs) mesh \<Rightarrow> bool" where
  "refs_ok m \<longleftrightarrow>
     (\<forall>r<length (m_heap m). peer_inv (peer_ref m r) \<and>
        (\<forall>v. p_via (peer_ref m r) = Some v \<longrightarrow> v < length (m_heap m))) \<and>
     distinct (map fst (m_peers m)) \<and>
     (\<forall>(d, r)\<in>set (m_peers m). r < length (m_heap m) \<and> p_DeviceID (peer_ref m r) = d)"

definition index_ok :: "('k, 'hs, 'cs) mesh \<Rightarrow> bool" where
  "index_ok m \<longleftrightarrow>
     (\<forall>a r. lookup (m_byIP m) a = Some r \<longrightarrow>
        r \<in> snd ` set (m_peers m) \<and> p_VirtualIP (peer_ref m r) = a) \<and>
     (\<forall>a r. lookup (m_byUDP m) a = Some r \<longrightarrow>
        r \<in> snd ` set (m_peers m) \<and> p_endpoint (peer_ref m r) = a) \<and>
     (\<forall>r\<in>snd ` set (m_peers m).
        (addr_valid (p_VirtualIP (peer_ref m r)) \<longrightarrow>
           lookup (m_byIP m) (p_VirtualIP (peer_ref m r)) \<noteq> None) \<and>
        (addrport_valid (p_endpoint (peer_ref m r)) \<longrightarrow>
           lookup (m_byUDP m) (p_endpoint (peer_ref m r)) \<noteq> None))"

definition bounds_ok :: "('k, 'hs, 'cs) mesh \<Rightarrow> bool" where
  "bounds_ok m \<longleftrightarrow> length (m_strangers m) \<le> 32 \<and> length (m_inbound m) \<le> inboundCapacity"

definition mesh_inv :: "('k, 'hs, 'cs) mesh \<Rightarrow> bool" where
  "mesh_inv m \<longleftrightarrow> refs_ok m \<and> index_ok m \<and> bounds_ok m"

lemma refs_ok_member: "refs_ok m \<Longrightarrow> r \<in> snd ` set (m_peers m) \<Longrightarrow> r < length (m_heap m)"
  by (auto simp: refs_ok_def)

lemma refs_ok_evolves:
  assumes "refs_ok m" "evolves m m'"
  shows "refs_ok m'"
proof -
  have "peer_inv (peer_ref m' r) \<and> (\<forall>v. p_via (peer_ref m' r) = Some v \<longrightarrow> v < length (m_heap m)) \<and>
      p_DeviceID (peer_ref m' r) = p_DeviceID (peer_ref m r)" if r: "r < length (m_heap m)" for r
  proof -
    have "peer_inv (peer_ref m r)" "\<And>v. p_via (peer_ref m r) = Some v \<Longrightarrow> v < length (m_heap m)"
      using assms(1) r by (auto simp: refs_ok_def)
    with evolves_link [OF assms(2) r] show ?thesis
      unfolding link_evolves_def same_peer_def by auto
  qed
  note links = this
  have "r < length (m_heap m) \<and> p_DeviceID (peer_ref m' r) = d" if "(d, r) \<in> set (m_peers m)" for d r
  proof -
    have "r < length (m_heap m)" "p_DeviceID (peer_ref m r) = d"
      using assms(1) that by (auto simp: refs_ok_def)
    with links [of r] show ?thesis by simp
  qed
  moreover have "distinct (map fst (m_peers m))"
    using assms(1) by (simp add: refs_ok_def)
  ultimately show ?thesis
    unfolding refs_ok_def evolves_same(1,7) [OF assms(2)] using links by blast
qed

lemma index_okD:
  assumes "index_ok m"
  shows "lookup (m_byIP m) a = Some r \<Longrightarrow> r \<in> snd ` set (m_peers m) \<and> p_VirtualIP (peer_ref m r) = a"
    and "lookup (m_byUDP m) b = Some r \<Longrightarrow> r \<in> snd ` set (m_peers m) \<and> p_endpoint (peer_ref m r) = b"
    and "r \<in> snd ` set (m_peers m) \<Longrightarrow> addr_valid (p_VirtualIP (peer_ref m r)) \<Longrightarrow>
      lookup (m_byIP m) (p_VirtualIP (peer_ref m r)) \<noteq> None"
    and "r \<in> snd ` set (m_peers m) \<Longrightarrow> addrport_valid (p_endpoint (peer_ref m r)) \<Longrightarrow>
      lookup (m_byUDP m) (p_endpoint (peer_ref m r)) \<noteq> None"
  using assms unfolding index_ok_def by blast+

lemma index_okI:
  assumes "\<And>a r. lookup (m_byIP m) a = Some r \<Longrightarrow> r \<in> snd ` set (m_peers m) \<and> p_VirtualIP (peer_ref m r) = a"
    and "\<And>a r. lookup (m_byUDP m) a = Some r \<Longrightarrow> r \<in> snd ` set (m_peers m) \<and> p_endpoint (peer_ref m r) = a"
    and "\<And>r. r \<in> snd ` set (m_peers m) \<Longrightarrow> addr_valid (p_VirtualIP (peer_ref m r)) \<Longrightarrow>
      lookup (m_byIP m) (p_VirtualIP (peer_ref m r)) \<noteq> None"
    and "\<And>r. r \<in> snd ` set (m_peers m) \<Longrightarrow> addrport_valid (p_endpoint (peer_ref m r)) \<Longrightarrow>
      lookup (m_byUDP m) (p_endpoint (peer_ref m r)) \<noteq> None"
  shows "index_ok m"
  using assms unfolding index_ok_def by blast

lemma index_ok_cong:
  assumes "index_ok m" "m_peers m' = m_peers m" "m_byIP m' = m_byIP m" "m_byUDP m' = m_byUDP m"
    and same: "\<And>r. r \<in> snd ` set (m_peers m) \<Longrightarrow> p_VirtualIP (peer_ref m' r) = p_VirtualIP (peer_ref m r)
      \<and> p_endpoint (peer_ref m' r) = p_endpoint (peer_ref m r)"
  shows "index_ok m'"
  by (rule index_okI; simp only: assms(2-4)) (use index_okD [OF assms(1)] same in metis)+

lemma mesh_inv_evolves:
  assumes "mesh_inv m" "evolves m m'"
  shows "mesh_inv m'"
proof -
  have "p_VirtualIP (peer_ref m' r) = p_VirtualIP (peer_ref m r) \<and>
      p_endpoint (peer_ref m' r) = p_endpoint (peer_ref m r)" if "r \<in> snd ` set (m_peers m)" for r
    using assms that evolves_link [OF assms(2) refs_ok_member [OF _ that]]
    by (simp add: mesh_inv_def link_evolves_def same_peer_def)
  with assms(1) evolves_same [OF assms(2)] have "index_ok m'"
    by (intro index_ok_cong [of m m']) (auto simp: mesh_inv_def)
  moreover have "bounds_ok m'"
    using assms by (simp add: mesh_inv_def bounds_ok_def evolves_def)
  moreover have "refs_ok m'"
    using assms refs_ok_evolves [of m m'] by (simp add: mesh_inv_def)
  ultimately show ?thesis by (simp add: mesh_inv_def)
qed

lemma fold_store_sound:
  "lookup (fold (\<lambda>(d, r) acc. if P r then store (key r) r acc else acc) ps acc) a = Some r \<Longrightarrow>
     lookup acc a = Some r \<or> r \<in> snd ` set ps \<and> key r = a"
proof (induction ps arbitrary: acc)
  case Nil
  then show ?case by simp
next
  case (Cons x ps)
  obtain d r' where x: "x = (d, r')" by (cases x)
  with Cons.prems have "lookup (if P r' then store (key r') r' acc else acc) a = Some r \<or>
      r \<in> snd ` set ps \<and> key r = a"
    by (intro Cons.IH) simp
  with x show ?case by (auto split: if_splits)
qed

lemma fold_store_complete:
  "lookup acc a \<noteq> None \<or> (\<exists>r\<in>snd ` set ps. P r \<and> key r = a) \<Longrightarrow>
     lookup (fold (\<lambda>(d, r) acc. if P r then store (key r) r acc else acc) ps acc) a \<noteq> None"
proof (induction ps arbitrary: acc)
  case Nil
  then show ?case by simp
next
  case (Cons x ps)
  obtain d r' where x: "x = (d, r')" by (cases x)
  with Cons.prems have "lookup (if P r' then store (key r') r' acc else acc) a \<noteq> None \<or>
      (\<exists>r\<in>snd ` set ps. P r \<and> key r = a)"
    by auto
  from Cons.IH [OF this] show ?case by (simp add: x)
qed

lemma index_ok_reindex: "index_ok (reindex m)"
proof -
  have "r \<in> snd ` set (m_peers m) \<and> p_VirtualIP (peer_ref m r) = a"
    if "lookup (index_ip (m_heap m) (m_peers m)) a = Some r" for a r
    using fold_store_sound [where acc = "[]"] that unfolding index_ip_def by fastforce
  moreover have "r \<in> snd ` set (m_peers m) \<and> p_endpoint (peer_ref m r) = a"
    if "lookup (index_udp (m_heap m) (m_peers m)) a = Some r" for a r
    using fold_store_sound [where acc = "[]"] that unfolding index_udp_def by fastforce
  moreover have "lookup (index_ip (m_heap m) (m_peers m)) (p_VirtualIP (peer_ref m r)) \<noteq> None"
    if "r \<in> snd ` set (m_peers m)" "addr_valid (p_VirtualIP (peer_ref m r))" for r
    unfolding index_ip_def using that by (intro fold_store_complete) blast
  moreover have "lookup (index_udp (m_heap m) (m_peers m)) (p_endpoint (peer_ref m r)) \<noteq> None"
    if "r \<in> snd ` set (m_peers m)" "addrport_valid (p_endpoint (peer_ref m r))" for r
    unfolding index_udp_def using that by (intro fold_store_complete) blast
  ultimately show ?thesis
    by (simp add: index_ok_def reindex_def)
qed

lemma mesh_inv_reindex: "refs_ok m \<Longrightarrow> bounds_ok m \<Longrightarrow> mesh_inv (reindex m)"
  using index_ok_reindex by (simp add: mesh_inv_def refs_ok_def bounds_ok_def) (simp add: reindex_def)

lemma mesh_inv_setEndpoint:
  assumes "mesh_inv m"
  shows "mesh_inv (reindex (upd_peer r (\<lambda>p. snd (setEndpoint ep p)) m))"
proof (rule mesh_inv_reindex)
  have via: "p_via (snd (setEndpoint ep p)) = p_via p \<or> p_via (snd (setEndpoint ep p)) = None"
    for p :: "('b, 'c) peer"
    by (simp add: setEndpoint_def goDirectLocked_def)
  have ident: "p_DeviceID (snd (setEndpoint ep p)) = p_DeviceID p" for p :: "('b, 'c) peer"
    using same_peer_ops(2) [of p ep] by (simp add: same_peer_def)
  show "refs_ok (upd_peer r (\<lambda>p. snd (setEndpoint ep p)) m)"
    using assms via [of "peer_ref m r"]
    by (cases "r < length (m_heap m)")
      (auto simp: mesh_inv_def refs_ok_def upd_peer_def nth_list_update list_update_beyond ident
        split: if_splits)
  show "bounds_ok (upd_peer r (\<lambda>p. snd (setEndpoint ep p)) m)"
    using assms by (simp add: mesh_inv_def bounds_ok_def upd_peer_def)
qed

lemma mesh_inv_upd_open:
  assumes "mesh_inv m"
  shows "mesh_inv (upd_peer r (open_link now s) m)"
proof -
  have "p_via (open_link now s p) = p_via p" "p_endpoint (open_link now s p) = p_endpoint p"
    "p_DeviceID (open_link now s p) = p_DeviceID p" "p_VirtualIP (open_link now s p) = p_VirtualIP p"
    for p :: "('b, 'c) peer"
    by (simp_all add: open_link_def)
  with assms show ?thesis
    by (cases "r < length (m_heap m)")
      (auto simp: mesh_inv_def refs_ok_def index_ok_def bounds_ok_def upd_peer_def nth_list_update
        list_update_beyond split: if_splits)
qed

section \<open>Choosing a relay\<close>

lemma pick_relay_fold:
  fixes m :: "('k, 'hs, 'cs) mesh"
  assumes "fold (\<lambda>c relay. if \<not> relay_candidate m r c then relay
      else case relay of None \<Rightarrow> Some c
        | Some b \<Rightarrow> if p_DeviceID (peer_ref m c) < p_DeviceID (peer_ref m b) then Some c else Some b)
      cs acc = res"
  shows "case res of
      None \<Rightarrow> acc = None \<and> (\<forall>c\<in>set cs. \<not> relay_candidate m r c)
    | Some b \<Rightarrow> (acc = Some b \<or> b \<in> set cs \<and> relay_candidate m r b) \<and>
        (\<forall>a. acc = Some a \<longrightarrow> p_DeviceID (peer_ref m b) \<le> p_DeviceID (peer_ref m a)) \<and>
        (\<forall>c\<in>set cs. relay_candidate m r c \<longrightarrow> p_DeviceID (peer_ref m b) \<le> p_DeviceID (peer_ref m c))"
  using assms
proof (induction cs arbitrary: acc)
  case Nil
  then show ?case by (auto split: option.splits)
next
  case (Cons c cs)
  let ?acc = "if \<not> relay_candidate m r c then acc
      else case acc of None \<Rightarrow> Some c
        | Some b \<Rightarrow> if p_DeviceID (peer_ref m c) < p_DeviceID (peer_ref m b) then Some c else Some b"
  from Cons.prems have "fold (\<lambda>c relay. if \<not> relay_candidate m r c then relay
      else case relay of None \<Rightarrow> Some c
        | Some b \<Rightarrow> if p_DeviceID (peer_ref m c) < p_DeviceID (peer_ref m b) then Some c else Some b)
      cs ?acc = res" by simp
  from Cons.IH [OF this] show ?case
    by (auto split: option.splits if_splits intro: order.trans)
qed

lemma pick_relay_Some:
  assumes "pick_relay m r = Some b"
  shows "b \<in> set (Peers m)" "relay_candidate m r b"
    "\<And>c. c \<in> set (Peers m) \<Longrightarrow> relay_candidate m r c \<Longrightarrow>
      p_DeviceID (peer_ref m b) \<le> p_DeviceID (peer_ref m c)"
  using pick_relay_fold [OF assms [unfolded pick_relay_def]] by auto

lemma pick_relay_None: "pick_relay m r = None \<Longrightarrow> c \<in> set (Peers m) \<Longrightarrow> \<not> relay_candidate m r c"
  using pick_relay_fold [of m r "Peers m" None None] by (simp add: pick_relay_def)

section \<open>Every operation keeps the invariant\<close>

lemma Peers_ref: "refs_ok m \<Longrightarrow> r \<in> set (Peers m) \<Longrightarrow> r < length (m_heap m)"
  by (auto simp: refs_ok_def Peers_def)

lemma peerAt_ref: "mesh_inv m \<Longrightarrow> peerAt a m = Some r \<Longrightarrow> r < length (m_heap m)"
  using refs_ok_member index_okD(2) unfolding mesh_inv_def peerAt_def by blast

lemma byIP_ref: "mesh_inv m \<Longrightarrow> lookup (m_byIP m) a = Some r \<Longrightarrow> r < length (m_heap m)"
  using refs_ok_member index_okD(1) unfolding mesh_inv_def by blast

lemma evolves_tryRelay:
  assumes "refs_ok m"
  shows "evolves m (snd (tryRelay N env r m))"
proof (cases "pick_relay m r")
  case (Some b)
  then have "b < length (m_heap m)"
    using assms Peers_ref pick_relay_Some(1) by blast
  then have "evolves m (upd_peer r (relayThrough b (p_DeviceID (peer_ref m b))) m)"
    by (intro evolves_upd_chain) auto
  then show ?thesis by (auto simp: tryRelay_def Some Let_def)
qed (simp add: tryRelay_def)

lemma evolves_maintain_peer:
  assumes "refs_ok m"
  shows "evolves m (maintain_peer N env ka r m)"
proof -
  obtain ok m1 where t: "tryRelay N env r m = (ok, m1)" by fastforce
  have m1: "evolves m m1" using evolves_tryRelay [OF assms, of N env r] t by simp
  have "evolves m (upd_peer r (\<lambda>_. q) m1)" if "fail_link (peer_ref m1 r) = (b, q)" for b q
    by (rule evolves_const_upd [where f = fail_link, OF m1 _ that]) blast
  with m1 t show ?thesis
    by (auto simp: maintain_peer_def Let_def split: bool.splits prod.splits)
qed

lemma mesh_inv_maintain_fold:
  "mesh_inv m \<Longrightarrow> mesh_inv (fold (maintain_peer N env ka) rs m)"
proof (induction rs arbitrary: m)
  case (Cons r rs)
  then have "evolves m (maintain_peer N env ka r m)"
    by (intro evolves_maintain_peer) (simp add: mesh_inv_def)
  with Cons.prems have "mesh_inv (maintain_peer N env ka r m)" by (rule mesh_inv_evolves)
  from Cons.IH [OF this] show ?case by simp
qed simp

lemma mesh_inv_inbound:
  "mesh_inv m \<Longrightarrow> length q \<le> inboundCapacity \<Longrightarrow> mesh_inv (m\<lparr>m_inbound := q\<rparr>)"
  by (simp add: mesh_inv_def refs_ok_def index_ok_def bounds_ok_def)

lemma mesh_inv_waiters: "mesh_inv m \<Longrightarrow> mesh_inv (m\<lparr>m_stunWaiters := w\<rparr>)"
  by (simp add: mesh_inv_def refs_ok_def index_ok_def bounds_ok_def)

lemma mesh_inv_handleStun: "mesh_inv m \<Longrightarrow> mesh_inv (handleStun pkt m)"
  by (auto simp: handleStun_def Let_def mesh_inv_waiters split: option.splits sum.splits)

definition src_ok :: "source \<Rightarrow> ('k, 'hs, 'cs) mesh \<Rightarrow> bool" where
  "src_ok src m \<longleftrightarrow> (\<forall>r. src_relay src = Some r \<longrightarrow> r < length (m_heap m))"

lemma evolves_answer [intro]: "src_ok src m \<Longrightarrow> evolves m (answer_via_relay src r m)"
  by (auto simp: src_ok_def)

lemma mesh_inv_opened:
  assumes "mesh_inv m"
  shows "mesh_inv (sendKeepalive N env r (report r (upd_peer r (open_link now s) m)))"
proof -
  have "evolves (upd_peer r (open_link now s) m)
      (sendKeepalive N env r (report r (upd_peer r (open_link now s) m)))" by blast
  with mesh_inv_upd_open [OF assms] show ?thesis by (rule mesh_inv_evolves)
qed

text \<open>
  A handshake init that verifies: the link follows its peer to the relay or address the
  message came from.
\<close>

definition follow_source :: "source \<Rightarrow> ref \<Rightarrow> ('k, 'hs, 'cs) mesh \<Rightarrow> ('k, 'hs, 'cs) mesh" where
  "follow_source src r m =
     (if src_relay src \<noteq> None then answer_via_relay src r m
      else forgetStranger (src_addr src)
             (if p_endpoint (peer_ref m r) \<noteq> src_addr src
              then reindex (upd_peer r (\<lambda>p. snd (setEndpoint (src_addr src) p)) m) else m))"

lemma mesh_inv_follow_source:
  assumes "mesh_inv m" "src_ok src m"
  shows "mesh_inv (follow_source src r m)"
proof (cases "src_relay src = None")
  case True
  let ?m = "if p_endpoint (peer_ref m r) \<noteq> src_addr src
      then reindex (upd_peer r (\<lambda>p. snd (setEndpoint (src_addr src) p)) m) else m"
  have "mesh_inv ?m" using assms(1) mesh_inv_setEndpoint [OF assms(1), of r "src_addr src"] by simp
  moreover have "evolves ?m (forgetStranger (src_addr src) ?m)" by (rule evolves_basic)
  ultimately have "mesh_inv (forgetStranger (src_addr src) ?m)" by (rule mesh_inv_evolves)
  with True show ?thesis by (simp add: follow_source_def)
next
  case False
  with assms show ?thesis
    by (simp add: follow_source_def) (blast intro: mesh_inv_evolves)
qed

text \<open>The three ways a handshake init can end.\<close>

lemma handleHandshakeInit_cases:
  fixes m :: "('k, 'hs, 'cs) mesh"
  obtains (refused) "evolves m (handleHandshakeInit N env payload src m)"
  | (unanswered) r m1 where "evolves m m1" "handleHandshakeInit N env payload src m = follow_source src r m1"
      "r \<in> snd ` set (m_peers m)"
  | (opened) ini r h0 h1 h2 reply s body m1 m2 where
      "DecodeHandshakeInit payload = Inr ini" "lookup (m_peers m) (hi_DeviceID ini) = Some r"
      "NewResponder N (m_keys m) (m_draws m) = Inr h0" "ReadInit N h0 (hi_KeyExchange ini) = (h1, None)"
      "equalKeys (PeerStatic N h1) (p_transportKey (peer_ref m r))"
      "WriteResponse N h1 = (h2, Inr (reply, s))"
      "m1 = m\<lparr>m_draws := Suc (m_draws m)\<rparr>"
      "m2 = send N env r MsgHandshakeResponse (p_sender (peer_ref (follow_source src r m1) r)) 0 body
              (follow_source src r m1)"
      "handleHandshakeInit N env payload src m =
         sendKeepalive N env r (report r (upd_peer r (open_link (e_now env) s) m2))"
proof (cases "DecodeHandshakeInit payload")
  case (Inl e)
  then show ?thesis using refused by (simp add: handleHandshakeInit_def)
next
  case ini: (Inr ini)
  show ?thesis
  proof (cases "lookup (m_peers m) (hi_DeviceID ini)")
    case None
    with ini show ?thesis using refused by (simp add: handleHandshakeInit_def)
  next
    case r: (Some r)
    let ?m1 = "m\<lparr>m_draws := Suc (m_draws m)\<rparr>"
    have m1: "evolves m ?m1" by simp
    show ?thesis
    proof (cases "\<exists>h0 h1 h2 reply s. NewResponder N (m_keys m) (m_draws m) = Inr h0 \<and>
        ReadInit N h0 (hi_KeyExchange ini) = (h1, None) \<and>
        equalKeys (PeerStatic N h1) (p_transportKey (peer_ref m r)) \<and>
        WriteResponse N h1 = (h2, Inr (reply, s))")
      case False
      then have "handleHandshakeInit N env payload src m = ?m1"
        by (auto simp: handleHandshakeInit_def ini r Let_def split: sum.splits prod.splits option.splits)
      with m1 show ?thesis using refused by simp
    next
      case True
      then obtain h0 h1 h2 reply s where hs: "NewResponder N (m_keys m) (m_draws m) = Inr h0"
        "ReadInit N h0 (hi_KeyExchange ini) = (h1, None)"
        "equalKeys (PeerStatic N h1) (p_transportKey (peer_ref m r))"
        "WriteResponse N h1 = (h2, Inr (reply, s))" by blast
      show ?thesis
      proof (cases "HandshakeResponse_Encode \<lparr>hr_KeyExchange = reply\<rparr> []")
        case (Inl e)
        then have "handleHandshakeInit N env payload src m = follow_source src r ?m1"
          by (simp add: handleHandshakeInit_def ini r hs Let_def follow_source_def)
        moreover have "r \<in> snd ` set (m_peers m)"
          using r by (force dest: map_of_SomeD)
        ultimately show ?thesis using unanswered [OF m1] by blast
      next
        case (Inr body)
        then have "handleHandshakeInit N env payload src m =
            sendKeepalive N env r (report r (upd_peer r (open_link (e_now env) s)
              (send N env r MsgHandshakeResponse (p_sender (peer_ref (follow_source src r ?m1) r)) 0 body
                (follow_source src r ?m1))))"
          by (simp add: handleHandshakeInit_def ini r hs Let_def follow_source_def)
        then show ?thesis using opened [OF ini r hs refl refl] by blast
      qed
    qed
  qed
qed

lemma mesh_inv_handleHandshakeInit:
  assumes "mesh_inv m" "src_ok src m"
  shows "mesh_inv (handleHandshakeInit N env payload src m)"
proof (cases rule: handleHandshakeInit_cases [of m N env payload src])
  case refused
  with assms(1) show ?thesis by (rule mesh_inv_evolves)
next
  case (unanswered r m1)
  have "mesh_inv m1" "src_ok src m1"
    using assms mesh_inv_evolves [OF assms(1) unanswered(1)] evolves_same(7) [OF unanswered(1)]
    by (simp_all add: src_ok_def)
  with unanswered(2) show ?thesis by (simp add: mesh_inv_follow_source)
next
  case (opened ini r h0 h1 h2 reply s body m1 m2)
  have m1: "evolves m m1" by (simp add: opened(7))
  have "mesh_inv m1" "src_ok src m1"
    using assms mesh_inv_evolves [OF assms(1) m1] evolves_same(7) [OF m1] by (simp_all add: src_ok_def)
  then have "mesh_inv (follow_source src r m1)" by (rule mesh_inv_follow_source)
  moreover have "evolves (follow_source src r m1) m2" unfolding opened(8) by blast
  ultimately have "mesh_inv m2" by (rule mesh_inv_evolves)
  then show ?thesis unfolding opened(9) by (rule mesh_inv_opened)
qed

lemma mesh_inv_handleHandshakeResponse:
  assumes "mesh_inv m" "src_ok src m"
  shows "mesh_inv (handleHandshakeResponse N env payload src m)"
proof -
  have "mesh_inv (upd_peer r (\<lambda>p. p\<lparr>p_handshake := Some h\<rparr>) m)"
    if "p_handshake (peer_ref m r) = Some h'" for r h h'
    using that by (intro mesh_inv_evolves [OF assms(1)] evolves_upd link_evolves_fields) simp
  moreover have "mesh_inv (sendKeepalive N env r (report r
      (upd_peer r (open_link (e_now env) s) (answer_via_relay src r m))))" for r s
    by (rule mesh_inv_opened, rule mesh_inv_evolves [OF assms(1)]) (rule evolves_answer [OF assms(2)])
  ultimately show ?thesis
    using assms(1)
    by (auto simp: handleHandshakeResponse_def Let_def split: sum.splits option.splits prod.splits)
qed

lemma mesh_inv_handleData:
  assumes "mesh_inv m" "src_ok src m"
  shows "mesh_inv (handleData N env packet ct c src m)"
proof (cases "src_peer src")
  case None
  then show ?thesis
    by (simp add: handleData_def) (blast intro: mesh_inv_evolves [OF assms(1)])
next
  case (Some r)
  obtain res q where acc: "accept N (e_now env) (take HeaderSize packet) ct c (peer_ref m r) = (res, q)"
    by fastforce
  have q: "link_evolves n (peer_ref m r) q" for n
    using link_evolves_ops(5) [of n "peer_ref m r"] acc by (metis snd_conv)
  show ?thesis
  proof (cases res)
    case (Inl e)
    have "evolves m (drop_packet (acceptReason e) (upd_peer r (\<lambda>_. q) m))"
      by (rule evolves_chain, rule evolves_upd) (rule q)
    then show ?thesis
      using mesh_inv_evolves [OF assms(1)] by (simp add: handleData_def Some acc Inl)
  next
    case (Inr pt)
    let ?m1 = "upd_peer r (\<lambda>_. q\<lparr>p_received := p_received q + 1\<rparr>) m"
    let ?m2 = "answer_via_relay src r ?m1"
    have m1: "evolves m ?m1"
      by (rule evolves_upd, rule link_evolves_trans [OF q]) blast
    have "src_ok src ?m1" using assms(2) by (simp add: src_ok_def upd_peer_def)
    then have "evolves m ?m2" by (rule evolves_trans [OF m1 evolves_answer])
    with assms(1) have m2: "mesh_inv ?m2" by (rule mesh_inv_evolves)
    have "mesh_inv (?m2\<lparr>m_inbound := m_inbound ?m2 @ [pt]\<rparr>)"
      if "length (m_inbound ?m2) < inboundCapacity"
      using mesh_inv_inbound [OF m2, of "m_inbound ?m2 @ [pt]"] that by simp
    moreover have "mesh_inv (drop_packet QueueFull ?m2)"
      by (rule mesh_inv_evolves [OF m2]) blast
    ultimately show ?thesis by (simp add: handleData_def Some acc Inr Let_def)
  qed
qed

lemma mesh_inv_dispatch:
  "mesh_inv m \<Longrightarrow> src_ok src m \<Longrightarrow> mesh_inv (dispatch N env h packet payload src m)"
  by (auto simp: dispatch_def intro: mesh_inv_handleHandshakeInit mesh_inv_handleHandshakeResponse
      mesh_inv_handleData mesh_inv_evolves)

lemma mesh_inv_deliverForwarded:
  "mesh_inv m \<Longrightarrow> relay < length (m_heap m) \<Longrightarrow> mesh_inv (deliverForwarded N env carried relay m)"
  by (auto simp: deliverForwarded_def src_ok_def split: option.splits sum.splits
      intro: mesh_inv_evolves intro!: mesh_inv_dispatch)

lemma mesh_inv_handleForward:
  assumes "mesh_inv m"
  shows "mesh_inv (handleForward N env packet ct c from m)"
proof (cases "peerAt from m")
  case None
  then show ?thesis
    by (simp add: handleForward_def) (blast intro: mesh_inv_evolves [OF assms])
next
  case (Some relay)
  obtain res q where acc: "accept N (e_now env) (take HeaderSize packet) ct c (peer_ref m relay) = (res, q)"
    by fastforce
  have q: "link_evolves n (peer_ref m relay) q" for n
    using link_evolves_ops(5) [of n "peer_ref m relay"] acc by (metis snd_conv)
  have m1: "evolves m (upd_peer relay (\<lambda>_. q) m)"
    by (rule evolves_upd) (rule q)
  have "relay < length (m_heap (upd_peer relay (\<lambda>_. q) m))"
    using peerAt_ref [OF assms Some] by (simp add: upd_peer_def)
  with mesh_inv_evolves [OF assms m1] show ?thesis
    by (auto simp: handleForward_def Some acc Let_def split: sum.splits
        intro: mesh_inv_evolves intro!: mesh_inv_deliverForwarded)
qed

lemma mesh_inv_handle: "mesh_inv m \<Longrightarrow> mesh_inv (handle N env packet from m)"
  by (auto simp: handle_def src_ok_def split: sum.splits
      intro: mesh_inv_evolves intro!: mesh_inv_handleStun mesh_inv_handleForward mesh_inv_dispatch)

section \<open>The links of the group\<close>

lemma mesh_inv_New: "mesh_inv (New d ip keys rec)"
  by (simp add: mesh_inv_def New_def refs_ok_def index_ok_def bounds_ok_def)

lemma refs_ok_appended:
  assumes "refs_ok m" "p_DeviceID q = d" "peer_inv q" "p_via q = None"
  shows "refs_ok (m\<lparr>m_heap := m_heap m @ [q], m_peers := store d (length (m_heap m)) (m_peers m)\<rparr>)"
proof -
  have "set (store d (length (m_heap m)) (m_peers m)) \<subseteq> insert (d, length (m_heap m)) (set (m_peers m))"
    by (rule set_store_subset)
  with assms show ?thesis
    by (fastforce simp: refs_ok_def nth_append less_Suc_eq intro: distinct_update)
qed

lemma mesh_inv_setEndpoint_report:
  "mesh_inv m \<Longrightarrow> mesh_inv (report r (reindex (upd_peer r (\<lambda>p. snd (setEndpoint ep p)) m)))"
  using mesh_inv_evolves [OF mesh_inv_setEndpoint evolves_basic(2)] .

lemma mesh_inv_punch: "mesh_inv m \<Longrightarrow> mesh_inv (punch env r m)"
  by (rule mesh_inv_evolves [OF _ evolves_punch [OF evolves_refl]])

lemma mesh_inv_draw: "mesh_inv m \<Longrightarrow> randomSender env m = (t, m') \<Longrightarrow> mesh_inv m'"
  using mesh_inv_evolves [OF _ evolves_basic(5), of m env] by simp

lemma mesh_inv_AddPeer:
  assumes "mesh_inv m"
  shows "mesh_inv (snd (AddPeer env d nick ip key ep m))"
proof -
  obtain t m1 where t: "randomSender env m = (t, m1)" by fastforce
  have m1: "mesh_inv m1" using mesh_inv_draw [OF assms t] .
  have "mesh_inv (reindex (m1\<lparr>m_heap := m_heap m1 @ [newPeer d nick ip key ep s],
      m_peers := store d (length (m_heap m1)) (m_peers m1)\<rparr>))" for s
  proof (rule mesh_inv_reindex)
    show "refs_ok (m1\<lparr>m_heap := m_heap m1 @ [newPeer d nick ip key ep s],
      m_peers := store d (length (m_heap m1)) (m_peers m1)\<rparr>)"
      using m1 by (intro refs_ok_appended) (simp_all add: mesh_inv_def newPeer_def peer_inv_def)
  qed (use m1 in \<open>simp add: mesh_inv_def bounds_ok_def\<close>)
  note added = mesh_inv_punch [OF mesh_inv_evolves [OF this evolves_basic(2)]]
  show ?thesis
    using m1 assms added mesh_inv_setEndpoint_report [OF m1]
    by (simp add: AddPeer_def t Let_def split: option.splits)
qed

lemma mesh_inv_SetPeerEndpoint:
  assumes "mesh_inv m"
  shows "mesh_inv (SetPeerEndpoint env d ep m)"
  using assms mesh_inv_punch [OF mesh_inv_setEndpoint_report [OF assms, of _ ep]]
  by (simp add: SetPeerEndpoint_def split: option.splits)

lemma mesh_inv_RemovePeer:
  assumes "mesh_inv m"
  shows "mesh_inv (RemovePeer d m)"
  unfolding RemovePeer_def
proof (rule mesh_inv_reindex)
  have "set (remove d (m_peers m)) \<subseteq> set (m_peers m)" by (rule set_remove_subset)
  with assms show "refs_ok (m\<lparr>m_peers := remove d (m_peers m)\<rparr>)"
    by (auto simp: mesh_inv_def refs_ok_def distinct_delete)
qed (use assms in \<open>simp add: mesh_inv_def bounds_ok_def\<close>)

lemma evolves_RestartLinks: "evolves m (RestartLinks env m)"
  unfolding RestartLinks_def by (rule evolves_fold) auto

lemma evolves_RetryPeer: "evolves m (snd (RetryPeer N env d m))"
  by (auto simp: RetryPeer_def split: option.splits)

lemma mesh_inv_shuffle:
  assumes "mesh_inv m" "mset ps = mset (m_peers m)"
  shows "mesh_inv (m\<lparr>m_peers := ps\<rparr>)"
proof -
  have "set ps = set (m_peers m)" using assms(2) by (metis set_mset_mset)
  moreover have "distinct (map fst ps)"
  proof -
    have "mset (map fst ps) = mset (map fst (m_peers m))" by (simp add: assms(2))
    moreover have "distinct (map fst (m_peers m))"
      using assms(1) by (simp add: mesh_inv_def refs_ok_def)
    ultimately show ?thesis using mset_eq_imp_distinct_iff by blast
  qed
  ultimately show ?thesis
    using assms(1) by (simp add: mesh_inv_def refs_ok_def index_ok_def bounds_ok_def)
qed

section \<open>Everything that can happen to a mesh\<close>

text \<open>
  One critical section of the code at a time, in any order: the calls of the core, a
  datagram, a tick of the maintenance loop, a round of STUN, the adapter taking a packet,
  and the next iteration over the map picking another order. Clock, randomness and socket
  differ from step to step.
\<close>

inductive mesh_step :: "('k, 'hs, 'cs) noise \<Rightarrow> ('k, 'hs, 'cs) mesh \<Rightarrow> ('k, 'hs, 'cs) mesh \<Rightarrow> bool"
  for N where
  step_AddPeer: "mesh_step N m (snd (AddPeer env d nick ip key ep m))"
| step_SetPeerEndpoint: "mesh_step N m (SetPeerEndpoint env d ep m)"
| step_RestartLinks: "mesh_step N m (RestartLinks env m)"
| step_RetryPeer: "mesh_step N m (snd (RetryPeer N env d m))"
| step_RemovePeer: "mesh_step N m (RemovePeer d m)"
| step_Send: "mesh_step N m (snd (Send N env ip pkt m))"
| step_Broadcast: "mesh_step N m (snd (Broadcast N env pkt m))"
| step_handle: "mesh_step N m (handle N env pkt from m)"
| step_maintain: "mesh_step N m (snd (maintain_tick N env lastKeepalive m))"
| step_stun_begin: "mesh_step N m (stun_begin env tid server m)"
| step_stun_end: "mesh_step N m (snd (stun_end tid m))"
| step_inbound: "m_inbound m = pkt # rest \<Longrightarrow> mesh_step N m (m\<lparr>m_inbound := rest\<rparr>)"
| step_map_order: "mset ps = mset (m_peers m) \<Longrightarrow> mesh_step N m (m\<lparr>m_peers := ps\<rparr>)"

inductive_cases mesh_stepE: "mesh_step N m m'"

lemma mesh_step_inv:
  assumes "mesh_step N m m'" "mesh_inv m"
  shows "mesh_inv m'"
  using assms
proof (induction rule: mesh_step.induct)
  case (step_RestartLinks m env)
  then show ?case by (rule mesh_inv_evolves [OF _ evolves_RestartLinks])
next
  case (step_RetryPeer m env d)
  then show ?case by (rule mesh_inv_evolves [OF _ evolves_RetryPeer])
next
  case (step_Send m env ip pkt)
  then show ?case by (rule mesh_inv_evolves) blast
next
  case (step_Broadcast m env pkt)
  then show ?case unfolding Broadcast_def by (rule mesh_inv_evolves) blast
next
  case (step_maintain m env lastKeepalive)
  then show ?case by (simp add: maintain_tick_def Let_def mesh_inv_maintain_fold)
next
  case (step_stun_begin m env tid server)
  then show ?case
    unfolding stun_begin_def Let_def
    by (intro mesh_inv_evolves [OF mesh_inv_waiters evolves_basic(8)])
next
  case (step_inbound m pkt rest)
  then show ?case by (intro mesh_inv_inbound) (simp_all add: mesh_inv_def bounds_ok_def)
qed (auto intro: mesh_inv_AddPeer mesh_inv_SetPeerEndpoint mesh_inv_RemovePeer mesh_inv_handle
    mesh_inv_shuffle mesh_inv_waiters simp: stun_end_def)

interpretation mesh: invariant_system
  "\<lambda>m :: ('k, 'hs, 'cs) mesh. \<exists>d ip keys rec. m = New d ip keys rec" "mesh_step N" mesh_inv
  for N :: "('k, 'hs, 'cs) noise"
  by unfold_locales (auto simp: mesh_inv_New intro: mesh_step_inv)

end
