(* ===== verification/Mesh_Props.thy ===== *)
theory Mesh_Props
  imports Mesh_Inv
begin

text \<open>
  What the mesh promises: which packets reach the adapter, who a session can be opened
  with, how a packet is carried for others, what a sent packet becomes at the other end,
  and when a link is given up.
\<close>

section \<open>Frame lemmas\<close>

lemma upd_peer_frame [simp]:
  "m_inbound (upd_peer r f m) = m_inbound m" "m_peers (upd_peer r f m) = m_peers m"
  "m_byIP (upd_peer r f m) = m_byIP m" "m_byUDP (upd_peer r f m) = m_byUDP m"
  "m_virtualIP (upd_peer r f m) = m_virtualIP m" "m_device (upd_peer r f m) = m_device m"
  "m_keys (upd_peer r f m) = m_keys m" "m_out (upd_peer r f m) = m_out m"
  "m_events (upd_peer r f m) = m_events m" "m_draws (upd_peer r f m) = m_draws m"
  "m_packets (upd_peer r f m) = m_packets m"
  "length (m_heap (upd_peer r f m)) = length (m_heap m)"
  by (simp_all add: upd_peer_def)

lemma upd_peer_nth:
  "r < length (m_heap m) \<Longrightarrow>
     peer_ref (upd_peer r f m) r' = (if r' = r then f (peer_ref m r) else peer_ref m r')"
  by (auto simp: upd_peer_def)

lemma upd_peer_other [simp]: "r' \<noteq> r \<Longrightarrow> peer_ref (upd_peer r f m) r' = peer_ref m r'"
  by (simp add: upd_peer_def)

lemma upd_peer_same [simp]: "r < length (m_heap m) \<Longrightarrow> peer_ref (upd_peer r f m) r = f (peer_ref m r)"
  by (simp add: upd_peer_def)

lemma drop_packet_frame [simp]:
  "m_inbound (drop_packet x m) = m_inbound m" "m_heap (drop_packet x m) = m_heap m"
  "m_out (drop_packet x m) = m_out m" "m_events (drop_packet x m) = m_events m"
  "m_peers (drop_packet x m) = m_peers m"
  by (simp_all add: drop_packet_def)

lemma noteStranger_heap [simp]: "m_heap (noteStranger a m) = m_heap m"
  by (simp add: noteStranger_def)

lemma inbound_frame [simp]:
  "m_inbound (noteStranger a m) = m_inbound m" "m_inbound (answer_via_relay src r m) = m_inbound m"
  "m_inbound (follow_source src r m) = m_inbound m" "m_inbound (handleStun pkt m) = m_inbound m"
  by (auto simp: noteStranger_def answer_via_relay_def follow_source_def reindex_def
      forgetStranger_def handleStun_def Let_def split: option.splits sum.splits)

section \<open>What reaches the adapter\<close>

lemma inbound_handleHandshakeInit:
  fixes m :: "('k, 'hs, 'cs) mesh"
  shows "m_inbound (handleHandshakeInit N env payload src m) = m_inbound m"
proof (cases rule: handleHandshakeInit_cases [of m N env payload src])
  case refused
  then show ?thesis by (rule evolves_same(6))
next
  case (unanswered r m1)
  then show ?thesis using evolves_same(6) [OF unanswered(1)] by simp
next
  case (opened ini r h0 h1 h2 reply s body m1 m2)
  have "evolves (follow_source src r m1) m2" unfolding opened(8) by blast
  moreover have "evolves (upd_peer r (open_link (e_now env) s) m2)
      (sendKeepalive N env r (report r (upd_peer r (open_link (e_now env) s) m2)))" by blast
  ultimately show ?thesis
    unfolding opened(9) by (simp add: evolves_same(6) opened(7))
qed

lemma inbound_handleHandshakeResponse:
  "m_inbound (handleHandshakeResponse N env payload src m) = m_inbound m"
proof -
  have "m_inbound (sendKeepalive N env r (report r m')) = m_inbound m'" for r and m' :: "('a, 'b, 'c) mesh"
    by (rule evolves_same(6)) blast
  then show ?thesis
    by (simp add: handleHandshakeResponse_def Let_def split: sum.splits option.splits prod.splits)
qed

lemma inbound_handleData:
  "m_inbound (handleData N env packet ct c src m) = m_inbound m \<or>
   (\<exists>r pt. src_peer src = Some r \<and>
      fst (accept N (e_now env) (take HeaderSize packet) ct c (peer_ref m r)) = Inr pt \<and>
      m_inbound (handleData N env packet ct c src m) = m_inbound m @ [pt])"
  by (auto simp: handleData_def Let_def split: option.splits prod.splits sum.splits)

lemma inbound_dispatch:
  "m_inbound (dispatch N env h packet payload src m) = m_inbound m \<or>
   (\<exists>r pt. hdr_Type h = MsgData \<and> src_peer src = Some r \<and>
      fst (accept N (e_now env) (take HeaderSize packet) payload (hdr_Counter h) (peer_ref m r)) = Inr pt \<and>
      m_inbound (dispatch N env h packet payload src m) = m_inbound m @ [pt])"
proof -
  have "m_inbound (handleKeepalive N env payload src m) = m_inbound m"
    "m_inbound (handleClose src m) = m_inbound m"
    by (rule evolves_same(6), blast)+
  then show ?thesis
    using inbound_handleData [of N env packet payload "hdr_Counter h" src m]
    by (auto simp: dispatch_def inbound_handleHandshakeInit inbound_handleHandshakeResponse)
qed

lemma take_header [simp]: "take HeaderSize (header_bytes h @ ps) = header_bytes h"
  by simp

lemma Header_Encode_Nil: "Header_Encode h [] ps = header_bytes h @ ps"
  by (simp add: Header_Encode_def)

text \<open>
  A packet that is authentic for link \<open>r\<close>: an envelope around a ciphertext that decrypts
  under the link's session with the envelope as additional data, with a counter the
  link's replay window has not seen.
\<close>

definition opens_on ::
  "('k, 'hs, 'cs) noise \<Rightarrow> ('hs, 'cs) peer \<Rightarrow> u8 \<Rightarrow> bytes \<Rightarrow> bytes \<Rightarrow> bool" where
  "opens_on N p kind pkt plain \<longleftrightarrow>
     (case Decode pkt of
        Inl _ \<Rightarrow> False
      | Inr (h, ct) \<Rightarrow>
          (case p_session p of
             None \<Rightarrow> False
           | Some s \<Rightarrow> hdr_Type h = kind \<and>
               n_decrypt N (s_recv s) (hdr_Counter h) (header_bytes h) ct = Some plain \<and>
               fst (Accept (p_replay p) (hdr_Counter h))))"

lemma opens_on_accept:
  "Decode pkt = Inr (h, ct) \<Longrightarrow>
     opens_on N p kind pkt pt \<longleftrightarrow>
       hdr_Type h = kind \<and> fst (accept N now (take HeaderSize pkt) ct (hdr_Counter h) p) = Inr pt"
  by (auto simp: opens_on_def accept_Inr_iff Decode_Inr_iff Decode_header_bytes split: option.splits)

lemma inbound_deliverForwarded:
  "m_inbound (deliverForwarded N env carried relay m) = m_inbound m \<or>
   (\<exists>r pt. lookup (m_byIP m) (fw_Source carried) = Some r \<and> r \<noteq> relay \<and>
      opens_on N (peer_ref m r) MsgData (fw_Packet carried) pt \<and>
      m_inbound (deliverForwarded N env carried relay m) = m_inbound m @ [pt])"
proof (cases "lookup (m_byIP m) (fw_Source carried)")
  case (Some r)
  show ?thesis
  proof (cases "r = relay")
    case False
    show ?thesis
    proof (cases "Decode (fw_Packet carried)")
      case (Inr hp)
      obtain h ps where dec: "Decode (fw_Packet carried) = Inr (h, ps)"
        using Inr by (cases hp) simp
      let ?src = "\<lparr>src_addr = no_addrport, src_peer = Some r, src_relay = Some relay\<rparr>"
      show ?thesis
        using inbound_dispatch [of N env h "fw_Packet carried" ps ?src m] False
        by (auto simp: deliverForwarded_def Some dec opens_on_accept [OF dec, where now = "e_now env"])
    qed (simp add: deliverForwarded_def Some)
  qed (simp add: deliverForwarded_def Some)
qed (simp add: deliverForwarded_def)

lemma inbound_handleForward:
  assumes "Decode packet = Inr (h, ct)" "hdr_Type h = MsgForward"
    "m_inbound (handleForward N env packet ct (hdr_Counter h) from m) \<noteq> m_inbound m"
  shows "\<exists>relay r body carried pt. peerAt from m = Some relay \<and>
      opens_on N (peer_ref m relay) MsgForward packet body \<and> DecodeForward body = Inr carried \<and>
      fw_Destination carried = m_virtualIP m \<and>
      lookup (m_byIP m) (fw_Source carried) = Some r \<and> r \<noteq> relay \<and>
      opens_on N (peer_ref m r) MsgData (fw_Packet carried) pt \<and>
      m_inbound (handleForward N env packet ct (hdr_Counter h) from m) = m_inbound m @ [pt]"
proof (cases "peerAt from m")
  case None
  with assms(3) show ?thesis by (simp add: handleForward_def)
next
  case (Some relay)
  obtain res q where acc: "accept N (e_now env) (take HeaderSize packet) ct (hdr_Counter h)
      (peer_ref m relay) = (res, q)" by fastforce
  let ?m = "upd_peer relay (\<lambda>_. q) m"
  from acc Some assms(3) obtain body where body: "res = Inr body"
    by (cases res) (auto simp: handleForward_def)
  have opens: "opens_on N (peer_ref m relay) MsgForward packet body"
    using acc body assms(2) by (simp add: opens_on_accept [OF assms(1), where now = "e_now env"])
  from acc Some body assms(3) obtain carried where carried: "DecodeForward body = Inr carried"
    by (cases "DecodeForward body") (auto simp: handleForward_def)
  have "m_inbound (passOn N env carried relay ?m) = m_inbound ?m"
    by (rule evolves_same(6)) blast
  with acc Some body carried assms(3) have dest: "fw_Destination carried = m_virtualIP m"
    by (auto simp: handleForward_def Let_def split: if_splits)
  have eq: "handleForward N env packet ct (hdr_Counter h) from m = deliverForwarded N env carried relay ?m"
    by (simp add: handleForward_def Some acc body carried dest)
  with inbound_deliverForwarded [of N env carried relay ?m] assms(3)
  obtain r pt where "lookup (m_byIP m) (fw_Source carried) = Some r" "r \<noteq> relay"
    "opens_on N (peer_ref ?m r) MsgData (fw_Packet carried) pt"
    "m_inbound (deliverForwarded N env carried relay ?m) = m_inbound m @ [pt]" by auto
  then show ?thesis using opens carried dest Some eq by auto
qed

lemma inbound_handle:
  assumes "m_inbound (handle N env packet from m) \<noteq> m_inbound m"
  shows "\<exists>r data pt. opens_on N (peer_ref m r) MsgData data pt \<and>
      m_inbound (handle N env packet from m) = m_inbound m @ [pt] \<and>
      (data = packet \<and> peerAt from m = Some r \<or>
       (\<exists>relay body carried. peerAt from m = Some relay \<and> r \<noteq> relay \<and>
          opens_on N (peer_ref m relay) MsgForward packet body \<and>
          DecodeForward body = Inr carried \<and> fw_Packet carried = data \<and>
          fw_Destination carried = m_virtualIP m \<and> lookup (m_byIP m) (fw_Source carried) = Some r))"
proof -
  from assms obtain h ct where dec: "\<not> Looks packet" "Decode packet = Inr (h, ct)"
    by (auto simp: handle_def split: if_splits sum.splits)
  have "m_inbound (handleProbe N env ct from m) = m_inbound m"
    by (rule evolves_same(6)) blast
  with assms dec have notprobe: "hdr_Type h \<noteq> MsgProbe" by (auto simp: handle_def)
  show ?thesis
  proof (cases "hdr_Type h = MsgForward")
    case True
    then have eq: "handle N env packet from m = handleForward N env packet ct (hdr_Counter h) from m"
      using dec notprobe by (simp add: handle_def)
    show ?thesis
      using inbound_handleForward [OF dec(2) True, of N env "from" m] assms unfolding eq by blast
  next
    case False
    let ?src = "\<lparr>src_addr = from, src_peer = peerAt from m, src_relay = None\<rparr>"
    have eq: "handle N env packet from m = dispatch N env h packet ct ?src m"
      using dec notprobe False by (simp add: handle_def)
    obtain r pt where "hdr_Type h = MsgData" "peerAt from m = Some r"
      "fst (accept N (e_now env) (take HeaderSize packet) ct (hdr_Counter h) (peer_ref m r)) = Inr pt"
      "m_inbound (handle N env packet from m) = m_inbound m @ [pt]"
      using inbound_dispatch [of N env h packet ct ?src m] assms unfolding eq by auto
    moreover from this have "opens_on N (peer_ref m r) MsgData packet pt"
      by (simp add: opens_on_accept [OF dec(2), where now = "e_now env"])
    ultimately show ?thesis by blast
  qed
qed

section \<open>Who a session is opened with\<close>

lemma xor_zero_iff: "(x :: byte) XOR y = 0 \<longleftrightarrow> x = y"
  by (metis xor_self_eq xor.left_neutral xor.assoc xor.right_neutral)

lemma diff_bytes_zero:
  "length a = length b \<Longrightarrow> diff_bytes a b acc = 0 \<longleftrightarrow> acc = 0 \<and> a = b"
  by (induction a b arbitrary: acc rule: list_induct2) (auto simp: or_eq_0_iff xor_zero_iff)

lemma equalKeys_iff: "equalKeys a b \<longleftrightarrow> a = b"
  using diff_bytes_zero [of a b 0] by (auto simp: equalKeys_def)

text \<open>Sessions that only ever disappear.\<close>

definition no_new_session :: "('k, 'hs, 'cs) mesh \<Rightarrow> ('k, 'hs, 'cs) mesh \<Rightarrow> bool" where
  "no_new_session m m' \<longleftrightarrow>
     length (m_heap m') = length (m_heap m) \<and>
     (\<forall>r<length (m_heap m). p_session (peer_ref m' r) = p_session (peer_ref m r) \<or>
        p_session (peer_ref m' r) = None)"

lemma no_new_sessionD:
  "no_new_session m m' \<Longrightarrow> r < length (m_heap m) \<Longrightarrow> p_session (peer_ref m' r) = Some s \<Longrightarrow>
     p_session (peer_ref m r) = Some s"
  by (metis no_new_session_def option.distinct(1))

lemma no_new_session_trans:
  "no_new_session m m' \<Longrightarrow> no_new_session m' m'' \<Longrightarrow> no_new_session m m''"
  by (fastforce simp: no_new_session_def)

lemma no_new_session_evolves: "evolves m m' \<Longrightarrow> no_new_session m m'"
  by (simp add: no_new_session_def evolves_def link_evolves_def)

lemma no_new_session_setEndpoint:
  "no_new_session m (forgetStranger a (reindex (upd_peer r (\<lambda>p. snd (setEndpoint ep p)) m)))"
proof -
  have "p_session (snd (setEndpoint ep p)) = p_session p \<or> p_session (snd (setEndpoint ep p)) = None"
    for p :: "('b, 'c) peer"
    by (simp add: setEndpoint_def goDirectLocked_def resetLocked_def)
  then have "p_session ((m_heap m)[r := snd (setEndpoint ep (peer_ref m r))] ! r') = p_session (peer_ref m r') \<or>
      p_session ((m_heap m)[r := snd (setEndpoint ep (peer_ref m r))] ! r') = None"
    if "r' < length (m_heap m)" for r'
    using that by (cases "r' = r") auto
  then show ?thesis
    by (simp add: no_new_session_def forgetStranger_def reindex_def upd_peer_def)
qed

lemma no_new_session_follow:
  assumes "src_ok src m"
  shows "no_new_session m (follow_source src r m)"
proof (cases "src_relay src = None")
  case True
  then show ?thesis
    by (simp add: follow_source_def no_new_session_setEndpoint
        no_new_session_evolves [OF evolves_basic(4)])
next
  case False
  then show ?thesis
    using no_new_session_evolves [OF evolves_answer [OF assms]] by (simp add: follow_source_def)
qed

lemma no_new_session_opened:
  assumes "no_new_session m m1" "r' < length (m_heap m)"
    "p_session (peer_ref (sendKeepalive N env r (report r (upd_peer r (open_link now s) m1))) r') = Some s'"
  shows "p_session (peer_ref m r') = Some s' \<or> r' = r \<and> s' = s"
proof -
  let ?m2 = "upd_peer r (open_link now s) m1"
  have "no_new_session ?m2 (sendKeepalive N env r (report r ?m2))"
    by (rule no_new_session_evolves) blast
  moreover have "r' < length (m_heap ?m2)" using assms(1,2) by (simp add: no_new_session_def)
  ultimately have "p_session (peer_ref ?m2 r') = Some s'"
    using assms(3) by (rule no_new_sessionD)
  with assms(1,2) show ?thesis
    by (cases "r' = r") (auto simp: no_new_session_def upd_peer_nth open_link_def)
qed

text \<open>
  The two ways a peer proves who it is: its handshake init carries the key the
  coordination server named for it, or its answer completes a handshake this device
  began towards that key.
\<close>

definition proven_by ::
  "('k, 'hs, 'cs) noise \<Rightarrow> 'k \<Rightarrow> ('hs, 'cs) peer \<Rightarrow> 'cs session \<Rightarrow> bool" where
  "proven_by N keys p s \<longleftrightarrow>
     (\<exists>seed h0 h1 h2 msg reply. NewResponder N keys seed = Inr h0 \<and> ReadInit N h0 msg = (h1, None) \<and>
        PeerStatic N h1 = p_transportKey p \<and> WriteResponse N h1 = (h2, Inr (reply, s))) \<or>
     (\<exists>h h' msg. p_handshake p = Some h \<and> ReadResponse N h msg = (h', Inr s))"

lemma session_handleHandshakeInit:
  fixes m :: "('k, 'hs, 'cs) mesh"
  assumes "src_ok src m" "r < length (m_heap m)"
    "p_session (peer_ref (handleHandshakeInit N env payload src m) r) = Some s"
  shows "p_session (peer_ref m r) = Some s \<or> proven_by N (m_keys m) (peer_ref m r) s"
proof (cases rule: handleHandshakeInit_cases [of m N env payload src])
  case refused
  then show ?thesis using no_new_sessionD [OF no_new_session_evolves assms(2,3)] by blast
next
  case (unanswered r' m1)
  have "src_ok src m1" using assms(1) evolves_same(7) [OF unanswered(1)] by (simp add: src_ok_def)
  then have "no_new_session m (follow_source src r' m1)"
    using no_new_session_trans [OF no_new_session_evolves [OF unanswered(1)] no_new_session_follow] by blast
  with unanswered(2) assms(2,3) show ?thesis using no_new_sessionD by metis
next
  case (opened ini r' h0 h1 h2 reply s' body m1 m2)
  have m1: "evolves m m1" by (simp add: opened(7))
  have "src_ok src m1" using assms(1) evolves_same(7) [OF m1] by (simp add: src_ok_def)
  then have "no_new_session m (follow_source src r' m1)"
    using no_new_session_trans [OF no_new_session_evolves [OF m1] no_new_session_follow] by blast
  moreover have "evolves (follow_source src r' m1) m2" unfolding opened(8) by blast
  ultimately have "no_new_session m m2"
    using no_new_session_trans no_new_session_evolves by blast
  from no_new_session_opened [OF this assms(2) assms(3) [unfolded opened(9)]]
  have "p_session (peer_ref m r) = Some s \<or> r = r' \<and> s = s'" .
  moreover have "proven_by N (m_keys m) (peer_ref m r') s'"
    unfolding proven_by_def using opened(3-6) unfolding equalKeys_iff by blast
  ultimately show ?thesis by blast
qed

lemma session_handleHandshakeResponse:
  assumes "src_ok src m" "r < length (m_heap m)"
    "p_session (peer_ref (handleHandshakeResponse N env payload src m) r) = Some s"
  shows "p_session (peer_ref m r) = Some s \<or> proven_by N (m_keys m) (peer_ref m r) s"
proof -
  have ans: "no_new_session m (answer_via_relay src r' m)" for r'
    by (rule no_new_session_evolves [OF evolves_answer [OF assms(1)]])
  have upd: "p_session (peer_ref (upd_peer r' (\<lambda>p. p\<lparr>p_handshake := h\<rparr>) m) r) = p_session (peer_ref m r)"
    for r' h using assms(2) by (cases "r' = r") auto
  have opened: "p_session (peer_ref m r) = Some s \<or> proven_by N (m_keys m) (peer_ref m r) s"
    if "p_session (peer_ref (sendKeepalive N env r' (report r' (upd_peer r' (open_link (e_now env) s')
        (answer_via_relay src r' m)))) r) = Some s"
      "p_handshake (peer_ref m r') = Some h" "ReadResponse N h msg = (h', Inr s')" for r' h h' msg s'
    using no_new_session_opened [OF ans assms(2) that(1)] that(2,3) by (auto simp: proven_by_def)
  show ?thesis
    using assms(3)
    by (auto simp: handleHandshakeResponse_def Let_def upd split: sum.splits option.splits
        prod.splits dest: opened)
qed

lemma session_answer_via_relay:
  "r < length (m_heap m) \<Longrightarrow>
     p_session (peer_ref (answer_via_relay src r' m) r) = p_session (peer_ref m r)"
  by (cases "r' = r") (auto simp: answer_via_relay_def answerVia_def Let_def split: option.splits)

lemma session_handleData:
  assumes "r < length (m_heap m)"
  shows "p_session (peer_ref (handleData N env packet ct c src m) r) = p_session (peer_ref m r)"
proof (cases "src_peer src")
  case None
  then show ?thesis by (simp add: handleData_def noteStranger_def)
next
  case (Some r')
  obtain res q where acc: "accept N (e_now env) (take HeaderSize packet) ct c (peer_ref m r') = (res, q)"
    by fastforce
  then have "p_session q = p_session (peer_ref m r')" using accept_session by (metis snd_conv)
  with assms acc show ?thesis
    by (cases "r' = r") (auto simp: handleData_def Some Let_def session_answer_via_relay split: sum.splits)
qed

lemma session_dispatch:
  assumes "src_ok src m" "r < length (m_heap m)"
    "p_session (peer_ref (dispatch N env h packet payload src m) r) = Some s"
  shows "p_session (peer_ref m r) = Some s \<or> proven_by N (m_keys m) (peer_ref m r) s"
proof -
  have evo: "no_new_session m (handleKeepalive N env payload src m)" "no_new_session m (handleClose src m)"
    by (rule no_new_session_evolves, blast)+
  have "p_session (peer_ref (handleData N env packet payload (hdr_Counter h) src m) r)
      = p_session (peer_ref m r)"
    using assms(2) by (rule session_handleData)
  with assms evo session_handleHandshakeInit [OF assms(1,2)] session_handleHandshakeResponse [OF assms(1,2)]
    no_new_sessionD [OF evo(1) assms(2)] no_new_sessionD [OF evo(2) assms(2)]
  show ?thesis by (auto simp: dispatch_def split: if_splits)
qed

lemma session_upd_same:
  "p_session q = p_session (peer_ref m r) \<Longrightarrow> r' < length (m_heap m) \<Longrightarrow>
     p_session (peer_ref (upd_peer r (\<lambda>_. q) m) r') = p_session (peer_ref m r')"
  by (cases "r' = r") auto

lemma session_deliverForwarded:
  assumes "relay < length (m_heap m)" "r < length (m_heap m)"
    "p_session (peer_ref (deliverForwarded N env carried relay m) r) = Some s"
  shows "p_session (peer_ref m r) = Some s \<or> proven_by N (m_keys m) (peer_ref m r) s"
proof -
  have "src_ok \<lparr>src_addr = no_addrport, src_peer = Some r', src_relay = Some relay\<rparr> m" for r'
    using assms(1) by (simp add: src_ok_def)
  note sent = session_dispatch [OF this assms(2)]
  from assms(3) show ?thesis
    by (auto simp: deliverForwarded_def split: option.splits sum.splits if_splits dest: sent)
qed

lemma proven_by_cong:
  "p_transportKey q = p_transportKey p \<Longrightarrow> p_handshake q = p_handshake p \<Longrightarrow>
     proven_by N k q s = proven_by N k p s"
  by (simp add: proven_by_def)

lemma session_handleForward:
  assumes inv: "mesh_inv m" and r: "r < length (m_heap m)"
    and s: "p_session (peer_ref (handleForward N env packet ct c from m) r) = Some s"
  shows "p_session (peer_ref m r) = Some s \<or> proven_by N (m_keys m) (peer_ref m r) s"
proof (cases "peerAt from m")
  case None
  with s show ?thesis by (simp add: handleForward_def)
next
  case (Some relay)
  note relay = peerAt_ref [OF inv Some]
  let ?p = "peer_ref m relay"
  obtain res q where acc: "accept N (e_now env) (take HeaderSize packet) ct c ?p = (res, q)" by fastforce
  have q: "p_session q = p_session ?p" "p_handshake q = p_handshake ?p" "p_transportKey q = p_transportKey ?p"
    using acc by (auto simp: accept_def split: option.splits sum.splits prod.splits bool.splits)
  let ?m = "upd_peer relay (\<lambda>_. q) m"
  have same: "p_session (peer_ref ?m r) = p_session (peer_ref m r)" by (rule session_upd_same [OF q(1) r])
  have proven: "proven_by N (m_keys m) (peer_ref ?m r) s = proven_by N (m_keys m) (peer_ref m r) s"
    using q relay by (intro proven_by_cong) (cases "r = relay"; simp)+
  have "p_session (peer_ref ?m r) = Some s"
    if "p_session (peer_ref (passOn N env carried relay ?m) r) = Some s" for carried
    by (rule no_new_sessionD [OF no_new_session_evolves _ that]) (use r in auto)
  moreover have "p_session (peer_ref ?m r) = Some s \<or> proven_by N (m_keys m) (peer_ref ?m r) s"
    if "p_session (peer_ref (deliverForwarded N env carried relay ?m) r) = Some s" for carried
    using session_deliverForwarded [of relay ?m r, OF _ _ that] relay r by simp
  ultimately show ?thesis
    using s by (auto simp: handleForward_def Some acc Let_def same proven split: sum.splits if_splits)
qed

lemma session_handle:
  assumes inv: "mesh_inv m" and r: "r < length (m_heap m)"
    and s: "p_session (peer_ref (handle N env packet from m) r) = Some s"
  shows "p_session (peer_ref m r) = Some s \<or> proven_by N (m_keys m) (peer_ref m r) s"
proof -
  have "p_session (peer_ref m r) = Some s"
    if "p_session (peer_ref (handleProbe N env payload from m) r) = Some s" for payload
    by (rule no_new_sessionD [OF no_new_session_evolves r that]) blast
  moreover have "m_heap (handleStun packet m) = m_heap m"
    by (auto simp: handleStun_def Let_def split: option.splits sum.splits)
  moreover have "src_ok \<lparr>src_addr = from, src_peer = peerAt from m, src_relay = None\<rparr> m"
    by (simp add: src_ok_def)
  note sent = session_dispatch [OF this r]
  ultimately show ?thesis
    using s
    by (auto simp: handle_def split: sum.splits if_splits dest: sent session_handleForward [OF inv r])
qed

lemma mesh_step_reaches: "mesh_step N m m' \<Longrightarrow> (mesh_step N)\<^sup>*\<^sup>* m m'"
  by (rule r_into_rtranclp [of "mesh_step N"])

section \<open>Properties of what arrives\<close>



text \<open>
C2: only packets the group sent reach the adapter. When a datagram adds to the queue, it
adds exactly one packet, the decryption of a data message under the session of a link of
the group, with the message's own envelope as additional data and a counter the link has
not seen. Either the datagram is that message and came from the link's own address, or it
is a forward message that decrypts under the session of another link of the group at the
datagram's address, is addressed to this device, and names the first link as its source.
\<close>

theorem inbound_is_authentic:
  assumes "(mesh_step N)\<^sup>*\<^sup>* (New d ip keys rec) m"
    and "m_inbound (handle N env packet from m) \<noteq> m_inbound m"
  shows "\<exists>r data pt. r \<in> set (Peers m) \<and> opens_on N (peer_ref m r) MsgData data pt \<and>
      m_inbound (handle N env packet from m) = m_inbound m @ [pt] \<and>
      (data = packet \<and> p_endpoint (peer_ref m r) = from \<or>
       (\<exists>relay body carried. relay \<in> set (Peers m) \<and> relay \<noteq> r \<and>
          p_endpoint (peer_ref m relay) = from \<and>
          opens_on N (peer_ref m relay) MsgForward packet body \<and>
          DecodeForward body = Inr carried \<and> fw_Packet carried = data \<and>
          fw_Destination carried = m_virtualIP m \<and> fw_Source carried = p_VirtualIP (peer_ref m r)))"
proof -
  have "index_ok m" using mesh.inv_reachable [OF _ assms(1)] by (auto simp: mesh_inv_def)
  note ix = index_okD(1,2) [OF this]
  have members: "set (Peers m) = snd ` set (m_peers m)" by (simp add: Peers_def)
  from inbound_handle [OF assms(2)] obtain r data pt where
    base: "opens_on N (peer_ref m r) MsgData data pt"
      "m_inbound (handle N env packet from m) = m_inbound m @ [pt]"
    and how: "data = packet \<and> peerAt from m = Some r \<or>
       (\<exists>relay body carried. peerAt from m = Some relay \<and> r \<noteq> relay \<and>
          opens_on N (peer_ref m relay) MsgForward packet body \<and>
          DecodeForward body = Inr carried \<and> fw_Packet carried = data \<and>
          fw_Destination carried = m_virtualIP m \<and> lookup (m_byIP m) (fw_Source carried) = Some r)"
    by blast
  from how show ?thesis
  proof
    assume direct: "data = packet \<and> peerAt from m = Some r"
    then have "r \<in> set (Peers m)" "p_endpoint (peer_ref m r) = from"
      using ix(2) [of "from" r] unfolding members peerAt_def by auto
    with direct base show ?thesis
      by (intro exI [of _ r] exI [of _ data] exI [of _ pt] conjI disjI1) simp_all
  next
    assume "\<exists>relay body carried. peerAt from m = Some relay \<and> r \<noteq> relay \<and>
          opens_on N (peer_ref m relay) MsgForward packet body \<and>
          DecodeForward body = Inr carried \<and> fw_Packet carried = data \<and>
          fw_Destination carried = m_virtualIP m \<and> lookup (m_byIP m) (fw_Source carried) = Some r"
    then obtain relay body carried where
      "peerAt from m = Some relay" "r \<noteq> relay" "opens_on N (peer_ref m relay) MsgForward packet body"
      "DecodeForward body = Inr carried" "fw_Packet carried = data"
      "fw_Destination carried = m_virtualIP m" "lookup (m_byIP m) (fw_Source carried) = Some r" by blast
    note via = this
    have "relay \<in> set (Peers m)" "p_endpoint (peer_ref m relay) = from"
      using ix(2) [of "from" relay] via(1) unfolding members peerAt_def by auto
    moreover have "r \<in> set (Peers m)" "fw_Source carried = p_VirtualIP (peer_ref m r)"
      using ix(1) [OF via(7)] unfolding members by auto
    ultimately show ?thesis
      using base via
      by (intro exI [of _ r] exI [of _ data] exI [of _ pt] conjI disjI2 exI [of _ relay]
          exI [of _ body] exI [of _ carried]) simp_all
  qed
qed

text \<open>
C5: a link only ever opens with the device the coordination server named. In every
reachable state, if a datagram leaves a link with a session it did not have before, then
either a handshake init was read whose sender proved the static key recorded for that
link, and the session is the one that answer opened, or the datagram completed the
handshake this device had begun on that very link.
\<close>

theorem sessions_are_proven:
  assumes "(mesh_step N)\<^sup>*\<^sup>* (New d ip keys rec) m" and "r < length (m_heap m)"
    and "p_session (peer_ref (handle N env packet from m) r) = Some s"
    and "p_session (peer_ref m r) \<noteq> Some s"
  shows "(\<exists>seed h0 h1 h2 msg reply. NewResponder N (m_keys m) seed = Inr h0 \<and>
      ReadInit N h0 msg = (h1, None) \<and> PeerStatic N h1 = p_transportKey (peer_ref m r) \<and>
      WriteResponse N h1 = (h2, Inr (reply, s))) \<or>
    (\<exists>h h' msg. p_handshake (peer_ref m r) = Some h \<and> ReadResponse N h msg = (h', Inr s))"
  using session_handle [OF _ assms(2,3)] mesh.inv_reachable [OF _ assms(1)] assms(4)
  unfolding proven_by_def by blast

section \<open>What a sent packet becomes at the other end\<close>

definition sealed_header :: "u8 \<Rightarrow> ('hs, 'cs) peer \<Rightarrow> header" where
  "sealed_header kind p = \<lparr>hdr_Version = TransportVersion, hdr_Type = kind, hdr_Sender = p_sender p,
     hdr_Counter = p_counter p\<rparr>"

lemma sealed_header_sel [simp]:
  "hdr_Version (sealed_header kind p) = TransportVersion" "hdr_Type (sealed_header kind p) = kind"
  "hdr_Counter (sealed_header kind p) = p_counter p"
  by (simp_all add: sealed_header_def)

lemma seal_for_Inr:
  assumes "seal_for N kind r body m = (Inr out, m')"
  obtains s ct where "p_session (peer_ref m r) = Some s"
    "n_encrypt N (s_send s) (p_counter (peer_ref m r)) (header_bytes (sealed_header kind (peer_ref m r))) body
       = Some ct"
    "out = Header_Encode (sealed_header kind (peer_ref m r)) [] ct"
    "m' = upd_peer r (\<lambda>p. p\<lparr>p_counter := p_counter p + 1\<rparr>) m"
proof -
  from assms obtain s where s: "p_session (peer_ref m r) = Some s"
    by (auto simp: seal_for_def nextCounter_def split: option.splits)
  from assms s obtain ct where
    "n_encrypt N (s_send s) (p_counter (peer_ref m r)) (header_bytes (sealed_header kind (peer_ref m r))) body
       = Some ct"
    "out = Header_Encode (sealed_header kind (peer_ref m r)) [] ct"
    "m' = upd_peer r (\<lambda>p. p\<lparr>p_counter := p_counter p + 1\<rparr>) m"
    by (auto simp: seal_for_def nextCounter_def Let_def sealed_header_def Seal_Inr Header_Encode_Nil upd_peer_def
        split: sum.splits)
  with s show ?thesis by (rule that)
qed

text \<open>
  The two ends of one link: what \<open>p\<close> sends with, \<open>q\<close> receives with, and the next counter
  of \<open>p\<close> is new to \<open>q\<close>.
\<close>

definition linked :: "('hs, 'cs) peer \<Rightarrow> ('hs, 'cs) peer \<Rightarrow> bool" where
  "linked p q \<longleftrightarrow>
     (case (p_session p, p_session q) of
        (Some a, Some b) \<Rightarrow> s_recv b = s_send a \<and> fst (Accept (p_replay q) (p_counter p))
      | _ \<Rightarrow> False)"

lemma sealed_opens:
  assumes "aead_correct N" "seal_for N kind r body m = (Inr out, m')" "linked (peer_ref m r) q"
  shows "opens_on N q kind out body"
proof -
  from assms(2) obtain s ct where
    seal: "p_session (peer_ref m r) = Some s"
      "n_encrypt N (s_send s) (p_counter (peer_ref m r)) (header_bytes (sealed_header kind (peer_ref m r))) body
       = Some ct"
      "out = Header_Encode (sealed_header kind (peer_ref m r)) [] ct"
    by (rule seal_for_Inr)
  obtain b where b: "p_session q = Some b" "s_recv b = s_send s" "fst (Accept (p_replay q) (p_counter (peer_ref m r)))"
    using assms(3) seal(1) by (auto simp: linked_def split: option.splits)
  have "Decode out = Inr (sealed_header kind (peer_ref m r), ct)"
    unfolding seal(3) Header_Encode_Nil by (rule Decode_header_bytes) simp
  then show ?thesis
    using seal(2) b assms(1) by (simp add: opens_on_def aead_correct_def)
qed

text \<open>What the receiver does with an authentic packet.\<close>

lemma opens_on_decodes:
  assumes "opens_on N p kind pkt pt"
  obtains h ct where "Decode pkt = Inr (h, ct)" "hdr_Type h = kind" "\<not> Looks pkt"
    "\<forall>now. fst (accept N now (take HeaderSize pkt) ct (hdr_Counter h) p) = Inr pt"
proof -
  from assms obtain h ct where dec: "Decode pkt = Inr (h, ct)"
    by (auto simp: opens_on_def split: sum.splits prod.splits)
  then have "\<not> Looks pkt"
    using header_bytes_first [of h ct] by (simp add: Decode_Inr_iff Looks_def)
  with dec assms show ?thesis using opens_on_accept [OF dec] that by blast
qed

lemma handleData_delivers:
  assumes "src_peer src = Some r" "length (m_inbound m) < inboundCapacity"
    "fst (accept N (e_now env) (take HeaderSize pkt) ct c (peer_ref m r)) = Inr pt"
  shows "m_inbound (handleData N env pkt ct c src m) = m_inbound m @ [pt]"
  using assms by (auto simp: handleData_def Let_def split: prod.splits sum.splits)

lemma dispatch_delivers:
  assumes "opens_on N (peer_ref m r) MsgData pkt pt" "Decode pkt = Inr (h, ct)"
    "src_peer src = Some r" "length (m_inbound m) < inboundCapacity"
  shows "m_inbound (dispatch N env h pkt ct src m) = m_inbound m @ [pt]"
proof -
  have "hdr_Type h = MsgData" "fst (accept N (e_now env) (take HeaderSize pkt) ct (hdr_Counter h) (peer_ref m r)) = Inr pt"
    using assms(1) by (simp_all add: opens_on_accept [OF assms(2), where now = "e_now env"])
  then show ?thesis
    using handleData_delivers [OF assms(3,4)] by (simp add: dispatch_def msg_type_defs)
qed

lemma handle_delivers:
  assumes "opens_on N (peer_ref m r) MsgData pkt pt" "peerAt from m = Some r"
    "length (m_inbound m) < inboundCapacity"
  shows "m_inbound (handle N env pkt from m) = m_inbound m @ [pt]"
proof -
  from assms(1) obtain h ct where dec: "Decode pkt = Inr (h, ct)" "hdr_Type h = MsgData" "\<not> Looks pkt"
    by (rule opens_on_decodes) 
  then show ?thesis
    using dispatch_delivers [OF assms(1) dec(1) _ assms(3)] assms(2)
    by (simp add: handle_def msg_type_defs)
qed

text \<open>A forward message, taken apart.\<close>

lemma handle_forward:
  assumes "opens_on N (peer_ref m relay) MsgForward pkt body" "peerAt from m = Some relay"
    "DecodeForward body = Inr carried"
  obtains q where "p_session q = p_session (peer_ref m relay)" "p_via q = p_via (peer_ref m relay)"
    "handle N env pkt from m =
       (if fw_Destination carried = m_virtualIP m
        then deliverForwarded N env carried relay (upd_peer relay (\<lambda>_. q) m)
        else passOn N env carried relay (upd_peer relay (\<lambda>_. q) m))"
proof -
  from assms(1) obtain h ct where dec: "Decode pkt = Inr (h, ct)" "hdr_Type h = MsgForward" "\<not> Looks pkt"
    "\<forall>now. fst (accept N now (take HeaderSize pkt) ct (hdr_Counter h) (peer_ref m relay)) = Inr body"
    by (rule opens_on_decodes) 
  obtain q where acc: "accept N (e_now env) (take HeaderSize pkt) ct (hdr_Counter h) (peer_ref m relay) = (Inr body, q)"
    using dec(4) by (metis prod.collapse)
  show ?thesis
  proof (rule that)
    show "p_session q = p_session (peer_ref m relay)" "p_via q = p_via (peer_ref m relay)"
      using acc by (auto simp: accept_def split: option.splits sum.splits prod.splits bool.splits)
    show "handle N env pkt from m = (if fw_Destination carried = m_virtualIP m
        then deliverForwarded N env carried relay (upd_peer relay (\<lambda>_. q) m)
        else passOn N env carried relay (upd_peer relay (\<lambda>_. q) m))"
      using dec(1-3) assms(2,3) acc by (simp add: handle_def handleForward_def msg_type_defs Let_def)
  qed
qed

lemma handle_delivers_carried:
  assumes "opens_on N (peer_ref m relay) MsgForward pkt body" "peerAt from m = Some relay"
    "DecodeForward body = Inr carried" "fw_Destination carried = m_virtualIP m"
    "lookup (m_byIP m) (fw_Source carried) = Some r" "r \<noteq> relay"
    "opens_on N (peer_ref m r) MsgData (fw_Packet carried) pt"
    "length (m_inbound m) < inboundCapacity"
  shows "m_inbound (handle N env pkt from m) = m_inbound m @ [pt]"
proof -
  from assms(1-3) obtain q where
    eq: "handle N env pkt from m = deliverForwarded N env carried relay (upd_peer relay (\<lambda>_. q) m)"
    by (rule handle_forward [where env = env]) (use assms(4) in auto)
  from assms(7) obtain h ct where dec: "Decode (fw_Packet carried) = Inr (h, ct)"
    by (rule opens_on_decodes)
  let ?m = "upd_peer relay (\<lambda>_. q) m"
  have "opens_on N (peer_ref ?m r) MsgData (fw_Packet carried) pt" using assms(6,7) by simp
  from dispatch_delivers [OF this dec, of "\<lparr>src_addr = no_addrport, src_peer = Some r, src_relay = Some relay\<rparr>" env]
  show ?thesis
    using assms(5,6,8) by (simp add: eq deliverForwarded_def dec)
qed

lemma write_udp_None:
  "write_udp env to pkt m = (None, m') \<longleftrightarrow> e_write env to pkt \<and> m' = m\<lparr>m_out := m_out m @ [(to, pkt)]\<rparr>"
  by (auto simp: write_udp_def)

lemma seal_for_endpoint:
  "seal_for N kind r body m = (Inr out, m') \<Longrightarrow> p_endpoint (peer_ref m' r') = p_endpoint (peer_ref m r')"
  by (erule seal_for_Inr, cases "r < length (m_heap m)"; cases "r' = r")
    (simp_all add: upd_peer_def list_update_beyond)

lemma forward_None:
  assumes "forward N env relay f m = (None, m')"
  obtains body out m1 where "Forward_Encode f [] = Inr body" "seal_for N MsgForward relay body m = (Inr out, m1)"
    "m' = m1\<lparr>m_out := m_out m @ [(p_endpoint (peer_ref m relay), out)]\<rparr>"
proof -
  from assms obtain body where body: "Forward_Encode f [] = Inr body"
    by (cases "Forward_Encode f []") (simp_all add: forward_def)
  with assms obtain out m1 where out: "seal_for N MsgForward relay body m = (Inr out, m1)"
    by (auto simp: forward_def split: prod.splits sum.splits)
  have "m_out m1 = m_out m" using out by (rule seal_for_Inr) simp
  then have "m' = m1\<lparr>m_out := m_out m @ [(p_endpoint (peer_ref m relay), out)]\<rparr>"
    using assms body out seal_for_endpoint [OF out, of relay]
    by (simp add: forward_def write_udp_None Let_def split: if_splits)
  with body out show ?thesis by (rule that)
qed

lemma sendData_direct:
  assumes "sendData N env r packet m = (None, m')" "p_via (peer_ref m r) = None"
  obtains out m1 where "seal_for N MsgData r packet m = (Inr out, m1)"
    "m_out m' = m_out m @ [(p_endpoint (peer_ref m r), out)]"
proof -
  from assms(1) obtain out m1 where out: "seal_for N MsgData r packet m = (Inr out, m1)"
    by (auto simp: sendData_def split: prod.splits sum.splits)
  then have m1: "m1 = upd_peer r (\<lambda>p. p\<lparr>p_counter := p_counter p + 1\<rparr>) m" by (rule seal_for_Inr)
  then have "p_via (peer_ref m1 r) = None"
    using assms(2) by (cases "r < length (m_heap m)") (simp_all add: upd_peer_def list_update_beyond)
  then have "m_out m' = m_out m @ [(p_endpoint (peer_ref m r), out)]"
    using assms(1) out seal_for_endpoint [OF out, of r]
    by (auto simp: sendData_def deliver_def Let_def write_udp_None m1 split: prod.splits option.splits if_splits)
  with out show ?thesis by (rule that)
qed

lemma sendData_relayed:
  assumes "sendData N env r packet m = (None, m')" "p_via (peer_ref m r) = Some v" "v \<noteq> r"
    "r < length (m_heap m)"
  obtains data m1 body out m2 where "seal_for N MsgData r packet m = (Inr data, m1)"
    "peer_ref m1 v = peer_ref m v"
    "Forward_Encode \<lparr>fw_HopLimit = initialHopLimit, fw_Source = m_virtualIP m,
        fw_Destination = p_VirtualIP (peer_ref m r), fw_Packet = data\<rparr> [] = Inr body"
    "seal_for N MsgForward v body m1 = (Inr out, m2)"
    "m_out m' = m_out m @ [(p_endpoint (peer_ref m v), out)]"
proof -
  let ?f = "\<lambda>data. \<lparr>fw_HopLimit = initialHopLimit, fw_Source = m_virtualIP m,
        fw_Destination = p_VirtualIP (peer_ref m r), fw_Packet = data\<rparr>"
  from assms(1) obtain data m1 where data: "seal_for N MsgData r packet m = (Inr data, m1)"
    by (auto simp: sendData_def split: prod.splits sum.splits)
  then have m1: "m1 = upd_peer r (\<lambda>p. p\<lparr>p_counter := p_counter p + 1\<rparr>) m" by (rule seal_for_Inr)
  obtain m3 where m3: "forward N env v (?f data) m1 = (None, m3)" "m_out m' = m_out m3"
    using assms(1,2,4) data
    by (auto simp: sendData_def deliver_def m1 split: prod.splits option.splits)
  from m3(1) obtain body out m2 where fwd: "Forward_Encode (?f data) [] = Inr body"
    "seal_for N MsgForward v body m1 = (Inr out, m2)"
    "m3 = m2\<lparr>m_out := m_out m1 @ [(p_endpoint (peer_ref m1 v), out)]\<rparr>"
    by (rule forward_None)
  have "peer_ref m1 v = peer_ref m v" using assms(3) by (simp add: m1)
  moreover have "m_out m' = m_out m @ [(p_endpoint (peer_ref m v), out)]"
    using m3(2) fwd(3) assms(3) by (simp add: m1)
  ultimately show ?thesis using data fwd(1,2) by (intro that)
qed

text \<open>The relay's share: it takes the packet off one link and seals it for the next.\<close>

definition can_seal :: "('k, 'hs, 'cs) noise \<Rightarrow> ('hs, 'cs) peer \<Rightarrow> bool" where
  "can_seal N p \<longleftrightarrow>
     (case p_session p of None \<Rightarrow> False
      | Some s \<Rightarrow> \<forall>ad pt. n_encrypt N (s_send s) (p_counter p) ad pt \<noteq> None)"

lemma seal_for_succeeds:
  assumes "can_seal N (peer_ref m r)"
  obtains out m' where "seal_for N kind r body m = (Inr out, m')"
proof -
  from assms obtain s where s: "p_session (peer_ref m r) = Some s"
    "\<And>ad pt. n_encrypt N (s_send s) (p_counter (peer_ref m r)) ad pt \<noteq> None"
    by (auto simp: can_seal_def split: option.splits)
  have "Seal N s d ad pt (p_counter (peer_ref m r)) \<noteq> Inl e" for d ad pt e
    using s(2) [of ad pt] by (auto simp: Seal_def split: option.splits)
  then have "\<exists>out m'. seal_for N kind r body m = (Inr out, m')"
    by (auto simp: seal_for_def nextCounter_def s(1) Let_def split: sum.splits)
  then show ?thesis using that by blast
qed

lemma passOn_forwards:
  assumes "fw_HopLimit f \<noteq> 0" "lookup (m_byIP m) (fw_Destination f) = Some t" "t \<noteq> from"
    "p_state (peer_ref m t) = PeerDirect" "addrport_valid (p_endpoint (peer_ref m t))"
    "can_seal N (peer_ref m t)" "is4 (fw_Source f)" "is4 (fw_Destination f)" "\<forall>pkt. e_write env (p_endpoint (peer_ref m t)) pkt"
  obtains body out m1 where
    "Forward_Encode (f\<lparr>fw_HopLimit := fw_HopLimit f - 1\<rparr>) [] = Inr body"
    "seal_for N MsgForward t body m = (Inr out, m1)"
    "m_out (passOn N env f from m) = m_out m @ [(p_endpoint (peer_ref m t), out)]"
proof -
  let ?f = "f\<lparr>fw_HopLimit := fw_HopLimit f - 1\<rparr>"
  obtain body where body: "Forward_Encode ?f [] = Inr body"
    using assms(7,8) by (simp add: Forward_Encode_def)
  obtain out m1 where out: "seal_for N MsgForward t body m = (Inr out, m1)"
    using assms(6) by (rule seal_for_succeeds)
  have "m_out m1 = m_out m" using out by (rule seal_for_Inr) simp
  then have "m_out (passOn N env f from m) = m_out m @ [(p_endpoint (peer_ref m t), out)]"
    using assms body out seal_for_endpoint [OF out, of t]
    by (simp add: passOn_def forward_def write_udp_def)
  with body out show ?thesis by (rule that)
qed

section \<open>Properties of what is sent\<close>

text \<open>
What one device sends on a direct link arrives at the other. When a packet is sent
without error on a link nobody carries, exactly one datagram is written, to the link's
address, and the device at the other end of that link, receiving it from the address it
knows the sender by, hands exactly that packet to its adapter.
\<close>

theorem direct_data_arrives:
  assumes "aead_correct N" and "sendData N env r packet a = (None, a')" and "p_via (peer_ref a r) = None"
    and "linked (peer_ref a r) (peer_ref b q)" and "peerAt from b = Some q" and "length (m_inbound b) < 256"
  shows "\<exists>pkt. m_out a' = m_out a @ [(p_endpoint (peer_ref a r), pkt)] \<and>
    m_inbound (handle N env' pkt from b) = m_inbound b @ [packet]"
proof -
  from assms(2,3) obtain out a1 where out: "seal_for N MsgData r packet a = (Inr out, a1)"
    "m_out a' = m_out a @ [(p_endpoint (peer_ref a r), out)]" by (rule sendData_direct)
  from sealed_opens [OF assms(1) out(1) assms(4)] have "opens_on N (peer_ref b q) MsgData out packet" .
  from handle_delivers [OF this assms(5)] assms(6) out(2) show ?thesis
    by (auto simp: inboundCapacity_def)
qed


section \<open>Datagram sizes\<close>

lemma seal_for_length:
  assumes "aead_tag16 N" "seal_for N kind r body m = (Inr out, m')"
  shows "length out = length body + Overhead"
  using assms(2) by (rule seal_for_Inr)
    (use assms(1) in \<open>auto simp: aead_tag16_def Header_Encode_def size_defs\<close>)

lemma Forward_Encode_length:
  "Forward_Encode f [] = Inr body \<Longrightarrow> length body = length (fw_Packet f) + ForwardHeaderSize"
  by (auto simp: Forward_Encode_def size_defs split: if_splits)

lemma seal_for_out: "m_out (snd (seal_for N kind r body m)) = m_out m"
  by (auto simp: seal_for_def Let_def split: prod.splits sum.splits)

lemma write_udp_out:
  "m_out (snd (write_udp env to pkt m)) = m_out m \<or>
   m_out (snd (write_udp env to pkt m)) = m_out m @ [(to, pkt)]"
  by (auto simp: write_udp_def)

lemma forward_out:
  assumes "aead_tag16 N"
  shows "m_out (snd (forward N env relay f m)) = m_out m \<or>
   (\<exists>to pkt. m_out (snd (forward N env relay f m)) = m_out m @ [(to, pkt)] \<and>
      length pkt = length (fw_Packet f) + ForwardOverhead)"
proof (cases "Forward_Encode f []")
  case (Inr body)
  obtain res m1 where s: "seal_for N MsgForward relay body m = (res, m1)" by fastforce
  have m1: "m_out m1 = m_out m" using seal_for_out [of N MsgForward relay body m] s by simp
  show ?thesis
  proof (cases res)
    case out: (Inr out)
    have "length out = length (fw_Packet f) + ForwardOverhead"
      using seal_for_length [OF assms s [unfolded out]] Forward_Encode_length [OF Inr]
      by (simp add: size_defs)
    with m1 show ?thesis
      using write_udp_out [of env "p_endpoint (peer_ref m1 relay)" out m1]
      by (auto simp: forward_def Inr s out Let_def)
  qed (simp add: forward_def Inr s m1)
qed (simp add: forward_def)

lemma deliver_out:
  assumes "aead_tag16 N"
  shows "m_out (snd (deliver N env r packet m)) = m_out m \<or>
   (\<exists>to pkt. m_out (snd (deliver N env r packet m)) = m_out m @ [(to, pkt)] \<and>
      length pkt \<le> length packet + ForwardOverhead)"
proof (cases "p_via (peer_ref m r)")
  case None
  then show ?thesis
    using write_udp_out [of env "p_endpoint (peer_ref m r)" packet m]
    by (auto simp: deliver_def Let_def)
next
  case (Some v)
  then show ?thesis
    using forward_out [OF assms, of env v "\<lparr>fw_HopLimit = initialHopLimit, fw_Source = m_virtualIP m,
            fw_Destination = p_VirtualIP (peer_ref m r), fw_Packet = packet\<rparr>" m]
    by (auto simp: deliver_def)
qed

text \<open>
No datagram exceeds the size the program promises the network. A packet that fits the
adapter (at most 1400 bytes) is sent in at most one datagram, of at most 1481 bytes, whether
the link is direct or carried and whether or not the send succeeds; and a relay sends a
packet on in a datagram 45 bytes longer than the packet inside, whatever the hop.
\<close>

theorem datagram_size:
  assumes "aead_tag16 N" and "length packet \<le> TunnelMTU"
  shows "(m_out (snd (sendData N env r packet m)) = m_out m \<or>
      (\<exists>to pkt. m_out (snd (sendData N env r packet m)) = m_out m @ [(to, pkt)] \<and> length pkt \<le> 1481)) \<and>
    (m_out (passOn N env' f from m') = m_out m' \<or>
      (\<exists>to pkt. m_out (passOn N env' f from m') = m_out m' @ [(to, pkt)] \<and>
         length pkt = length (fw_Packet f) + 45))"
proof
  obtain res m1 where s: "seal_for N MsgData r packet m = (res, m1)" by fastforce
  have m1: "m_out m1 = m_out m" using seal_for_out [of N MsgData r packet m] s by simp
  show "m_out (snd (sendData N env r packet m)) = m_out m \<or>
      (\<exists>to pkt. m_out (snd (sendData N env r packet m)) = m_out m @ [(to, pkt)] \<and> length pkt \<le> 1481)"
  proof (cases res)
    case (Inr out)
    have len: "length out + ForwardOverhead \<le> 1481"
      using seal_for_length [OF assms(1) s [unfolded Inr]] assms(2) by (simp add: size_defs)
    obtain e m2 where d: "deliver N env r out m1 = (e, m2)" by fastforce
    have "m_out (snd (sendData N env r packet m)) = m_out m2"
      by (cases e) (simp_all add: sendData_def s Inr d)
    with m1 d len show ?thesis
      using deliver_out [OF assms(1), of env r out m1] by fastforce
  qed (simp add: sendData_def s m1)
next
  let ?f = "f\<lparr>fw_HopLimit := fw_HopLimit f - 1\<rparr>"
  have "m_out (snd (forward N env' t ?f m')) = m_out m' \<or>
      (\<exists>to pkt. m_out (snd (forward N env' t ?f m')) = m_out m' @ [(to, pkt)] \<and>
         length pkt = length (fw_Packet f) + 45)" for t
    using forward_out [OF assms(1), of env' t ?f m'] by (simp add: size_defs)
  then show "m_out (passOn N env' f from m') = m_out m' \<or>
      (\<exists>to pkt. m_out (passOn N env' f from m') = m_out m' @ [(to, pkt)] \<and>
         length pkt = length (fw_Packet f) + 45)"
    by (auto simp: passOn_def split: option.splits prod.splits) (metis snd_conv)+
qed

section \<open>Examples\<close>

text \<open>A group of two, before and after its handshake, and meshes with links already open.\<close>

definition toy_env :: env where
  "toy_env = \<lparr>e_now = 0, e_rand = (\<lambda>n. Some 7), e_write = (\<lambda>a b. True)\<rparr>"

definition toy_key :: bytes where "toy_key = replicate 32 1"

definition toy_mesh :: "(bytes, bytes, byte) mesh" where
  "toy_mesh = snd (AddPeer toy_env [2] [] (Addr4 9) toy_key (Addr4 5, 6)
     (New [1] (Addr4 8) [] new_recorder))"

definition toy_payload :: bytes where "toy_payload = [1, 2] @ put16 32 @ toy_key"

definition toy_init :: bytes where
  "toy_init = envelope MsgHandshakeInit 0 0 toy_payload"

definition toy_open :: "(bytes, bytes, byte) mesh" where
  "toy_open = handle toy_noise toy_env toy_init (Addr4 5, 6) toy_mesh"

definition toy_link :: "byte \<Rightarrow> u32 \<Rightarrow> byte \<Rightarrow> byte \<Rightarrow> (bytes, byte) peer" where
  "toy_link d ip snd_key rcv_key =
     open_link 0 \<lparr>s_send = snd_key, s_recv = rcv_key, s_peerStatic = []\<rparr>
       (newPeer [d] [] (Addr4 ip) toy_key (Addr4 ip, 6) 7)"

definition toy_group :: "byte \<Rightarrow> u32 \<Rightarrow> (bytes, byte) peer list \<Rightarrow> (bytes, bytes, byte) mesh" where
  "toy_group d ip ls = reindex ((New [d] (Addr4 ip) [] new_recorder)
     \<lparr>m_heap := ls, m_peers := map (\<lambda>i. (p_DeviceID (ls ! i), i)) [0..<length ls]\<rparr>)"

lemma length_toy_key [simp]: "length toy_key = 32" by (simp add: toy_key_def)

lemma toy_mesh_parts:
  "m_byUDP toy_mesh = [((Addr4 5, 6), 0)]" "m_peers toy_mesh = [([2], 0)]"
  "m_inbound toy_mesh = []" "length (m_heap toy_mesh) = 1" "m_keys toy_mesh = []"
  "p_session (peer_ref toy_mesh 0) = None" "p_transportKey (peer_ref toy_mesh 0) = toy_key"
  "p_endpoint (peer_ref toy_mesh 0) = (Addr4 5, 6)" "p_via (peer_ref toy_mesh 0) = None"
  by (simp_all add: toy_mesh_def toy_env_def AddPeer_def KeySize_def New_def randomSender_def reindex_def
      index_udp_def punch_def report_def newPeer_def randomToken_def Let_def sendTo_def
      write_udp_def status_def upd_peer_def expect_def)

lemma toy_mesh_reachable:
  "(mesh_step toy_noise)\<^sup>*\<^sup>* (New [1] (Addr4 8) [] new_recorder) toy_mesh"
  unfolding toy_mesh_def by (rule mesh_step_reaches) (rule step_AddPeer)

lemma toy_open_reachable:
  "(mesh_step toy_noise)\<^sup>*\<^sup>* (New [1] (Addr4 8) [] new_recorder) toy_open"
  unfolding toy_open_def by (rule rtranclp.rtrancl_into_rtrancl [OF toy_mesh_reachable step_handle])

lemma Decode_envelope:
  "Decode (envelope k s c b) =
     Inr (\<lparr>hdr_Version = TransportVersion, hdr_Type = k, hdr_Sender = s, hdr_Counter = c\<rparr>, b)"
  unfolding envelope_def Header_Encode_Nil by (rule Decode_header_bytes) simp

lemma Looks_envelope: "\<not> Looks (envelope k s c b)"
  using header_bytes_first by (simp add: Looks_def envelope_def Header_Encode_def)

lemma toy_init_payload:
  "DecodeHandshakeInit toy_payload = Inr \<lparr>hi_DeviceID = [2], hi_KeyExchange = toy_key\<rparr>"
  using DecodeHandshakeInit_append [of "\<lparr>hi_DeviceID = [2], hi_KeyExchange = toy_key\<rparr>"
      "[1, 2] @ put16 32 @ toy_key" "[]"]
  by (simp add: toy_payload_def init_fits_def HandshakeInit_Encode_def)

lemma toy_open_eq:
  "toy_open = handleHandshakeInit toy_noise toy_env toy_payload
     \<lparr>src_addr = (Addr4 5, 6), src_peer = Some 0, src_relay = None\<rparr> toy_mesh"
  by (simp add: toy_open_def toy_init_def handle_def Decode_envelope Looks_envelope msg_type_defs
      dispatch_def peerAt_def toy_mesh_parts del: be_put.simps)

lemma toy_open_parts:
  "p_session (peer_ref toy_open 0) = Some \<lparr>s_send = 2, s_recv = 1, s_peerStatic = toy_key\<rparr>"
  "p_replay (peer_ref toy_open 0) = empty_window" "m_inbound toy_open = []"
  "m_byUDP toy_open = [((Addr4 5, 6), 0)]"
  unfolding toy_open_eq
  by (simp_all add: handleHandshakeInit_def toy_init_payload toy_mesh_parts NewResponder_def ReadInit_def PeerStatic_def
     equalKeys_iff WriteResponse_def toy_noise_def Let_def HandshakeResponse_Encode_def forgetStranger_def
     sendKeepalive_def randomToken_def randomSender_def send_def deliver_def
      write_udp_def upd_peer_def expect_def report_def status_def open_link_def toy_env_def
     del: be_put.simps)

theorem inbound_is_authentic_witness:
  "let pkt = envelope MsgData 0 3 (replicate 16 1 @ [42])
   in \<exists>r data pt. r \<in> set (Peers toy_open) \<and> opens_on toy_noise (peer_ref toy_open r) MsgData data pt \<and>
        m_inbound (handle toy_noise toy_env pkt (Addr4 5, 6) toy_open) = [pt]"
proof -
  let ?pkt = "envelope MsgData 0 3 (replicate 16 1 @ [42])"
  have "opens_on toy_noise (peer_ref toy_open 0) MsgData ?pkt [42]"
    by (simp add: opens_on_def Decode_envelope toy_open_parts)
      (simp add: toy_noise_def Accept_def empty_window_def)
  then have "m_inbound (handle toy_noise toy_env ?pkt (Addr4 5, 6) toy_open) \<noteq> m_inbound toy_open"
    using handle_delivers [of toy_noise toy_open 0 ?pkt "[42]" "(Addr4 5, 6)" toy_env]
    by (simp add: peerAt_def toy_open_parts inboundCapacity_def)
  from inbound_is_authentic [OF toy_open_reachable this] show ?thesis
    by (auto simp: toy_open_parts Let_def)
qed

theorem sessions_are_proven_witness:
  "p_session (peer_ref toy_open 0) \<noteq> None \<and>
   ((\<exists>seed h0 h1 h2 msg reply s. NewResponder toy_noise [] seed = Inr h0 \<and>
      ReadInit toy_noise h0 msg = (h1, None) \<and> PeerStatic toy_noise h1 = toy_key \<and>
      WriteResponse toy_noise h1 = (h2, Inr (reply, s))) \<or>
    (\<exists>h h' msg s. p_handshake (peer_ref toy_mesh 0) = Some h \<and> ReadResponse toy_noise h msg = (h', Inr s)))"
  using sessions_are_proven [OF toy_mesh_reachable, of 0 toy_env toy_init "(Addr4 5, 6)"
      "\<lparr>s_send = 2, s_recv = 1, s_peerStatic = toy_key\<rparr>"]
  unfolding toy_open_def [symmetric] toy_mesh_parts toy_open_parts by fastforce

lemma toy_sends:
  "\<exists>a'. sendData toy_noise toy_env 0 pkt (toy_group d ip [toy_link e ip' k l]) = (None, a')"
  by (auto simp: sendData_def seal_for_def nextCounter_def toy_group_def toy_link_def open_link_def
      newPeer_def reindex_def New_def Let_def Seal_def toy_noise_def deliver_def write_udp_def toy_env_def
      upd_peer_def split: prod.splits)

theorem direct_data_arrives_witness:
  "let a = toy_group 1 8 [toy_link 2 9 1 2]; b = toy_group 2 9 [toy_link 1 8 2 1]
   in \<exists>pkt. m_out (snd (sendData toy_noise toy_env 0 [42] a)) = [((Addr4 9, 6), pkt)] \<and>
        m_inbound (handle toy_noise toy_env pkt (Addr4 8, 6) b) = [[42]]"
proof -
  let ?a = "toy_group 1 8 [toy_link 2 9 1 2]" and ?b = "toy_group 2 9 [toy_link 1 8 2 1]"
  obtain a' where "sendData toy_noise toy_env 0 [42] ?a = (None, a')" using toy_sends by blast
  moreover have "p_via (peer_ref ?a 0) = None" "linked (peer_ref ?a 0) (peer_ref ?b 0)"
    "peerAt (Addr4 8, 6) ?b = Some 0" "m_inbound ?b = []" "m_out ?a = []"
    "p_endpoint (peer_ref ?a 0) = (Addr4 9, 6)"
    by (simp_all add: linked_def toy_group_def toy_link_def open_link_def newPeer_def reindex_def New_def
        peerAt_def index_udp_def Accept_def empty_window_def)
  ultimately show ?thesis
    using direct_data_arrives [OF toy_noise_ok(1), of toy_env 0 "[42]" ?a a' ?b 0 "(Addr4 8, 6)" toy_env]
    by (auto simp: Let_def)
qed

theorem datagram_size_witness:
  "\<exists>to pkt. m_out (snd (sendData toy_noise toy_env 0 (replicate 1400 0) (toy_group 1 8 [toy_link 2 9 1 2])))
     = [(to, pkt)] \<and> length pkt \<le> 1481"
proof -
  let ?a = "toy_group 1 8 [toy_link 2 9 1 2]"
  obtain a' where sent: "sendData toy_noise toy_env 0 (replicate 1400 0) ?a = (None, a')"
    using toy_sends by blast
  moreover have "p_via (peer_ref ?a 0) = None" "m_out ?a = []"
    by (simp_all add: toy_group_def toy_link_def open_link_def newPeer_def reindex_def New_def)
  ultimately have "m_out a' \<noteq> []" by (metis sendData_direct append_is_Nil_conv not_Cons_self2)
  with datagram_size [OF toy_noise_ok(2), of "replicate 1400 0" toy_env 0 ?a] sent \<open>m_out ?a = []\<close>
  show ?thesis by (auto simp: size_defs)
qed


end
