(* ===== verification/Mesh_Links.thy ===== *)
theory Mesh_Links
  imports Mesh_Props
begin

text \<open>
  When a link is given up, who carries it next, and what an unauthenticated datagram can do
  to it.
\<close>

section \<open>Sending leaves the course of a link alone\<close>

definition link_quiet :: "('hs, 'cs) peer \<Rightarrow> ('hs, 'cs) peer \<Rightarrow> bool" where
  "link_quiet p q \<longleftrightarrow>
     p_DeviceID q = p_DeviceID p \<and> p_endpoint q = p_endpoint p \<and> p_via q = p_via p \<and>
     p_relaysTried q = p_relaysTried p \<and> p_state q = p_state p \<and> p_session q = p_session p \<and>
     p_replay q = p_replay p"

definition quiet :: "('k, 'hs, 'cs) mesh \<Rightarrow> ('k, 'hs, 'cs) mesh \<Rightarrow> bool" where
  "quiet m m' \<longleftrightarrow>
     m_device m' = m_device m \<and> m_peers m' = m_peers m \<and> length (m_heap m') = length (m_heap m) \<and>
     (\<forall>r. link_quiet (peer_ref m r) (peer_ref m' r) \<and>
          p_handshakes (peer_ref m' r) = p_handshakes (peer_ref m r) \<and>
          p_lastHandshake (peer_ref m' r) = p_lastHandshake (peer_ref m r))"

lemma quiet_refl [simp, intro]: "quiet m m"
  by (simp add: quiet_def link_quiet_def)

lemma quiet_trans: "quiet m m' \<Longrightarrow> quiet m' m'' \<Longrightarrow> quiet m m''"
  by (simp add: quiet_def link_quiet_def)

lemma quiet_fields [simp, intro]:
  "quiet m0 m \<Longrightarrow> quiet m0 (m\<lparr>m_packets := a\<rparr>)" "quiet m0 m \<Longrightarrow> quiet m0 (m\<lparr>m_out := b\<rparr>)"
  "quiet m0 m \<Longrightarrow> quiet m0 (m\<lparr>m_events := c\<rparr>)" "quiet m0 m \<Longrightarrow> quiet m0 (m\<lparr>m_draws := d\<rparr>)"
  by (simp_all add: quiet_def)

lemma nth_upd_peer:
  "peer_ref (upd_peer r f m) r' = (if r' = r \<and> r < length (m_heap m) then f (peer_ref m r) else peer_ref m r')"
  by (cases "r < length (m_heap m)") (auto simp: upd_peer_def list_update_beyond)

lemma quiet_upd [intro]:
  "quiet m0 m \<Longrightarrow> quiet m0 (upd_peer r (\<lambda>p. p\<lparr>p_counter := c p\<rparr>) m)"
  "quiet m0 m \<Longrightarrow> quiet m0 (upd_peer r (\<lambda>p. p\<lparr>p_lastProbe := l\<rparr>) m)"
  "quiet m0 m \<Longrightarrow> quiet m0 (upd_peer r (\<lambda>p. p\<lparr>p_handshake := h\<rparr>) m)"
  "quiet m0 m \<Longrightarrow> quiet m0 (upd_peer r (expect now t) m)"
  by (simp_all add: quiet_def link_quiet_def nth_upd_peer expect_def Let_def)

lemma quiet_write [intro]: "quiet m0 m \<Longrightarrow> quiet m0 (snd (write_udp env to pkt m))"
  by (auto simp: write_udp_def)

lemma quiet_report [intro]: "quiet m0 m \<Longrightarrow> quiet m0 (report r m)"
  by (auto simp: report_def split: prod.splits)

lemma quiet_randomToken [intro]: "quiet m0 m \<Longrightarrow> quiet m0 (snd (randomToken env m))"
  by (auto simp: randomToken_def randomSender_def split: prod.splits option.splits)

lemma quiet_seal_for [intro]:
  assumes "quiet m0 m"
  shows "quiet m0 (snd (seal_for N kind r body m))"
proof -
  have "quiet m0 (upd_peer r (\<lambda>_. q) m)" if "nextCounter (peer_ref m r) = (Inr x, q)" for x q
    using assms that by (auto simp: nextCounter_def quiet_def link_quiet_def nth_upd_peer split: option.splits)
  with assms show ?thesis
    by (auto simp: seal_for_def Let_def split: prod.splits sum.splits)
qed

lemma quiet_forward [intro]:
  assumes "quiet m0 m"
  shows "quiet m0 (snd (forward N env relay f m))"
proof (cases "Forward_Encode f []")
  case (Inr body)
  obtain res m1 where s: "seal_for N MsgForward relay body m = (res, m1)" by fastforce
  have "quiet m0 m1" using quiet_seal_for [OF assms, of N MsgForward relay body] s by simp
  with Inr s show ?thesis by (auto simp: forward_def Let_def split: sum.splits)
qed (simp add: forward_def assms)

lemma quiet_send [intro]: "quiet m0 m \<Longrightarrow> quiet m0 (send N env r k s c b m)"
  by (auto simp: send_def deliver_def Let_def split: option.splits)

lemma quiet_punch [intro]:
  assumes "quiet m0 m"
  shows "quiet m0 (punch env r m)"
proof -
  obtain t m1 where rt: "randomToken env m = (t, m1)" by fastforce
  have "quiet m0 m1" using quiet_randomToken [OF assms, of env] rt by simp
  then show ?thesis using assms by (auto simp: punch_def rt Let_def sendTo_def)
qed

text \<open>One attempt at a handshake: what it changes, and when it is made.\<close>

definition attempt_due :: "env \<Rightarrow> ref \<Rightarrow> ('k, 'hs, 'cs) mesh \<Rightarrow> bool" where
  "attempt_due env r m \<longleftrightarrow>
     (let p = peer_ref m r in
      \<not> p_DeviceID p < m_device m \<and> p_session p = None \<and>
      (addrport_valid (p_endpoint p) \<or> p_via p \<noteq> None) \<and>
      p_handshakes p < handshakeBudget (p_via p) \<and>
      (p_handshake p = None \<or> (case p_lastHandshake p of None \<Rightarrow> True
         | Some t \<Rightarrow> handshakeRetry \<le> e_now env - t)))"

lemma beginHandshake_skip:
  "\<not> attempt_due env r m \<Longrightarrow> beginHandshake N env r m = m"
  by (auto simp: beginHandshake_def attempt_due_def Let_def split: option.splits)

lemma beginHandshake_attempt:
  assumes "attempt_due env r m"
  shows "quiet (upd_peer r (\<lambda>p. p\<lparr>p_handshakes := Suc (p_handshakes p),
      p_lastHandshake := Some (e_now env)\<rparr>) m) (beginHandshake N env r m)"
proof -
  let ?m1 = "upd_peer r (\<lambda>p. p\<lparr>p_handshakes := Suc (p_handshakes p),
      p_lastHandshake := Some (e_now env)\<rparr>) m"
  have q: "quiet ?m1 (?m1\<lparr>m_draws := d\<rparr>)" for d by simp
  have "quiet ?m1 (upd_peer r (\<lambda>p. p\<lparr>p_handshake := h\<rparr>) (?m1\<lparr>m_draws := d\<rparr>))" for h d
    by (rule quiet_upd(3) [OF q])
  with q show ?thesis
    using assms
    by (auto simp: beginHandshake_def attempt_due_def Let_def split: option.splits sum.splits prod.splits)
qed

lemma link_quiet_beginHandshake:
  "link_quiet (peer_ref m r') (peer_ref (beginHandshake N env r m) r')"
proof (cases "attempt_due env r m")
  case True
  from beginHandshake_attempt [OF this, of N] show ?thesis
    by (auto simp: quiet_def link_quiet_def nth_upd_peer split: if_splits)
qed (simp add: beginHandshake_skip link_quiet_def)

lemma candidates_cong:
  assumes "\<And>c. link_quiet (peer_ref m c) (peer_ref m' c)"
  shows "relay_candidate m' r c = relay_candidate m r c"
  using assms by (simp add: relay_candidate_def triedRelay_def link_quiet_def)

section \<open>A link nobody answers\<close>

definition unanswered :: "('k, 'hs, 'cs) mesh \<Rightarrow> ref \<Rightarrow> nat \<Rightarrow> instant option \<Rightarrow> bool" where
  "unanswered m r k prev \<longleftrightarrow>
     r < length (m_heap m) \<and> p_session (peer_ref m r) = None \<and>
     p_state (peer_ref m r) = PeerConnecting \<and> p_via (peer_ref m r) = None \<and>
     p_handshakes (peer_ref m r) = k \<and> p_lastHandshake (peer_ref m r) = prev"

definition no_relay :: "('k, 'hs, 'cs) mesh \<Rightarrow> ref \<Rightarrow> bool" where
  "no_relay m r \<longleftrightarrow> (\<forall>c\<in>set (Peers m). \<not> relay_candidate m r c)"

lemma pick_relay_no_relay: "no_relay m r \<longleftrightarrow> pick_relay m r = None"
  using pick_relay_Some [of m r] pick_relay_None [of m r]
  by (cases "pick_relay m r") (auto simp: no_relay_def)

lemma unanswered_quiet: "quiet m m' \<Longrightarrow> unanswered m r k l \<Longrightarrow> unanswered m' r k l"
  by (simp add: quiet_def link_quiet_def unanswered_def)

lemma no_relay_quiet: "quiet m m' \<Longrightarrow> no_relay m' r = no_relay m r"
  using candidates_cong [of m m' r] by (auto simp: no_relay_def Peers_def quiet_def)

lemma maintain_unanswered:
  assumes "unanswered m r k l" "k < maxHandshakes"
  shows "maintain_peer N env ka r m = beginHandshake N env r (punch env r m)"
  using assms by (simp add: maintain_peer_def unanswered_def handshakeBudget_def Let_def)

lemma maintain_waits:
  assumes "unanswered m r 0 None" "p_DeviceID (peer_ref m r) < m_device m"
  shows "quiet m (maintain_peer N env ka r m)"
proof -
  have q: "quiet m (punch env r m)" by blast
  then have "\<not> attempt_due env r (punch env r m)"
    using assms(2) by (simp add: attempt_due_def Let_def quiet_def link_quiet_def)
  with q maintain_unanswered [OF assms(1), of N env ka] show ?thesis
    by (simp add: beginHandshake_skip maxHandshakes_def)
qed

lemma maintain_attempts:
  assumes "unanswered m r k l" "k < maxHandshakes" "\<not> p_DeviceID (peer_ref m r) < m_device m"
    "addrport_valid (p_endpoint (peer_ref m r))" "no_relay m r"
    "case l of None \<Rightarrow> True | Some t \<Rightarrow> handshakeRetry \<le> e_now env - t"
  shows "unanswered (maintain_peer N env ka r m) r (Suc k) (Some (e_now env))"
    "link_quiet (peer_ref m r) (peer_ref (maintain_peer N env ka r m) r)"
    "m_device (maintain_peer N env ka r m) = m_device m" "no_relay (maintain_peer N env ka r m) r"
proof -
  let ?m1 = "punch env r m"
  let ?m2 = "upd_peer r (\<lambda>p. p\<lparr>p_handshakes := Suc (p_handshakes p),
      p_lastHandshake := Some (e_now env)\<rparr>) ?m1"
  have q: "quiet m ?m1" by blast
  have "unanswered ?m1 r k l" by (rule unanswered_quiet [OF q assms(1)])
  moreover from q assms have "attempt_due env r ?m1"
    by (auto simp: attempt_due_def Let_def quiet_def link_quiet_def unanswered_def handshakeBudget_def
        split: option.splits)
  note q2 = beginHandshake_attempt [OF this, of N]
  moreover have "unanswered ?m2 r (Suc k) (Some (e_now env))"
    using calculation(1) by (simp add: unanswered_def)
  ultimately show "unanswered (maintain_peer N env ka r m) r (Suc k) (Some (e_now env))"
    unfolding maintain_unanswered [OF assms(1,2)] by (intro unanswered_quiet [OF q2])
  have lq: "link_quiet (peer_ref m c) (peer_ref (maintain_peer N env ka r m) c)" for c
    using q link_quiet_beginHandshake [of ?m1 c N env r]
    unfolding maintain_unanswered [OF assms(1,2)] by (simp add: quiet_def link_quiet_def)
  then show "link_quiet (peer_ref m r) (peer_ref (maintain_peer N env ka r m) r)" .
  have same: "m_device (maintain_peer N env ka r m) = m_device m"
    "m_peers (maintain_peer N env ka r m) = m_peers m"
    using q q2 unfolding maintain_unanswered [OF assms(1,2)] by (simp_all add: quiet_def)
  then show "m_device (maintain_peer N env ka r m) = m_device m" by simp
  show "no_relay (maintain_peer N env ka r m) r"
    using assms(5) same(2) candidates_cong [of m "maintain_peer N env ka r m" r, OF lq]
    by (simp add: no_relay_def Peers_def)
qed

lemma maintain_gives_up:
  assumes "unanswered m r maxHandshakes l" "no_relay m r"
  shows "p_state (peer_ref (maintain_peer N env ka r m) r) = PeerFailed"
    "m_events (maintain_peer N env ka r m) =
       m_events m @ [PeerStateChanged (p_DeviceID (peer_ref m r)) PeerFailed ReasonNoRoute]"
  using assms
  by (auto simp: maintain_peer_def unanswered_def handshakeBudget_def Let_def tryRelay_def
      pick_relay_no_relay fail_link_def report_def status_def)

text \<open>Ticks at which the link may be tried again, one after another.\<close>

fun spaced :: "instant option \<Rightarrow> (env \<times> bool) list \<Rightarrow> bool" where
  "spaced prev [] = True"
| "spaced prev ((env, ka) # ticks) =
     ((case prev of None \<Rightarrow> True | Some t \<Rightarrow> handshakeRetry \<le> e_now env - t) \<and>
      spaced (Some (e_now env)) ticks)"

lemma attempts_run:
  "unanswered m r k l \<Longrightarrow> k + length ticks \<le> maxHandshakes \<Longrightarrow> \<not> p_DeviceID (peer_ref m r) < m_device m \<Longrightarrow>
     addrport_valid (p_endpoint (peer_ref m r)) \<Longrightarrow> no_relay m r \<Longrightarrow> spaced l ticks \<Longrightarrow>
     \<exists>l'. unanswered (fold (\<lambda>(env, ka). maintain_peer N env ka r) ticks m) r (k + length ticks) l' \<and>
       no_relay (fold (\<lambda>(env, ka). maintain_peer N env ka r) ticks m) r \<and>
       p_DeviceID (peer_ref (fold (\<lambda>(env, ka). maintain_peer N env ka r) ticks m) r) = p_DeviceID (peer_ref m r)"
proof (induction ticks arbitrary: m k l)
  case Nil
  then show ?case by auto
next
  case (Cons x ticks)
  obtain env ka where x: "x = (env, ka)" by (cases x)
  let ?m = "maintain_peer N env ka r m"
  have step: "unanswered ?m r (Suc k) (Some (e_now env))" "link_quiet (peer_ref m r) (peer_ref ?m r)"
    "m_device ?m = m_device m" "no_relay ?m r"
    using Cons.prems by (auto intro!: maintain_attempts [where k = k and l = l] simp: x)
  have "\<exists>l'. unanswered (fold (\<lambda>(env, ka). maintain_peer N env ka r) ticks ?m) r (Suc k + length ticks) l' \<and>
       no_relay (fold (\<lambda>(env, ka). maintain_peer N env ka r) ticks ?m) r \<and>
       p_DeviceID (peer_ref (fold (\<lambda>(env, ka). maintain_peer N env ka r) ticks ?m) r) = p_DeviceID (peer_ref ?m r)"
    using Cons.prems step by (intro Cons.IH) (auto simp: x link_quiet_def)
  with step(2) show ?case by (simp add: x link_quiet_def)
qed

section \<open>Properties\<close>



text \<open>
Which peer is asked to carry a link. A relay is found exactly when some other link of
the group is direct and has not been tried for this one; it is the one with the lowest
device id, so both ends try them in the same order; the link then runs through it, and it
is remembered as tried, so no relay is asked twice.
\<close>

theorem relay_choice:
  assumes "r < length (m_heap m)"
  shows "let m' = snd (tryRelay N env r m) in
    case pick_relay m r of
      None \<Rightarrow> m' = m \<and> \<not> fst (tryRelay N env r m) \<and> \<not> (\<exists>c\<in>set (Peers m). relay_candidate m r c)
    | Some b \<Rightarrow> fst (tryRelay N env r m) \<and> b \<in> set (Peers m) \<and> b \<noteq> r \<and>
        p_state (peer_ref m b) = PeerDirect \<and> \<not> triedRelay (p_DeviceID (peer_ref m b)) (peer_ref m r) \<and>
        \<not> (\<exists>c\<in>set (Peers m). relay_candidate m r c \<and> p_DeviceID (peer_ref m c) < p_DeviceID (peer_ref m b)) \<and>
        p_via (peer_ref m' r) = Some b \<and>
        set (p_relaysTried (peer_ref m' r)) = insert (p_DeviceID (peer_ref m b)) (set (p_relaysTried (peer_ref m r)))"
proof (cases "pick_relay m r")
  case None
  then show ?thesis using pick_relay_None [OF None] by (auto simp: tryRelay_def Let_def)
next
  case (Some b)
  let ?m = "report r (upd_peer r (relayThrough b (p_DeviceID (peer_ref m b))) m)"
  note chosen = pick_relay_Some [OF Some]
  have "link_quiet (peer_ref ?m r) (peer_ref (beginHandshake N env r ?m) r)"
    by (rule link_quiet_beginHandshake)
  moreover have "peer_ref ?m r = relayThrough b (p_DeviceID (peer_ref m b)) (peer_ref m r)"
    using assms by (simp add: report_def split_beta)
  ultimately show ?thesis
    using chosen by (auto simp: tryRelay_def Some Let_def link_quiet_def relayThrough_def resetLocked_def
        relay_candidate_def leD)
qed

text \<open>
What a relay passes on. It sends a packet on only when the packet's hop limit is not
used up, and then only to a direct link other than the one it came from that has the
packet's destination address; what it sends is the same packet from the same source to the
same destination, with the hop limit one lower, sealed for that link.
\<close>

theorem relay_passes_on:
  assumes "m_out (passOn N env f from m) \<noteq> m_out m"
  shows "\<exists>t body out m1. 0 < fw_HopLimit f \<and> lookup (m_byIP m) (fw_Destination f) = Some t \<and> t \<noteq> from \<and>
    p_state (peer_ref m t) = PeerDirect \<and>
    Forward_Encode \<lparr>fw_HopLimit = fw_HopLimit f - 1, fw_Source = fw_Source f,
      fw_Destination = fw_Destination f, fw_Packet = fw_Packet f\<rparr> [] = Inr body \<and>
    seal_for N MsgForward t body m = (Inr out, m1) \<and>
    m_out (passOn N env f from m) = m_out m @ [(p_endpoint (peer_ref m t), out)]"
proof -
  let ?f = "f\<lparr>fw_HopLimit := fw_HopLimit f - 1\<rparr>"
  from assms obtain t where t: "fw_HopLimit f \<noteq> 0" "lookup (m_byIP m) (fw_Destination f) = Some t"
    "t \<noteq> from" "p_state (peer_ref m t) = PeerDirect"
    by (auto simp: passOn_def split: if_splits option.splits)
  obtain e m' where fwd: "forward N env t ?f m = (e, m')" by fastforce
  have eq: "m_out (passOn N env f from m) = m_out m'"
    using t fwd by (cases e) (simp_all add: passOn_def)
  have "e = None"
  proof (rule ccontr)
    assume "e \<noteq> None"
    then have "m_out m' = m_out m"
      using fwd seal_for_out [of N MsgForward t _ m]
      by (auto simp: forward_def Let_def write_udp_def split: sum.splits prod.splits if_splits)
        (metis snd_conv)+
    with eq assms show False by simp
  qed
  with fwd obtain body out m1 where "Forward_Encode ?f [] = Inr body"
    "seal_for N MsgForward t body m = (Inr out, m1)"
    "m' = m1\<lparr>m_out := m_out m @ [(p_endpoint (peer_ref m t), out)]\<rparr>"
    by (auto elim: forward_None)
  moreover have "?f = \<lparr>fw_HopLimit = fw_HopLimit f - 1, fw_Source = fw_Source f,
      fw_Destination = fw_Destination f, fw_Packet = fw_Packet f\<rparr>" by (cases f) simp
  ultimately show ?thesis using t eq by (auto simp: word_gt_0)
qed

text \<open>
Closing a link takes no key. Any datagram of type close that comes from a link's
address, whatever its sender, counter and contents, ends the link's session and marks the
link as failed, although every message after the handshake is said to be authenticated.
\<close>

theorem close_is_unauthenticated:
  assumes "peerAt from m = Some r" and "r < length (m_heap m)" and "p_state (peer_ref m r) \<noteq> PeerFailed"
  shows "let m' = handle N env (envelope MsgClose sender counter payload) from m
    in p_session (peer_ref m' r) = None \<and> p_state (peer_ref m' r) = PeerFailed \<and>
       m_events m' = m_events m @ [PeerStateChanged (p_DeviceID (peer_ref m r)) PeerFailed ReasonNoRoute]"
  using assms
  by (simp add: handle_def Looks_envelope Decode_envelope dispatch_def msg_type_defs handleClose_def
      fail_link_def report_def status_def Let_def)

section \<open>Examples\<close>

definition toy_ticks :: "(env \<times> bool) list" where
  "toy_ticks = map (\<lambda>t. (toy_env\<lparr>e_now := t * second\<rparr>, False)) [0, 1, 2, 3, 4, 5, 6, 7, 8, 9, 10]"

definition toy_waiting :: "byte \<Rightarrow> (bytes, bytes, byte) mesh" where
  "toy_waiting d = toy_group d 8 [newPeer [2] [] (Addr4 9) toy_key (Addr4 9, 6) 7]"

lemmas toy_defs = toy_group_def toy_link_def open_link_def newPeer_def reindex_def New_def

lemma toy_waiting_parts:
  "unanswered (toy_waiting d) 0 0 None" "no_relay (toy_waiting d) 0" "m_device (toy_waiting d) = [d]"
  "p_DeviceID (peer_ref (toy_waiting d) 0) = [2]" "p_endpoint (peer_ref (toy_waiting d) 0) = (Addr4 9, 6)"
  by (simp_all add: toy_waiting_def toy_defs unanswered_def no_relay_def Peers_def relay_candidate_def)



theorem relay_choice_witness:
  "let m = toy_group 1 8 [newPeer [2] [] (Addr4 9) toy_key no_addrport 7, toy_link 4 5 1 2, toy_link 3 7 3 4];
       m' = snd (tryRelay toy_noise toy_env 0 m)
   in p_via (peer_ref m' 0) = Some 2 \<and> set (p_relaysTried (peer_ref m' 0)) = {[3]}"
proof -
  let ?m = "toy_group 1 8 [newPeer [2] [] (Addr4 9) toy_key no_addrport 7, toy_link 4 5 1 2, toy_link 3 7 3 4]"
  have "pick_relay ?m 0 = Some 2" "p_DeviceID (peer_ref ?m 2) = [3]" "p_relaysTried (peer_ref ?m 0) = []"
    "length (m_heap ?m) = 3"
    by (simp_all add: toy_defs pick_relay_def relay_candidate_def triedRelay_def Peers_def)
  with relay_choice [of 0 ?m toy_noise toy_env] show ?thesis by (simp add: Let_def)
qed

theorem relay_passes_on_witness:
  "let c = toy_group 3 7 [toy_link 1 8 4 3, toy_link 2 9 5 6];
       f = \<lparr>fw_HopLimit = 1, fw_Source = Addr4 8, fw_Destination = Addr4 9, fw_Packet = replicate 20 0\<rparr>
   in \<exists>out. m_out (passOn toy_noise toy_env f 0 c) = [((Addr4 9, 6), out)]"
proof -
  let ?c = "toy_group 3 7 [toy_link 1 8 4 3, toy_link 2 9 5 6]"
  let ?f = "\<lparr>fw_HopLimit = 1, fw_Source = Addr4 8, fw_Destination = Addr4 9, fw_Packet = replicate 20 0\<rparr>"
  have c: "lookup (m_byIP ?c) (Addr4 9) = Some 1" "m_out ?c = []" "p_state (peer_ref ?c 1) = PeerDirect"
    "p_endpoint (peer_ref ?c 1) = (Addr4 9, 6)" "can_seal toy_noise (peer_ref ?c 1)"
    by (simp_all add: toy_defs index_ip_def can_seal_def toy_noise_def)
  have "m_out (passOn toy_noise toy_env ?f 0 ?c) \<noteq> m_out ?c"
    by (rule passOn_forwards [of ?f ?c 1 0 toy_noise toy_env]) (use c in \<open>simp_all add: toy_env_def\<close>)
  from relay_passes_on [OF this] c show ?thesis by (auto simp: Let_def)
qed

theorem close_is_unauthenticated_witness:
  "let m = toy_group 1 8 [toy_link 2 9 1 2]
   in p_session (peer_ref m 0) \<noteq> None \<and>
      p_session (peer_ref (handle toy_noise toy_env (envelope MsgClose 0 0 []) (Addr4 9, 6) m) 0) = None"
proof -
  let ?m = "toy_group 1 8 [toy_link 2 9 1 2]"
  have "length (m_heap ?m) = 1" "p_state (peer_ref ?m 0) \<noteq> PeerFailed" "peerAt (Addr4 9, 6) ?m = Some 0"
    "p_session (peer_ref ?m 0) \<noteq> None"
    by (simp_all add: toy_defs peerAt_def index_udp_def)
  then show ?thesis
    using close_is_unauthenticated [of "(Addr4 9, 6)" ?m 0 toy_noise toy_env 0 0 "[]"]
    by (simp add: Let_def)
qed
end
