(* ===== verification/Pump.thy ===== *)
theory Pump
  imports Mesh_Links Go_Text
begin

text \<open>
  The pump between the virtual adapter and the mesh: \<^verbatim>\<open>daemon/core/pump.go\<close>. Reading an
  IPv4 header, telling a packet for one machine from one for everyone, readdressing a
  multicast packet to this machine, and one turn of each of the two loops. The adapter
  itself (package \<^verbatim>\<open>daemon/tun\<close>) is a Windows driver; what its \<open>Write\<close> answers is an
  argument.
\<close>

section \<open>Reading a packet\<close>

definition destinationOf :: "bytes \<Rightarrow> addr option" where
  "destinationOf packet =
     (if length packet < 20 \<or> drop_bit 4 (packet ! 0) \<noteq> 4 then None
      else Some (addr_from4 (slice 16 20 packet)))"

definition sourceOf :: "bytes \<Rightarrow> addr" where
  "sourceOf packet = addr_from4 (slice 12 16 packet)"

definition limitedBroadcast :: addr where
  "limitedBroadcast = addr_from4 [255, 255, 255, 255]"

definition forEveryone :: "addr \<Rightarrow> addr \<Rightarrow> bool" where
  "forEveryone destination broadcast \<longleftrightarrow>
     destination = broadcast \<or> destination = limitedBroadcast \<or> is_multicast destination"

definition broadcastOf :: "prefix \<Rightarrow> addr" where
  "broadcastOf subnet =
     (if \<not> is4 (pfx_addr subnet) then NoAddr
      else
        let raw = as4 (masked subnet); host = host_mask (pfx_bits subnet);
            raw = put32 (get32 raw OR host)
        in addr_from4 raw)"

datatype adapter_error = ErrParseAddr | ErrParsePrefix | ErrOutside

definition adapterAddress :: "string \<Rightarrow> string \<Rightarrow> adapter_error + prefix" where
  "adapterAddress virtualIP subnet =
     (case ParseAddr virtualIP of
        None \<Rightarrow> Inl ErrParseAddr
      | Some addr \<Rightarrow>
          (case ParsePrefix subnet of
             None \<Rightarrow> Inl ErrParsePrefix
           | Some prefix \<Rightarrow>
               if \<not> prefix_contains prefix addr then Inl ErrOutside
               else Inr \<lparr>pfx_addr = addr, pfx_bits = pfx_bits prefix\<rparr>))"

section \<open>Readdressing a multicast packet\<close>

definition protocolUDP :: byte where "protocolUDP = 17"
definition udpHeaderSize :: nat where "udpHeaderSize = 8"
definition fragmentBits :: u16 where "fragmentBits = 0x3fff"

text \<open>The loop that folds the carries of a one's complement sum back in.\<close>

function fold_carry :: "u32 \<Rightarrow> u32" where
  "fold_carry s = (if s > 0xffff then fold_carry ((s AND 0xffff) + drop_bit 16 s) else s)"
  by auto

lemma unat_split16:
  "unat ((x :: u32) AND 0xffff) = unat x mod 65536" "unat (drop_bit 16 x) = unat x div 65536"
proof -
  have eq: "x AND 0xffff = take_bit 16 x" by (simp add: take_bit_eq_mask mask_eq_exp_minus_1)
  show "unat (x AND 0xffff) = unat x mod 65536"
    unfolding eq unsigned_take_bit_eq by (simp add: take_bit_eq_mod)
  show "unat (drop_bit 16 x) = unat x div 65536"
    unfolding drop_bit_eq_div by (simp add: unat_div)
qed

lemma unat_carry: "unat (((x :: u32) AND 0xffff) + drop_bit 16 x) = unat x mod 65536 + unat x div 65536"
proof -
  have "unat x < 2 ^ 32" using unsigned_less [of x] by simp
  then have "unat x mod 65536 + unat x div 65536 < 2 ^ 32" by simp
  then show ?thesis
    by (simp add: unat_add_lem [THEN iffD1] unat_split16)
qed

termination fold_carry
proof (relation "measure unat")
  fix x :: u32
  assume "x > 0xffff"
  then have "unat x > 65535" by (simp add: word_less_nat_alt)
  then have "unat x mod 65536 + unat x div 65536 < unat x"
    using div_mult_mod_eq [of "unat x" 65536] by (cases "unat x div 65536") auto
  then show "((x AND 0xffff) + drop_bit 16 x, x) \<in> measure unat" by (simp add: unat_carry)
qed simp

declare fold_carry.simps [simp del]

definition adjustChecksum :: "u16 \<Rightarrow> bytes \<Rightarrow> bytes \<Rightarrow> u16" where
  "adjustChecksum checksum was now =
     (let sum = ucast (NOT checksum) :: u32;
          sum = sum + ucast (NOT (get16 (slice 0 2 was)));
          sum = sum + ucast (get16 (slice 0 2 now));
          sum = sum + ucast (NOT (get16 (slice 2 4 was)));
          sum = sum + ucast (get16 (slice 2 4 now))
      in NOT (ucast (fold_carry sum)))"

text \<open>\<open>copy(packet[i:], bs)\<close> and \<open>PutUint16\<close> into a slice of the packet.\<close>

definition put_at :: "nat \<Rightarrow> bytes \<Rightarrow> bytes \<Rightarrow> bytes" where
  "put_at i bs packet = take i packet @ bs @ drop (i + length bs) packet"

definition localiseMulticast :: "addr \<Rightarrow> bytes \<Rightarrow> bytes" where
  "localiseMulticast local packet =
     (if length packet < 20 \<or> drop_bit 4 (packet ! 0) \<noteq> 4 \<or> \<not> is4 local then packet
      else if \<not> is_multicast (addr_from4 (slice 16 20 packet)) then packet
      else if packet ! 9 \<noteq> protocolUDP \<or> get16 (slice 6 8 packet) AND fragmentBits \<noteq> 0 then packet
      else
        let headerLen = unat (packet ! 0 AND 0x0f) * 4
        in if headerLen < 20 \<or> length packet < headerLen + udpHeaderSize then packet
           else
             let was = slice 16 20 packet; now = as4 local;
                 packet = put_at 16 now packet;
                 packet = put_at 10 (put16 (adjustChecksum (get16 (slice 10 12 packet)) was now)) packet;
                 sum = get16 (slice (headerLen + 6) (headerLen + 8) packet)
             in if sum \<noteq> 0 then
                  let updated = adjustChecksum sum was now;
                      updated = (if updated = 0 then 0xffff else updated)
                  in put_at (headerLen + 6) (put16 updated) packet
                else packet)"

section \<open>The two loops\<close>

record ('k, 'hs, 'cs) pump =
  pu_links :: "('k, 'hs, 'cs) mesh"
  pu_address :: prefix
  pu_lanDiscovery :: bool
  pu_packetsOut :: u64
  pu_packetsIn :: u64
  pu_adapter :: "bytes list"

definition pump_record :: "(recorder \<Rightarrow> recorder) \<Rightarrow> ('k, 'hs, 'cs) pump \<Rightarrow> ('k, 'hs, 'cs) pump" where
  "pump_record f c = c\<lparr>pu_links := (pu_links c)\<lparr>m_packets := f (m_packets (pu_links c))\<rparr>\<rparr>"

definition count_out :: "('k, 'hs, 'cs) pump \<Rightarrow> ('k, 'hs, 'cs) pump" where
  "count_out c = pump_record Sent (c\<lparr>pu_packetsOut := pu_packetsOut c + 1\<rparr>)"

text \<open>One turn of \<open>pumpOut\<close>, on a packet read from the adapter.\<close>

definition pumpOut ::
  "('k, 'hs, 'cs) noise \<Rightarrow> env \<Rightarrow> bytes \<Rightarrow> ('k, 'hs, 'cs) pump \<Rightarrow> ('k, 'hs, 'cs) pump" where
  "pumpOut N env packet c =
     (case destinationOf packet of
        None \<Rightarrow> pump_record (Drop NotIPv4) c
      | Some destination \<Rightarrow>
          if forEveryone destination (broadcastOf (pu_address c)) then
            if \<not> pu_lanDiscovery c then c
            else
              (case Broadcast N env packet (pu_links c) of
                 (reached, links) \<Rightarrow>
                   let c = pump_record (Shouted destination reached (length packet)) (c\<lparr>pu_links := links\<rparr>)
                   in if reached > 0 then count_out c else c)
          else
            (case Send N env destination packet (pu_links c) of
               (Delivered, links) \<Rightarrow> count_out (c\<lparr>pu_links := links\<rparr>)
             | (_, links) \<Rightarrow> c\<lparr>pu_links := links\<rparr>))"

text \<open>
  One turn of \<open>pumpIn\<close>, on a packet taken from the mesh. The loop goes on after a packet
  the adapter takes or has no room for, and ends when the adapter is gone.
\<close>

datatype write_result = WriteOk | WriteDropped | WriteFailed

definition pumpIn ::
  "(bytes \<Rightarrow> write_result) \<Rightarrow> bytes \<Rightarrow> ('k, 'hs, 'cs) pump \<Rightarrow> bool \<times> ('k, 'hs, 'cs) pump" where
  "pumpIn Write packet c =
     (let (packet, c) =
        (case destinationOf packet of
           Some destination \<Rightarrow>
             if forEveryone destination (broadcastOf (pu_address c)) then
               let c = pump_record (Overheard (sourceOf packet) destination (length packet)) c
               in (if pu_lanDiscovery c then localiseMulticast (pfx_addr (pu_address c)) packet
                   else packet, c)
             else (packet, c)
         | None \<Rightarrow> (packet, c))
      in case Write packet of
           WriteOk \<Rightarrow>
             (True, pump_record Received (c\<lparr>pu_packetsIn := pu_packetsIn c + 1,
                                             pu_adapter := pu_adapter c @ [packet]\<rparr>))
         | WriteDropped \<Rightarrow> (True, pump_record (Drop AdapterFull) c)
         | WriteFailed \<Rightarrow> (False, c))"


section \<open>One's complement sums\<close>

text \<open>
  The receiver's check (RFC 1071): the one's complement sum of the words, with the carry
  brought around, is all ones. The value of the words as numbers decides it modulo 65535.
\<close>

definition ones_add :: "u16 \<Rightarrow> u16 \<Rightarrow> u16" where
  "ones_add a b = (let s = a + b in if s < a then s + 1 else s)"

fun ones_sum :: "bytes \<Rightarrow> u16" where
  "ones_sum [] = 0"
| "ones_sum [a] = get16 [a, 0]"
| "ones_sum (a # b # bs) = ones_add (get16 [a, b]) (ones_sum bs)"

fun wsum :: "bytes \<Rightarrow> nat" where
  "wsum [] = 0"
| "wsum [a] = 256 * unat a"
| "wsum (a # b # bs) = 256 * unat a + unat b + wsum bs"

definition norm :: "nat \<Rightarrow> nat" where
  "norm n = (if n = 0 then 0 else (n - 1) mod 65535 + 1)"

lemma wsum_append: "even (length xs) \<Longrightarrow> wsum (xs @ ys) = wsum xs + wsum ys"
  by (induction xs rule: wsum.induct) auto

lemma unat_get16: "unat (get16 [a, b]) = 256 * unat a + unat b"
proof -
  have "unat a < 256" "unat b < 256" using unsigned_less [of a] unsigned_less [of b] by simp_all
  then have lt: "256 * unat a + unat b < 65536" by simp
  have "get16 [a, b] = push_bit 8 (ucast a) OR ucast b"
    by (simp add: be_get_def be_step_def)
  also have "\<dots> = push_bit 8 (ucast a) + ucast b"
    by (rule disjunctive_add [symmetric]) (auto simp: bit_push_bit_iff bit_ucast_iff dest: bit_imp_le_length)
  also have "\<dots> = of_nat (256 * unat a + unat b)"
    by (simp add: push_bit_eq_mult of_nat_unat)
  finally show ?thesis using lt unat_of_nat_u16 [of "256 * unat a + unat b"] by simp
qed


lemma norm_cong: "a mod 65535 = b mod 65535 \<Longrightarrow> (a = 0) = (b = 0) \<Longrightarrow> norm a = norm b"
proof (cases "a = 0")
  case False
  assume eq: "a mod 65535 = b mod 65535" "(a = 0) = (b = 0)"
  with False obtain a' b' where ab: "a = Suc a'" "b = Suc b'" by (metis not0_implies_Suc)
  then have "a' mod 65535 = b' mod 65535"
    using eq by (simp add: mod_Suc split: if_splits)
  with ab show ?thesis by (simp add: norm_def)
qed (simp add: norm_def)

lemma norm_mod: "norm n mod 65535 = n mod 65535"
  by (cases n) (auto simp: norm_def mod_simps mod_Suc_eq)

lemma norm_le: "norm n \<le> 65535"
proof -
  have "(n - 1) mod 65535 < 65535" by simp
  then show ?thesis by (simp only: norm_def split: if_split) linarith
qed

lemma norm_decomp: "\<exists>k. n = norm n + 65535 * k"
proof (cases "n = 0")
  case False
  then have "n = norm n + 65535 * ((n - 1) div 65535)" by (simp add: norm_def)
  then show ?thesis by blast
qed (simp add: norm_def)

lemma norm_eq: "n \<le> 65535 \<Longrightarrow> norm n = n"
  by (cases "n = 65535") (auto simp: norm_def)

lemma norm_max: "norm n = 65535 \<longleftrightarrow> 0 < n \<and> n mod 65535 = 0"
proof
  assume "norm n = 65535"
  then show "0 < n \<and> n mod 65535 = 0" using norm_mod [of n] by (auto simp: norm_def split: if_splits)
next
  assume "0 < n \<and> n mod 65535 = 0"
  then have "norm n = norm 65535" by (intro norm_cong) auto
  then show "norm n = 65535" by (simp add: norm_eq)
qed

lemma unat_ones_add: "unat (ones_add a b) = norm (unat a + unat b)"
proof -
  have lt: "unat a < 65536" "unat b < 65536" using unsigned_less [of a] unsigned_less [of b] by simp_all
  show ?thesis
  proof (cases "unat a + unat b < 65536")
    case True
    then have "unat (a + b) = unat a + unat b" by (simp add: unat_add_lem [THEN iffD1])
    then show ?thesis using True by (simp add: ones_add_def Let_def word_less_nat_alt norm_eq)
  next
    case False
    then have s: "unat (a + b) = unat a + unat b - 65536"
      using lt by (simp add: unat_word_ariths mod_if)
    then have "unat (a + b + 1) = unat a + unat b - 65535"
      using False lt by (simp add: unat_word_ariths)
    moreover have "norm (unat a + unat b) = norm (unat a + unat b - 65535)"
      using False lt by (intro norm_cong) (auto simp: le_mod_geq)
    ultimately show ?thesis
      using False lt s by (simp add: ones_add_def Let_def word_less_nat_alt norm_eq)
  qed
qed

lemma unat_ones_sum: "unat (ones_sum bs) = norm (wsum bs)"
proof (induction bs rule: ones_sum.induct)
  case 1
  then show ?case by (simp add: norm_def)
next
  case (2 a)
  have "unat a < 256" using unsigned_less [of a] by simp
  then show ?case by (simp add: unat_get16 norm_eq)
next
  case (3 a b bs)
  have "norm (256 * unat a + unat b + norm (wsum bs)) = norm (256 * unat a + unat b + wsum bs)"
    by (rule norm_cong) (metis norm_mod mod_add_right_eq, simp add: norm_def)
  with 3 show ?case by (simp add: unat_ones_add unat_get16)
qed

lemma ones_sum_valid: "ones_sum bs = 0xffff \<longleftrightarrow> 0 < wsum bs \<and> wsum bs mod 65535 = 0"
proof -
  have "ones_sum bs = 0xffff \<longleftrightarrow> unat (ones_sum bs) = 65535"
    by (simp add: word_unat_eq_iff)
  then show ?thesis by (simp add: unat_ones_sum norm_max)
qed

lemma fold_carry_norm: "unat (fold_carry s) = norm (unat s)"
proof (induction s rule: fold_carry.induct)
  case (1 s)
  show ?case
  proof (cases "s > 0xffff")
    case True
    have "(unat s mod 65536 + unat s div 65536) mod 65535 = unat s mod 65535"
    proof -
      have "unat s = unat s mod 65536 + 65536 * (unat s div 65536)" by simp
      then have "unat s mod 65535 = (unat s mod 65536 + (unat s div 65536) + 65535 * (unat s div 65536)) mod 65535"
        by simp
      then show ?thesis by (simp only: mod_mult_self2)
    qed
    then have "norm (unat s mod 65536 + unat s div 65536) = norm (unat s)"
      by (rule norm_cong) auto
    with 1 [OF True] True show ?thesis by (subst fold_carry.simps) (simp add: unat_carry)
  next
    case False
    then have "unat s \<le> 65535" by (simp add: word_less_nat_alt)
    with False show ?thesis by (subst fold_carry.simps) (simp add: norm_eq)
  qed
qed

lemma unat_of_nat_u32: "n < 2 ^ 32 \<Longrightarrow> unat (of_nat n :: u32) = n"
  by (simp add: unsigned_of_nat take_bit_nat_eq_self)

text \<open>The correction of RFC 1624: the checksum moves by as much as the address, modulo 65535.\<close>

lemma adjustChecksum_sum:
  assumes "length was = 4" "length now = 4"
  shows "(unat (adjustChecksum c was now) + wsum now) mod 65535 = (unat c + wsum was) mod 65535"
proof -
  obtain w0 w1 w2 w3 where w: "was = [w0, w1, w2, w3]"
    using assms(1) by (auto simp: numeral_eq_Suc length_Suc_conv)
  obtain n0 n1 n2 n3 where n: "now = [n0, n1, n2, n3]"
    using assms(2) by (auto simp: numeral_eq_Suc length_Suc_conv)
  define a b d e where "a = get16 [w0, w1]" and "b = get16 [n0, n1]" and "d = get16 [w2, w3]"
    and "e = get16 [n2, n3]"
  let ?s = "ucast (NOT c) + ucast (NOT a) + ucast b + ucast (NOT d) + ucast e :: u32"
  have lt: "unat x \<le> 65535" for x :: u16
  proof -
    have "unat x < 65536" using unsigned_less [of x] by simp
    then show ?thesis by simp
  qed
  have not16: "unat (NOT x) = 65535 - unat x" for x :: u16
  proof -
    have "NOT x = 0xffff - x" by (simp add: not_eq_complement)
    moreover have "x \<le> 0xffff" using lt [of x] by (simp add: word_le_nat_alt)
    ultimately show ?thesis by (simp add: unat_sub)
  qed
  have s: "unat ?s = (65535 - unat c) + (65535 - unat a) + unat b + (65535 - unat d) + unat e"
    (is "_ = ?n")
  proof -
    have "?s = of_nat ?n" by (simp only: of_nat_add of_nat_unat flip: not16)
    moreover have "?n < 2 ^ 32" using lt [of b] lt [of e] by simp
    ultimately show ?thesis by (simp only: unat_of_nat_u32)
  qed
  have "adjustChecksum c was now = NOT (ucast (fold_carry ?s))"
    by (simp add: adjustChecksum_def w n a_def b_def d_def e_def slice_def numeral_eq_Suc)
  note adjusted = this
  have r: "unat (adjustChecksum c was now) = 65535 - norm (unat ?s)"
  proof -
    have "(ucast (fold_carry ?s) :: u16) = of_nat (norm (unat ?s))"
      by (metis fold_carry_norm of_nat_unat)
    then show ?thesis
      unfolding adjusted not16 using unat_of_nat_u16 [OF norm_le] by simp
  qed
  have sums: "wsum was = unat a + unat d" "wsum now = unat b + unat e"
    by (simp_all add: w n a_def b_def d_def e_def unat_get16)
  obtain k where "unat ?s = norm (unat ?s) + 65535 * k" using norm_decomp by blast
  then have "unat (adjustChecksum c was now) + wsum now + 65535 * 2 = unat c + wsum was + 65535 * k"
    unfolding r sums using s lt [of c] lt [of a] lt [of d] norm_le [of "unat ?s"] by linarith
  then show ?thesis by (metis mod_mult_self2)
qed

section \<open>A localised packet, part by part\<close>

definition header_len :: "bytes \<Rightarrow> nat" where
  "header_len packet = unat (packet ! 0 AND 0x0f) * 4"

text \<open>The packets that are rewritten: whole UDP datagrams over IPv4 to a multicast group.\<close>

definition localisable :: "addr \<Rightarrow> bytes \<Rightarrow> bool" where
  "localisable local p \<longleftrightarrow>
     is4 local \<and> 20 \<le> header_len p \<and> header_len p + 8 \<le> length p \<and> drop_bit 4 (p ! 0) = 4 \<and>
     is_multicast (addr_from4 (slice 16 20 p)) \<and> p ! 9 = protocolUDP \<and>
     get16 (slice 6 8 p) AND fragmentBits = 0"

lemma localise_skip: "\<not> localisable local p \<Longrightarrow> localiseMulticast local p = p"
  by (auto simp: localiseMulticast_def localisable_def header_len_def udpHeaderSize_def Let_def)

definition udp_adjusted :: "u16 \<Rightarrow> bytes \<Rightarrow> bytes \<Rightarrow> u16" where
  "udp_adjusted cs was now =
     (if cs = 0 then 0 else if adjustChecksum cs was now = 0 then 0xffff else adjustChecksum cs was now)"

lemma put_at_append: "length xs = i \<Longrightarrow> length ys = length bs \<Longrightarrow> put_at i bs (xs @ ys @ zs) = xs @ bs @ zs"
  by (simp add: put_at_def)

lemma localise_parts:
  assumes "localisable local p"
  obtains a cs b dst opt u uc rest where
    "p = a @ cs @ b @ dst @ opt @ u @ uc @ rest" "length a = 10" "length cs = 2" "length b = 4"
    "length dst = 4" "length opt = header_len p - 20" "length u = 6" "length uc = 2"
    "dst = slice 16 20 p"
    "localiseMulticast local p =
       a @ put16 (adjustChecksum (get16 cs) dst (as4 local)) @ b @ as4 local @ opt @ u @
       put16 (udp_adjusted (get16 uc) dst (as4 local)) @ rest"
proof -
  let ?h = "header_len p"
  have h: "20 \<le> ?h" "?h + 8 \<le> length p" "is4 local" using assms by (auto simp: localisable_def)
  define a cs b dst opt u uc rest where "a = take 10 p" and "cs = slice 10 12 p" and "b = slice 12 16 p"
    and "dst = slice 16 20 p" and "opt = slice 20 ?h p" and "u = slice ?h (?h + 6) p"
    and "uc = slice (?h + 6) (?h + 8) p" and "rest = drop (?h + 8) p"
  have len: "length a = 10" "length cs = 2" "length b = 4" "length dst = 4" "length opt = ?h - 20"
    "length u = 6" "length uc = 2" "length (as4 local) = 4"
    using h by (simp_all add: a_def cs_def b_def dst_def opt_def u_def uc_def)
  have cut: "drop i p = slice i j p @ drop j p" if "i \<le> j" for i j
    using that by (simp add: slice_def) (metis append_take_drop_id drop_drop le_add_diff_inverse2)
  have "p = take 10 p @ drop 10 p" by simp
  also have "drop 10 p = cs @ b @ dst @ opt @ u @ uc @ rest"
    unfolding cs_def b_def dst_def opt_def u_def uc_def rest_def
    using cut [of 10 12] cut [of 12 16] cut [of 16 20] cut [of 20 ?h] cut [of ?h "?h + 6"]
      cut [of "?h + 6" "?h + 8"] h by simp
  finally have p: "p = a @ cs @ b @ dst @ opt @ u @ uc @ rest" by (simp only: a_def)
  let ?c = "put16 (adjustChecksum (get16 cs) dst (as4 local))"
  have 1: "put_at 16 (as4 local) p = a @ cs @ b @ as4 local @ opt @ u @ uc @ rest"
    using put_at_append [of "a @ cs @ b" 16 dst "as4 local" "opt @ u @ uc @ rest"] len by (simp add: p)
  have 2: "put_at 10 ?c (a @ cs @ b @ as4 local @ opt @ u @ uc @ rest) = a @ ?c @ b @ as4 local @ opt @ u @ uc @ rest"
    using put_at_append [of a 10 cs ?c "b @ as4 local @ opt @ u @ uc @ rest"] len by (simp del: be_put.simps)
  have 3: "put_at (?h + 6) w (a @ ?c @ b @ as4 local @ opt @ u @ uc @ rest) = a @ ?c @ b @ as4 local @ opt @ u @ w @ rest"
    if "length w = 2" for w
    using put_at_append [of "a @ ?c @ b @ as4 local @ opt @ u" "?h + 6" uc w rest] len that h
    by (simp del: be_put.simps)
  have "slice 10 12 (a @ cs @ b @ as4 local @ opt @ u @ uc @ rest) = cs"
    "slice (?h + 6) (?h + 8) (a @ ?c @ b @ as4 local @ opt @ u @ uc @ rest) = uc"
    using len h by (simp_all add: slice_def del: be_put.simps)
  note parts = this
  have "localiseMulticast local p =
       a @ ?c @ b @ as4 local @ opt @ u @ put16 (udp_adjusted (get16 uc) dst (as4 local)) @ rest"
  proof -
    have conds: "\<not> length p < 20" "drop_bit 4 (p ! 0) = 4" "is_multicast (addr_from4 dst)"
      "p ! 9 = protocolUDP" "get16 (slice 6 8 p) AND fragmentBits = 0"
      "\<not> (?h < 20 \<or> length p < ?h + udpHeaderSize)"
      using assms h by (auto simp: localisable_def udpHeaderSize_def dst_def)
    have w0: "put16 0 = uc" if "get16 uc = 0" using that len(7) put_get(1) [of uc] by metis
    show ?thesis
      unfolding localiseMulticast_def
      by (simp add: conds h(3) Let_def 1 2 3 parts udp_adjusted_def w0 flip: header_len_def dst_def
          del: be_put.simps)
  qed
  with p len show ?thesis using dst_def by (intro that) 
qed

section \<open>Properties\<close>

text \<open>
  What a receiver checks: the header checksum over the whole header, and the UDP checksum
  over the pseudo header and the datagram, where a zero field means it was never computed.
\<close>

definition header_ok :: "bytes \<Rightarrow> bool" where
  "header_ok p \<longleftrightarrow> ones_sum (take (header_len p) p) = 0xffff"

definition udp_len :: "bytes \<Rightarrow> nat" where
  "udp_len p = unat (get16 (slice (header_len p + 4) (header_len p + 6) p))"

definition udp_ok :: "bytes \<Rightarrow> bool" where
  "udp_ok p \<longleftrightarrow>
     get16 (slice (header_len p + 6) (header_len p + 8) p) = 0 \<or>
     ones_sum (slice 12 20 p @ [0, protocolUDP] @ slice (header_len p + 4) (header_len p + 6) p @
               take (udp_len p) (drop (header_len p) p)) = 0xffff"

lemma wsum_put16: "wsum (put16 w) = unat w"
proof -
  have "unat (get16 (put16 w)) = wsum (put16 w)"
    unfolding put16_unfold unat_get16 by simp
  then show ?thesis by simp
qed

lemma wsum_get16: "length cs = 2 \<Longrightarrow> unat (get16 cs) = wsum cs"
  by (auto simp: numeral_eq_Suc length_Suc_conv unat_get16)

lemma udp_adjusted_sum:
  assumes "length was = 4" "length now = 4" "cs \<noteq> 0"
  shows "(unat (udp_adjusted cs was now) + wsum now) mod 65535 = (unat cs + wsum was) mod 65535"
    "udp_adjusted cs was now \<noteq> 0"
proof -
  show "(unat (udp_adjusted cs was now) + wsum now) mod 65535 = (unat cs + wsum was) mod 65535"
    using adjustChecksum_sum [OF assms(1,2), of cs] assms(3) by (auto simp: udp_adjusted_def)
  show "udp_adjusted cs was now \<noteq> 0" using assms(3) by (simp add: udp_adjusted_def)
qed

text \<open>The bytes each check covers, before and after.\<close>

lemma udp_covered:
  assumes "p = x @ c @ b @ dst @ opt @ u @ uc @ rest" "length x = 10" "length c = 2" "length b = 4"
    "length dst = 4" "length opt = header_len p - 20" "length u = 6" "length uc = 2" "20 \<le> header_len p"
  shows "take (header_len p) p = x @ c @ b @ dst @ opt"
    "slice 12 20 p = b @ dst" "slice (header_len p + 4) (header_len p + 6) p = drop 4 u"
    "slice (header_len p + 6) (header_len p + 8) p = uc" "p ! 0 = x ! 0"
    "8 \<le> n \<Longrightarrow> take n (drop (header_len p) p) = u @ uc @ take (n - 8) rest"
proof -
  define h where "h = header_len p"
  note len = assms(2-9) [folded h_def]
  have "take h p = x @ c @ b @ dst @ opt" "slice 12 20 p = b @ dst" "slice (h + 4) (h + 6) p = drop 4 u"
    "slice (h + 6) (h + 8) p = uc" "p ! 0 = x ! 0"
    unfolding assms(1) using len by (simp_all add: slice_def nth_append)
  moreover have "take n (drop h p) = u @ uc @ take (n - 8) rest" if "8 \<le> n" for n
    unfolding assms(1) using len that by (simp add: take_append)
  ultimately show "take (header_len p) p = x @ c @ b @ dst @ opt"
    "slice 12 20 p = b @ dst" "slice (header_len p + 4) (header_len p + 6) p = drop 4 u"
    "slice (header_len p + 6) (header_len p + 8) p = uc" "p ! 0 = x ! 0"
    "8 \<le> n \<Longrightarrow> take n (drop (header_len p) p) = u @ uc @ take (n - 8) rest"
    by (simp_all add: h_def)
qed

lemma unat_protocolUDP [simp]: "unat protocolUDP = 17"
  by (simp add: protocolUDP_def)

lemma even_header: "even (header_len p)"
  by (simp add: header_len_def)

lemma mod_swap:
  "(x + z) mod (n :: nat) = (x' + z') mod n \<Longrightarrow> (x + z + r) mod n = (x' + z' + r) mod n"
  by (metis mod_add_cong)

text \<open>A sum stays valid when its parts are replaced by others of the same value.\<close>

lemma swapped_valid: "(x' + z' + r) mod (n :: nat) = 0 \<Longrightarrow> (x + z) mod n = (x' + z') mod n \<Longrightarrow> (x + z + r) mod n = 0"
  using mod_swap by metis

lemma wsum_pos: "bs \<noteq> [] \<Longrightarrow> bs ! 0 \<noteq> 0 \<Longrightarrow> 0 < wsum bs"
proof -
  have "0 < unat x" if "x \<noteq> 0" for x :: byte using that by (simp add: word_unat_eq_iff)
  then show "bs \<noteq> [] \<Longrightarrow> bs ! 0 \<noteq> 0 \<Longrightarrow> 0 < wsum bs"
    by (cases bs rule: wsum.cases) simp_all
qed

text \<open>
C39: readdressing a multicast packet keeps its checksums right. If the header checksum of
the packet that arrived is valid then so is the one of the packet handed to the machine,
and likewise for the UDP checksum, computed or absent; so the machine at this end accepts
what the one at the other end would have accepted.
\<close>

theorem localise_keeps_checksums:
  assumes "8 \<le> udp_len p"
  shows "(header_ok p \<longrightarrow> header_ok (localiseMulticast local p)) \<and>
    (udp_ok p \<longrightarrow> udp_ok (localiseMulticast local p))"
proof (cases "localisable local p")
  case True
  then obtain a cs b dst opt u uc rest where
    p: "p = a @ cs @ b @ dst @ opt @ u @ uc @ rest" and len: "length a = 10" "length cs = 2" "length b = 4"
    "length dst = 4" "length opt = header_len p - 20" "length u = 6" "length uc = 2"
    and q: "localiseMulticast local p =
       a @ put16 (adjustChecksum (get16 cs) dst (as4 local)) @ b @ as4 local @ opt @ u @
       put16 (udp_adjusted (get16 uc) dst (as4 local)) @ rest"
    by (rule localise_parts)
  let ?q = "localiseMulticast local p"
  let ?c = "adjustChecksum (get16 cs) dst (as4 local)" and ?w = "udp_adjusted (get16 uc) dst (as4 local)"
  have h: "20 \<le> header_len p" and now: "length (as4 local) = 4" and v4: "drop_bit 4 (p ! 0) = 4"
    using True by (auto simp: localisable_def)
  note P = udp_covered [OF p len h]
  have "?q ! 0 = a ! 0" unfolding q using len by (simp add: nth_append)
  then have hq: "header_len ?q = header_len p" using P(5) by (simp add: header_len_def)
  have "length (put16 ?c) = 2" "length (put16 ?w) = 2" by (simp_all only: length_be_put)
  note Q = udp_covered [OF q len(1) this(1) len(3) now len(5) [folded hq] len(6) this(2) h [folded hq],
      unfolded hq]
  have opt: "even (length opt)" using len(5) even_header [of p] h by simp
  have a0: "0 < wsum a" using v4 len(1) P(5) by (intro wsum_pos) auto
  have "header_ok ?q" if "header_ok p"
  proof -
    have "(wsum cs + wsum dst + (wsum a + wsum b + wsum opt)) mod 65535 = 0"
      using that len opt by (simp add: header_ok_def P ones_sum_valid wsum_append ac_simps)
    from swapped_valid [OF this, of "unat ?c" "wsum (as4 local)"] show ?thesis
      using len opt now a0 adjustChecksum_sum [OF len(4) now, of "get16 cs"]
      by (simp add: header_ok_def hq Q ones_sum_valid wsum_append wsum_put16 wsum_get16 ac_simps del: be_put.simps)
  qed
  moreover have "udp_ok ?q" if "udp_ok p"
  proof (cases "get16 uc = 0")
    case True
    then show ?thesis by (simp add: udp_ok_def hq Q udp_adjusted_def del: be_put.simps)
  next
    case False
    let ?r = "wsum b + 17 + wsum (drop 4 u) + wsum u + wsum (take (udp_len p - 8) rest)"
    have lenq: "udp_len ?q = udp_len p" by (simp add: udp_len_def hq P Q del: be_put.simps)
    have "(wsum uc + wsum dst + ?r) mod 65535 = 0"
      using that False len assms by (simp add: udp_ok_def P ones_sum_valid wsum_append ac_simps)
    from swapped_valid [OF this, of "unat ?w" "wsum (as4 local)"] show ?thesis
      using len now assms udp_adjusted_sum(1) [OF len(4) now False]
      by (simp add: udp_ok_def hq lenq Q ones_sum_valid wsum_append wsum_put16 wsum_get16 ac_simps del: be_put.simps)
  qed
  ultimately show ?thesis by blast
qed (simp add: localise_skip)

text \<open>
A packet for a multicast group reaches the machine. When discovery is on and the
adapter takes it, a whole UDP datagram to a group is handed over addressed to this machine,
from the sender's own address, on the same ports and with the same contents and length,
and it is counted as received.
\<close>

theorem multicast_reaches_machine:
  assumes "pu_lanDiscovery c" and "localisable (pfx_addr (pu_address c)) p" and "\<forall>q. Write q = WriteOk"
  shows "\<exists>q. fst (pumpIn Write p c) \<and> pu_adapter (snd (pumpIn Write p c)) = pu_adapter c @ [q] \<and>
    destinationOf q = Some (pfx_addr (pu_address c)) \<and> sourceOf q = sourceOf p \<and> length q = length p \<and>
    slice (header_len p) (header_len p + 6) q = slice (header_len p) (header_len p + 6) p \<and>
    drop (header_len p + 8) q = drop (header_len p + 8) p \<and>
    pu_packetsIn (snd (pumpIn Write p c)) = pu_packetsIn c + 1"
proof -
  let ?local = "pfx_addr (pu_address c)"
  from assms(2) obtain a cs b dst opt u uc rest where
    p: "p = a @ cs @ b @ dst @ opt @ u @ uc @ rest" and len: "length a = 10" "length cs = 2" "length b = 4"
    "length dst = 4" "length opt = header_len p - 20" "length u = 6" "length uc = 2" "dst = slice 16 20 p"
    and q: "localiseMulticast ?local p =
       a @ put16 (adjustChecksum (get16 cs) dst (as4 ?local)) @ b @ as4 ?local @ opt @ u @
       put16 (udp_adjusted (get16 uc) dst (as4 ?local)) @ rest"
    by (rule localise_parts)
  define h where "h = header_len p"
  define q' where "q' = localiseMulticast ?local p"
  have h: "20 \<le> h" "is4 ?local" "drop_bit 4 (p ! 0) = 4" "h + 8 \<le> length p" "is_multicast (addr_from4 dst)"
    using assms(2) len(8) by (auto simp: localisable_def h_def)
  have lens: "length a = 10" "length cs = 2" "length b = 4" "length dst = 4" "length opt = h - 20"
    "length u = 6" "length uc = 2" using len by (simp_all add: h_def)
  have P: "length p = h + 8 + length rest" "drop (h + 8) p = rest" "slice h (h + 6) p = u"
    "slice 12 16 p = b" "p ! 0 = a ! 0"
    unfolding p using lens h(1) by (simp_all add: slice_def nth_append)
  have Q: "length q' = h + 8 + length rest" "drop (h + 8) q' = rest" "slice h (h + 6) q' = u"
    "slice 12 16 q' = b" "q' ! 0 = a ! 0" "slice 16 20 q' = as4 ?local"
    unfolding q'_def q using lens h(1,2) by (simp_all add: slice_def nth_append del: be_put.simps)
  have "destinationOf p = Some (addr_from4 dst)" "destinationOf q' = Some ?local"
    using h P Q len(8) by (simp_all add: destinationOf_def)
  then have "pumpIn Write p c = (True, pump_record Received
      ((pump_record (Overheard (sourceOf p) (addr_from4 dst) (length p)) c)
        \<lparr>pu_packetsIn := pu_packetsIn c + 1, pu_adapter := pu_adapter c @ [q']\<rparr>))"
    using assms(1,3) h(5) by (simp add: pumpIn_def forEveryone_def Let_def q'_def pump_record_def)
  then show ?thesis
    using P Q \<open>destinationOf q' = Some ?local\<close>
    by (auto simp: sourceOf_def pump_record_def h_def)
qed

section \<open>Counting what is sent\<close>

lemma deliver_written:
  "deliver N env r pkt m = (e, m') \<Longrightarrow>
     (case e of None \<Rightarrow> \<exists>x. m_out m' = m_out m @ [x] | Some _ \<Rightarrow> m_out m' = m_out m)"
proof (cases "p_via (peer_ref m r)")
  case None
  assume "deliver N env r pkt m = (e, m')"
  with None show ?thesis by (auto simp: deliver_def Let_def write_udp_def split: if_splits)
next
  case (Some v)
  assume d: "deliver N env r pkt m = (e, m')"
  have out: "m_out m1 = m_out m" if "seal_for N k v body m = (x, m1)" for k body x m1
    using seal_for_out [of N k v body m] that by simp
  from d Some show ?thesis
    by (auto simp: deliver_def forward_def Let_def write_udp_def out split: sum.splits prod.splits if_splits)
qed

lemma sendData_written:
  assumes "sendData N env r pkt m = (e, m')"
  shows "case e of None \<Rightarrow> \<exists>x. m_out m' = m_out m @ [x] | Some _ \<Rightarrow> m_out m' = m_out m"
proof -
  have out: "m_out m1 = m_out m" if "seal_for N k r pkt m = (x, m1)" for k x m1
    using seal_for_out [of N k r pkt m] that by simp
  obtain x m1 where s: "seal_for N MsgData r pkt m = (x, m1)" by fastforce
  show ?thesis
  proof (cases x)
    case (Inl err)
    then show ?thesis using assms out [OF s] by (auto simp: sendData_def s)
  next
    case (Inr pkt')
    obtain e' m2 where d: "deliver N env r pkt' m1 = (e', m2)" by fastforce
    with deliver_written [OF d] out [OF s] Inr assms show ?thesis
      by (cases e') (auto simp: sendData_def s)
  qed
qed

lemma broadcast_written:
  "broadcast_to N env pkt rs m = (n, m') \<Longrightarrow> \<exists>new. m_out m' = m_out m @ new \<and> length new = n"
proof (induction rs arbitrary: m n)
  case (Cons r rs)
  obtain e m1 where s: "sendData N env r pkt m = (e, m1)" by fastforce
  show ?case
  proof (cases e)
    case None
    obtain n1 where n1: "broadcast_to N env pkt rs m1 = (n1, m')" "n = Suc n1"
      using Cons.prems s None by (auto split: prod.splits)
    from Cons.IH [OF this(1)] sendData_written [OF s] None n1(2) show ?thesis by auto
  next
    case (Some err)
    then have "broadcast_to N env pkt rs (drop_packet (reasonFor err) m1) = (n, m')"
      using Cons.prems s by simp
    from Cons.IH [OF this] sendData_written [OF s] Some show ?thesis by auto
  qed
qed simp

text \<open>
The counter of sent packets tells the truth. One turn of the outgoing loop either
writes datagrams to the network and counts the packet once, or writes none and leaves the
counter alone; a packet for one machine is written at most once, and one for everyone as
many times as the log line says it reached a peer.
\<close>

theorem pumpOut_accounts:
  "\<exists>new. m_out (pu_links (pumpOut N env p c)) = m_out (pu_links c) @ new \<and>
     pu_packetsOut (pumpOut N env p c) = pu_packetsOut c + (if new = [] then 0 else 1) \<and>
     (case destinationOf p of
        None \<Rightarrow> new = []
      | Some d \<Rightarrow> if forEveryone d (broadcastOf (pu_address c))
                  then length new = (if pu_lanDiscovery c then fst (Broadcast N env p (pu_links c)) else 0)
                  else length new \<le> 1)"
proof (cases "destinationOf p")
  case None
  then show ?thesis by (simp add: pumpOut_def pump_record_def)
next
  case (Some d)
  show ?thesis
  proof (cases "forEveryone d (broadcastOf (pu_address c))")
    case True
    obtain n links where b: "Broadcast N env p (pu_links c) = (n, links)" by fastforce
    from broadcast_written [OF this [unfolded Broadcast_def]]
    obtain new where "m_out links = m_out (pu_links c) @ new" "length new = n" by blast
    with True Some b show ?thesis
      by (auto simp: pumpOut_def pump_record_def count_out_def Let_def)
  next
    case False
    obtain res links where s: "Send N env d p (pu_links c) = (res, links)" by fastforce
    have "(res = Delivered \<and> (\<exists>x. m_out links = m_out (pu_links c) @ [x])) \<or>
        (res \<noteq> Delivered \<and> m_out links = m_out (pu_links c))"
    proof (cases "lookup (m_byIP (pu_links c)) d")
      case None
      then show ?thesis using s by (auto simp: Send_def)
    next
      case (Some r)
      obtain e m1 where d: "sendData N env r p (pu_links c) = (e, m1)" by fastforce
      show ?thesis
        using s sendData_written [OF d] by (cases e) (auto simp: Send_def Some d)
    qed
    then consider (sent) x where "res = Delivered" "m_out links = m_out (pu_links c) @ [x]"
      | (lost) "res \<noteq> Delivered" "m_out links = m_out (pu_links c)" by blast
    then show ?thesis
    proof cases
      case sent
      then show ?thesis
        using False Some s by (intro exI [of _ "[x]"]) (simp add: pumpOut_def pump_record_def count_out_def)
    next
      case lost
      then show ?thesis
        using False Some s by (intro exI [of _ "[]"]) (cases res; simp add: pumpOut_def)
    qed
  qed
qed

text \<open>
The broadcast address of a subnet is its last address. For an IPv4 prefix of at most
32 bits it lies in the subnet, no address of the subnet is above it, and it differs from
the subnet's own address in host bits only.
\<close>

theorem broadcastOf_last:
  assumes "bits \<le> 32" and "prefix_contains \<lparr>pfx_addr = Addr4 p, pfx_bits = bits\<rparr> (Addr4 w)"
  shows "\<exists>b. broadcastOf \<lparr>pfx_addr = Addr4 p, pfx_bits = bits\<rparr> = Addr4 b \<and> w \<le> b \<and>
    prefix_contains \<lparr>pfx_addr = Addr4 p, pfx_bits = bits\<rparr> (Addr4 b) \<and>
    b AND host_mask bits = host_mask bits"
proof -
  let ?h = "host_mask bits :: u32"
  have "w AND NOT ?h = p AND NOT ?h"
  proof (rule bit_eqI)
    fix n
    have "bit ((w XOR p) AND NOT ?h) n = False" using assms(2) by simp
    then show "bit (w AND NOT ?h) n = bit (p AND NOT ?h) n" by (auto simp: bit_simps)
  qed
  then have "(p AND NOT ?h) OR ?h = (w AND NOT ?h) OR ?h" by simp
  also have "\<dots> = w OR ?h" by (rule bit_eqI) (auto simp: bit_simps)
  finally have b: "(p AND NOT ?h) OR ?h = w OR ?h" .
  have "broadcastOf \<lparr>pfx_addr = Addr4 p, pfx_bits = bits\<rparr> = Addr4 ((p AND NOT ?h) OR ?h)"
    by (simp add: broadcastOf_def Let_def addr_from4_def del: be_put.simps)
  moreover have "w \<le> w OR ?h" by (rule le_word_or2)
  moreover have "((w OR ?h) XOR p) AND NOT ?h = 0"
    unfolding b [symmetric] by (rule bit_eqI) (auto simp: bit_simps)
  moreover have "(w OR ?h) AND ?h = ?h" by (rule bit_eqI) (auto simp: bit_simps)
  ultimately show ?thesis by (simp add: b)
qed

text \<open>Examples: a datagram to 224.0.0.251 with both checksums right, and a /24 network.\<close>

definition toy_datagram :: bytes where
  "toy_datagram = [0x45, 0, 0, 29, 0, 0, 0, 0, 1, 17, 0xce, 0x8e, 10, 69, 0, 2, 224, 0, 0, 251,
     0x14, 0xe9, 0x14, 0xe9, 0, 9, 0xc0, 0xc7, 42]"

lemma toy_datagram_parts:
  "header_len toy_datagram = 20" "udp_len toy_datagram = 9" "header_ok toy_datagram" "udp_ok toy_datagram"
  "localisable (Addr4 x) toy_datagram"
proof -
  show h: "header_len toy_datagram = 20" by (simp add: header_len_def toy_datagram_def)
  show u: "udp_len toy_datagram = 9"
    unfolding udp_len_def h by (simp add: toy_datagram_def slice_def unat_get16)
  show "header_ok toy_datagram"
    unfolding header_ok_def h ones_sum_valid by (simp add: toy_datagram_def)
  show "udp_ok toy_datagram"
    unfolding udp_ok_def h u ones_sum_valid by (simp add: toy_datagram_def slice_def)
  show "localisable (Addr4 x) toy_datagram"
    by (simp add: localisable_def h)
      (simp add: toy_datagram_def slice_def addr_from4_def be_get_def be_step_def protocolUDP_def)
qed

theorem localise_keeps_checksums_witness:
  "header_ok (localiseMulticast (Addr4 0x0a450003) toy_datagram) \<and>
   udp_ok (localiseMulticast (Addr4 0x0a450003) toy_datagram)"
  using localise_keeps_checksums [of toy_datagram "Addr4 0x0a450003"] toy_datagram_parts by simp

definition toy_pump :: "(bytes, bytes, byte) pump" where
  "toy_pump = \<lparr>pu_links = toy_open, pu_address = \<lparr>pfx_addr = Addr4 0x0a450003, pfx_bits = 24\<rparr>,
     pu_lanDiscovery = True, pu_packetsOut = 0, pu_packetsIn = 0, pu_adapter = []\<rparr>"

theorem multicast_reaches_machine_witness:
  "\<exists>q. pu_adapter (snd (pumpIn (\<lambda>_. WriteOk) toy_datagram toy_pump)) = [q] \<and>
     destinationOf q = Some (Addr4 0x0a450003) \<and> sourceOf q = sourceOf toy_datagram"
  using multicast_reaches_machine [of toy_pump toy_datagram "\<lambda>_. WriteOk"] toy_datagram_parts(5)
  by (auto simp: toy_pump_def)

theorem broadcastOf_last_witness:
  "\<exists>b. broadcastOf \<lparr>pfx_addr = Addr4 0x0a450000, pfx_bits = 24\<rparr> = Addr4 b \<and> 0x0a450003 \<le> b"
  using broadcastOf_last [of 24 "0x0a450000" "0x0a450003"] by (auto simp: host_mask_def drop_bit_eq_div)
end
