(* ===== verification/Onboarding.thy ===== *)
theory Onboarding
  imports Api_Props Pump
begin

text \<open>
  From the server's side of an invite to the client's adapter: what creating a group and joining it leave
  behind, and that the addresses the server hands out are addresses the client can use.
\<close>

section \<open>Addresses and rows\<close>

text \<open>The client accepts every address the server hands out.\<close>

lemma adapterAddress_host:
  assumes "host_text subnet ip"
  shows "\<exists>w bits. ip = ipv4_String w \<and> adapterAddress ip subnet = Inr \<lparr>pfx_addr = Addr4 w, pfx_bits = bits\<rparr>"
proof -
  obtain q bits w where net: "ParsePrefix subnet = Some \<lparr>pfx_addr = Addr4 q, pfx_bits = bits\<rparr>"
    and w: "w \<in> hosts q bits" "ip = ipv4_String w"
    using assms by (auto simp: host_text_def)
  have "prefix_contains \<lparr>pfx_addr = Addr4 q, pfx_bits = bits\<rparr> (Addr4 w)"
    using w(1) ParsePrefix_shape [OF net] by (subst prefix_contains_div) (auto simp: hosts_def)
  then show ?thesis by (simp add: adapterAddress_def ParseAddr_def w(2) parse_ipv4_String net del: prefix_contains.simps)
qed

lemma insertMembership_code:
  "insertMembership raw g d now db = Inr (mm, db') \<Longrightarrow> M_InviteCode mm = G_InviteCode g"
  by (auto simp: insertMembership_def Let_def split: option.splits sum.splits)

text \<open>What a new group leaves behind: a row with its code, and one member, who holds an address.\<close>

lemma CreateGroup_Inr:
  assumes inv: "store_inv db" and good: "good_draws draws"
    and new: "CreateGroup draws raw g d now db = (Inr m, db')"
  shows "\<exists>r. store_inv db' \<and> r \<in> set (db_groups db') \<and> grp_id r = G_ID g \<and> grp_subnet r = G_Subnet g \<and>
    grp_invite_code r = M_InviteCode m \<and> M_InviteCode m \<noteq> [] \<and> list_all code_char (M_InviteCode m) \<and>
    M_Role m = RoleOwner \<and> M_GroupID m = G_ID g \<and> M_Subnet m = G_Subnet g \<and> host_text (G_Subnet g) (M_VirtualIP m) \<and>
    (\<exists>row. db_memberships db' = db_memberships db @ [row] \<and> is_place (G_ID g) d row \<and> active row \<and>
       mem_virtual_ip row = Some (M_VirtualIP m)) \<and>
    (\<forall>x\<in>set (db_memberships db). mem_group_id x \<noteq> G_ID g) \<and> db_devices db' = db_devices db"
proof -
  obtain c db1 mm db2 where c: "freeInviteCode draws db = Inr c"
    and ins: "insert_group (g\<lparr>G_InviteCode := c\<rparr>) c d (unix now) db = Inr db1"
    and mem: "insertMembership raw (g\<lparr>G_InviteCode := c\<rparr>) d now db1 = Inr (mm, db2)"
    and m: "m = mm\<lparr>M_Role := RoleOwner\<rparr>"
    and db': "db' = db2\<lparr>db_memberships := update_where (\<lambda>r. mem_id r = M_ID mm) (\<lambda>r. r\<lparr>mem_role := RoleOwner\<rparr>) (db_memberships db2)\<rparr>"
    using new by (auto simp: CreateGroup_def store_write_def Let_def split: sum.splits)
  note code = freeInviteCode_Inr [OF c good] and new_code = insertMembership_code [OF mem]
  obtain row where inv2: "store_inv db2" "db_groups db2 = db_groups db1"
    and row: "mem_group_id row = G_ID g" "mem_device_id row = d" "active row" "mem_virtual_ip row = Some (M_VirtualIP mm)"
      "db_memberships db' = db_memberships db @ [row]"
    using created_rows [OF inv good c ins mem] unfolding db' by auto
  obtain r where r: "r \<in> set (db_groups db1)" "grp_id r = G_ID g" "grp_subnet r = G_Subnet g" "grp_invite_code r = c"
  proof -
    let ?r = "\<lparr>grp_id = G_ID g, grp_name = G_Name g, grp_icon = G_Icon g, grp_color = G_Color g, grp_subnet = G_Subnet g,
      grp_invite_code = c, grp_created_by = d, grp_created_at = unix now\<rparr>"
    have "?r \<in> set (db_groups db1)" using ins by (auto simp: insert_group_def split: if_splits)
    from that [OF this] show thesis by simp
  qed
  have inv': "store_inv db'" using CreateGroup_inv [OF inv good, of raw g d now] new by simp
  have "\<forall>m\<in>set (db_memberships db'). \<forall>r\<in>grp_net ` set (db_groups db'). fits_net m r"
    using store_invD(6) [OF inv'] by (simp add: addresses_ok_def)
  then have "fits_net row (grp_net r)" using r(1) row(5) inv2(2) by (auto simp: db')
  then have host: "host_text (G_Subnet g) (M_VirtualIP mm)" using row r by (simp add: fits_net_def grp_net_def)
  have seat: "db_devices db2 = db_devices db1 \<and> M_GroupID mm = G_ID g \<and> M_Subnet mm = G_Subnet g"
    by (rule insertMembership_Inr [OF mem]) (simp add: seated_def)
  then have devices: "db_devices db' = db_devices db"
    using ins by (auto simp: db' insert_group_def split: if_splits)
  have none: "\<forall>x\<in>set (db_memberships db). mem_group_id x \<noteq> G_ID g"
    using insert_group_inv [OF inv ins] code ins by (auto simp: insert_group_def split: if_splits)
  have "is_place (G_ID g) d row" using row by (simp add: is_place_def)
  then show ?thesis
    using inv' inv2(2) row r code new_code host devices none seat
    by (intro exI [of _ r]) (simp add: m db')
qed

lemma joined_new:
  assumes join: "AddMembership raw g d now db = (Inr mm, db')" and new: "place (G_ID g) d db = None"
  shows "M_VirtualIP mm \<notin> others_hold (G_ID g) d db \<and> host_text (G_Subnet g) (M_VirtualIP mm) \<and> M_Role mm = RoleMember \<and>
    M_GroupID mm = G_ID g \<and> M_Subnet mm = G_Subnet g"
proof (rule insertMembership_Inr [OF AddMembership_Inr(1) [OF join]])
  fix i taken m
  assume "db' = seated i (G_ID g) d (unix now) (M_VirtualIP mm) db" "place (G_ID g) d db' = Some m"
  moreover have "\<forall>r\<in>set (db_memberships db). \<not> is_place (G_ID g) d r" using new by (simp add: place_def find_eq_None)
  moreover have "m \<in> set (db_memberships db') \<and> is_place (G_ID g) d m" if "place (G_ID g) d db' = Some m"
    using that by (auto simp: place_def dest: find_SomeD)
  ultimately have "mem_role m = RoleMember" using new by (auto simp: seated_def)
  moreover assume "M_VirtualIP mm \<notin> others_hold (G_ID g) d db" "M_Role mm = mem_role m" "M_GroupID mm = G_ID g" "M_Subnet mm = G_Subnet g"
    and "if previous_address (G_ID g) d db = [] \<or> previous_address (G_ID g) d db \<in> others_hold (G_ID g) d db
     then freeAddress (G_Subnet g) taken = Inr (M_VirtualIP mm) else M_VirtualIP mm = previous_address (G_ID g) d db"
  moreover have "previous_address (G_ID g) d db = []" using new by (simp add: previous_address_def)
  ultimately show ?thesis using freeAddress_host_text by simp
qed

lemma handleCreateGroup_201:
  assumes "handleCreateGroup req idRaw draws memRaw now owner sv = (r, sv1)" "rp_status r = 201"
  obtains g m db' where "CreateGroup draws memRaw g (dev_id owner) now (sv_db sv) = (Inr m, db')" "G_Subnet g = DefaultSubnet"
    "r = writeJSON 201 (MembershipBody (toMembership m))" "sv1 = sv\<lparr>sv_db := db'\<rparr>"
proof -
  obtain name icon color where req: "req = Some (name, icon, color)"
    using assms by (cases req) (auto simp: handleCreateGroup_def)
  obtain j where j: "NewID ''grp'' idRaw = Some j"
    using assms by (cases "NewID ''grp'' idRaw") (auto simp: handleCreateGroup_def req Let_def split: if_splits)
  let ?g = "\<lparr>G_ID = j, G_Name = TrimSpace name, G_Icon = icon, G_Color = color, G_Subnet = DefaultSubnet, G_InviteCode = []\<rparr>"
  obtain res db' where new: "CreateGroup draws memRaw ?g (dev_id owner) now (sv_db sv) = (res, db')"
    by (cases "CreateGroup draws memRaw ?g (dev_id owner) now (sv_db sv)")
  then have "case res of Inl e \<Rightarrow> rp_status r \<noteq> 201 | Inr m \<Rightarrow> r = writeJSON 201 (MembershipBody (toMembership m)) \<and> sv1 = sv\<lparr>sv_db := db'\<rparr>"
    using assms by (cases res) (auto simp: handleCreateGroup_def req Let_def j split: if_splits)
  then show thesis using assms(2) new that [of ?g] by (cases res) auto
qed

section \<open>An example\<close>

text \<open>Two registered devices, a group by the first and a link for the second.\<close>

definition toy_pair :: server where
  "toy_pair = NewServer (empty_db\<lparr>db_devices := map toy_device [''ann'', ''bob'']\<rparr>)"

lemma toy_pair_inv: "store_inv (sv_db toy_pair)"
  by (simp add: toy_pair_def NewServer_def toy_device_def empty_db_def store_inv_def devices_ok_def tokens_ok_def groups_ok_def
      members_ok_def addresses_ok_def owners_ok_def sessions_ok_def)

lemma toy_pair_create:
  obtains row sv1 m where "handleCreateGroup (Some (''LAN'', [], [])) (Some [1, 2, 3, 4, 5]) toy_draws (Some [1, 2, 3, 4, 5]) 0 (toy_device ''ann'') toy_pair =
    (writeJSON 201 m, sv1)" "db_memberships (sv_db sv1) = [row]" "mem_id row = ''mem_'' @ base32 [1, 2, 3, 4, 5]" "sv_joins sv1 = sv_joins toy_pair"
proof -
  let ?db = "sv_db toy_pair"
  let ?g = "\<lparr>G_ID = ''grp_'' @ base32 [1, 2, 3, 4, 5], G_Name = ''LAN'', G_Icon = [], G_Color = [], G_Subnet = DefaultSubnet,
    G_InviteCode = base32 [1, 2, 3, 4, 5]\<rparr>"
  let ?db1 = "?db\<lparr>db_groups := [\<lparr>grp_id = G_ID ?g, grp_name = ''LAN'', grp_icon = [], grp_color = [], grp_subnet = DefaultSubnet,
    grp_invite_code = base32 [1, 2, 3, 4, 5], grp_created_by = ''ann'', grp_created_at = unix 0\<rparr>]\<rparr>"
  have code: "freeInviteCode toy_draws ?db = Inr (base32 [1, 2, 3, 4, 5])"
    by (simp add: freeInviteCode_def toy_draws_def NewInviteCode_def upt_rec toy_pair_def NewServer_def empty_db_def)
  have ins: "insert_group ?g (base32 [1, 2, 3, 4, 5]) ''ann'' (unix 0) ?db = Inr ?db1"
    by (simp add: insert_group_def group_row_by_id_def device_row_def toy_pair_def NewServer_def empty_db_def toy_device_def)
  have "NewID ''mem'' (Some [1, 2, 3, 4, 5]) = Some (''mem_'' @ base32 [1, 2, 3, 4, 5])" by (simp add: NewID_def)
  then obtain mm db2 where "AddMembership (Some [1, 2, 3, 4, 5]) ?g ''ann'' 0 ?db1 = (Inr mm, db2)"
    using join_new_succeeds [of "Some [1, 2, 3, 4, 5]" "''mem_'' @ base32 [1, 2, 3, 4, 5]" ?db1 ?g "''ann''" "0x0a450000" 24 0] toy_subnet
    by (auto simp: toy_pair_def NewServer_def empty_db_def toy_device_def place_def MemberCount_def DefaultSubnet_def)
  note mem = AddMembership_Inr(1) [OF this]
  have "CreateGroup toy_draws (Some [1, 2, 3, 4, 5]) (?g\<lparr>G_InviteCode := []\<rparr>) ''ann'' 0 ?db =
      (Inr (mm\<lparr>M_Role := RoleOwner\<rparr>), db2\<lparr>db_memberships := update_where (\<lambda>r. mem_id r = M_ID mm) (\<lambda>r. r\<lparr>mem_role := RoleOwner\<rparr>) (db_memberships db2)\<rparr>)"
    using code ins mem by (simp add: CreateGroup_def store_write_def Let_def)
  moreover obtain r where "db_memberships db2 = [r]" "mem_id r = ''mem_'' @ base32 [1, 2, 3, 4, 5]"
    by (rule insertMembership_Inr [OF mem]) (auto simp: seated_def place_def NewID_def toy_pair_def NewServer_def empty_db_def)
  moreover have "TrimSpace ''LAN'' = ''LAN''" by (rule TrimSpace_plain) (simp_all add: plain_def)
  ultimately show thesis
    using that [of "MembershipBody (toMembership (mm\<lparr>M_Role := RoleOwner\<rparr>))"
      "toy_pair\<lparr>sv_db := db2\<lparr>db_memberships := update_where (\<lambda>r. mem_id r = M_ID mm) (\<lambda>r. r\<lparr>mem_role := RoleOwner\<rparr>) (db_memberships db2)\<rparr>\<rparr>"]
    by (simp add: handleCreateGroup_def isAppearanceKey_def maxNameLength_def NewID_def update_where_def toy_device_def split: if_splits)
qed

end
