(* ===== verification/Control.thy ===== *)
theory Control
  imports Api
begin

text \<open>
  The daemon's end of the API: package \<^verbatim>\<open>daemon/control\<close>, the route table and the discovery document of
  \<^verbatim>\<open>server/api/router.go\<close> and the configuration of the server they are made from. A client method is the
  request it sends; what comes back is an argument, an answer with a status and a payload, which
  \<^verbatim>\<open>encoding/json\<close> has read: a body, or text that is no JSON at all.
\<close>

section \<open>Errors\<close>

record control_error =
  ce_Status :: nat
  ce_Code :: string
  ce_Message :: string

datatype go_error = ControlError control_error | OtherError

fun code_text :: "api_code \<Rightarrow> string" where
  "code_text BadRequest = ''bad_request''"
| "code_text Unauthorized = ''unauthorized''"
| "code_text GroupNotFound = ''group_not_found''"
| "code_text InviteInvalid = ''invite_invalid''"
| "code_text MembershipRevoked = ''membership_revoked''"
| "code_text SessionInvalid = ''session_invalid''"
| "code_text GroupFull = ''group_full''"
| "code_text RateLimited = ''rate_limited''"
| "code_text VersionUnsupported = ''version_unsupported''"
| "code_text Forbidden = ''forbidden''"
| "code_text Banned = ''banned''"
| "code_text Internal = ''internal''"

fun has_code :: "string \<Rightarrow> go_error \<Rightarrow> bool" where
  "has_code c (ControlError e) = (ce_Code e = c)"
| "has_code c OtherError = False"

definition IsUnauthorized :: "go_error \<Rightarrow> bool" where
  "IsUnauthorized e = has_code (code_text Unauthorized) e"

definition isSessionGone :: "go_error \<Rightarrow> bool" where
  "isSessionGone e = has_code (code_text SessionInvalid) e"

section \<open>The configuration of the server\<close>

record config =
  cfg_Addr :: string
  cfg_PublicURL :: string
  cfg_STUN :: "string list"
  cfg_DatabaseURL :: string
  cfg_Version :: string

definition DefaultSTUN :: "string list" where
  "DefaultSTUN = [''stun:stun.l.google.com:19302'']"

definition APIURL :: "config \<Rightarrow> string" where
  "APIURL cfg = cfg_PublicURL cfg @ ''/api''"

definition TrimPrefix :: "string \<Rightarrow> string \<Rightarrow> string" where
  "TrimPrefix s p = (if starts_with p s then drop (length p) s else s)"

definition RealtimeURL :: "config \<Rightarrow> string" where
  "RealtimeURL cfg =
     (if starts_with ''https://'' (cfg_PublicURL cfg)
      then ''wss://'' @ drop 8 (cfg_PublicURL cfg) @ ''/realtime''
      else ''ws://'' @ TrimPrefix (cfg_PublicURL cfg) ''http://'' @ ''/realtime'')"

definition isLoopback :: "string \<Rightarrow> bool" where
  "isLoopback host \<longleftrightarrow> host = ''localhost'' \<or> host = ''127.0.0.1'' \<or> host = ''::1''"

text \<open>What \<^verbatim>\<open>url.Parse\<close> says of an address: its scheme, its host and the host without a port.\<close>

record url =
  u_Scheme :: string
  u_Host :: string
  u_Hostname :: string

datatype config_error = URLRequired | URLInvalid | URLNoHost | URLInsecure | URLScheme

definition checkPublicURL :: "(string \<Rightarrow> url option) \<Rightarrow> string \<Rightarrow> config_error option" where
  "checkPublicURL parse raw =
     (case parse raw of
        None \<Rightarrow> Some URLInvalid
      | Some u \<Rightarrow>
          if u_Host u = [] then Some URLNoHost
          else if u_Scheme u = ''https'' \<or> isLoopback (u_Hostname u) then None
          else Some URLInsecure)"

definition listenAddress :: "(string \<Rightarrow> string) \<Rightarrow> string" where
  "listenAddress getenv =
     (if getenv ''NET192168_ADDR'' \<noteq> [] then getenv ''NET192168_ADDR''
      else if getenv ''PORT'' \<noteq> [] then '':'' @ getenv ''PORT''
      else '':8080'')"

definition splitAndTrim :: "string \<Rightarrow> string list" where
  "splitAndTrim raw = filter (\<lambda>p. p \<noteq> []) (map TrimSpace (split_on CHR '','' raw))"

definition Load :: "(string \<Rightarrow> url option) \<Rightarrow> (string \<Rightarrow> string) \<Rightarrow> config_error + config" where
  "Load parse getenv =
     (let c = \<lparr>cfg_Addr = listenAddress getenv,
               cfg_PublicURL = TrimRight (TrimSpace (getenv ''NET192168_PUBLIC_URL'')) ''/'',
               cfg_STUN = (if getenv ''NET192168_STUN'' \<noteq> [] then splitAndTrim (getenv ''NET192168_STUN'') else DefaultSTUN),
               cfg_DatabaseURL = getenv ''NET192168_DATABASE_URL'', cfg_Version = []\<rparr>
      in if cfg_PublicURL c = [] then Inl URLRequired
         else case checkPublicURL parse (cfg_PublicURL c) of Some e \<Rightarrow> Inl e | None \<Rightarrow> Inr c)"

text \<open>The same rule on the daemon's side.\<close>

definition ValidateServerURL :: "(string \<Rightarrow> url option) \<Rightarrow> string \<Rightarrow> config_error option" where
  "ValidateServerURL parse raw =
     (case parse raw of
        None \<Rightarrow> Some URLInvalid
      | Some u \<Rightarrow>
          if u_Host u = [] then Some URLNoHost
          else if u_Scheme u = ''https'' then None
          else if u_Scheme u = ''http'' then (if isLoopback (u_Hostname u) then None else Some URLInsecure)
          else Some URLScheme)"

section \<open>Discovery and routes\<close>

record features =
  ft_Relay :: bool
  ft_PeerRouting :: bool

record discovery =
  disc_Version :: int
  disc_API :: string
  disc_Realtime :: string
  disc_STUN :: "string list"
  disc_Invite :: string
  disc_Relay :: "string option"
  disc_Features :: features

definition DiscoveryVersion :: int where "DiscoveryVersion = 1"
definition WellKnownPath :: string where "WellKnownPath = ''/.well-known/192168''"

definition handleDiscovery :: "config \<Rightarrow> discovery" where
  "handleDiscovery cfg =
     \<lparr>disc_Version = DiscoveryVersion, disc_API = APIURL cfg, disc_Realtime = RealtimeURL cfg,
      disc_STUN = cfg_STUN cfg, disc_Invite = cfg_PublicURL cfg @ Path, disc_Relay = None,
      disc_Features = \<lparr>ft_Relay = False, ft_PeerRouting = False\<rparr>\<rparr>"

datatype http_method = GET | POST | PUT | DELETE

datatype endpoint =
    E_Discovery | E_Health | E_Invite string | E_InvitePage string | E_RegisterDevice
  | E_Me | E_SetNickname | E_ListGroups | E_CreateGroup | E_JoinByCode | E_DeleteGroup string
  | E_ListMembers string | E_RemoveMember string string | E_RenameGroup string | E_SetGroupAppearance string
  | E_ResetInvite string | E_TransferOwnership string string | E_LeaveGroup string | E_CreateSession string
  | E_SetEndpoint string | E_Heartbeat string | E_DeleteSession string | E_Realtime | E_Site

text \<open>
  The patterns of \<^verbatim>\<open>http.ServeMux\<close>, on the segments of a path: a wildcard takes one segment that is not
  empty, and a literal segment beats a wildcard. What no pattern takes is the site's, if it is read.
\<close>

fun api_route :: "http_method \<Rightarrow> string list \<Rightarrow> endpoint option" where
  "api_route GET [p] = (if p = ''health'' then Some E_Health else if p = ''me'' then Some E_Me
     else if p = ''groups'' then Some E_ListGroups else None)"
| "api_route POST [p] = (if p = ''groups'' then Some E_CreateGroup else None)"
| "api_route m [p, q] =
     (if p = ''invites'' \<and> m = GET \<and> q \<noteq> [] then Some (E_Invite q)
      else if p = ''devices'' \<and> m = POST \<and> q = ''register'' then Some E_RegisterDevice
      else if p = ''me'' \<and> m = PUT \<and> q = ''nickname'' then Some E_SetNickname
      else if p = ''groups'' \<and> m = POST \<and> q = ''join-by-code'' then Some E_JoinByCode
      else if p = ''groups'' \<and> m = DELETE \<and> q \<noteq> [] then Some (E_DeleteGroup q)
      else if p = ''sessions'' \<and> m = DELETE \<and> q \<noteq> [] then Some (E_DeleteSession q)
      else None)"
| "api_route m [p, i, q] =
     (if i = [] then None
      else if p = ''groups'' \<and> m = GET \<and> q = ''members'' then Some (E_ListMembers i)
      else if p = ''groups'' \<and> m = PUT \<and> q = ''name'' then Some (E_RenameGroup i)
      else if p = ''groups'' \<and> m = PUT \<and> q = ''appearance'' then Some (E_SetGroupAppearance i)
      else if p = ''groups'' \<and> m = DELETE \<and> q = ''membership'' then Some (E_LeaveGroup i)
      else if p = ''groups'' \<and> m = POST \<and> q = ''sessions'' then Some (E_CreateSession i)
      else if p = ''sessions'' \<and> m = PUT \<and> q = ''endpoint'' then Some (E_SetEndpoint i)
      else if p = ''sessions'' \<and> m = POST \<and> q = ''heartbeat'' then Some (E_Heartbeat i)
      else None)"
| "api_route m [p, i, q, j] =
     (if p \<noteq> ''groups'' \<or> i = [] \<or> j = [] then None
      else if m = DELETE \<and> q = ''members'' then Some (E_RemoveMember i j)
      else if m = PUT \<and> q = ''owner'' then Some (E_TransferOwnership i j)
      else if m = POST \<and> q = ''invite'' \<and> j = ''reset'' then Some (E_ResetInvite i)
      else None)"
| "api_route m _ = None"

definition route :: "http_method \<Rightarrow> string \<Rightarrow> endpoint option" where
  "route m path =
     (let site = (if m = GET then Some E_Site else None)
      in case split_on CHR ''/'' path of
           [] # seg # rest \<Rightarrow>
             (case (if seg = ''api'' then api_route m rest
                    else if m = GET \<and> seg = ''realtime'' \<and> rest = [] then Some E_Realtime
                    else if m = GET \<and> path = WellKnownPath then Some E_Discovery
                    else if m = GET \<and> seg = ''join'' then (case rest of [c] \<Rightarrow> if c = [] then None else Some (E_InvitePage c) | _ \<Rightarrow> None)
                    else None) of
                Some e \<Rightarrow> Some e
              | None \<Rightarrow> site)
         | _ \<Rightarrow> site)"

fun needs_token :: "endpoint \<Rightarrow> bool" where
  "needs_token E_Discovery = False"
| "needs_token E_Health = False"
| "needs_token (E_Invite _) = False"
| "needs_token (E_InvitePage _) = False"
| "needs_token E_RegisterDevice = False"
| "needs_token E_Site = False"
| "needs_token _ = True"

section \<open>The client\<close>

record client =
  cl_discovery :: discovery
  cl_baseURL :: string
  cl_token :: string

datatype request_body =
    NoRequest
  | RegisterRequest register_request
  | CreateGroupRequest string string string
  | JoinByCodeRequest string
  | SetNicknameRequest string
  | EndpointRequest api_endpoint
  | RenameGroupRequest string
  | AppearanceRequest string string

record http_request =
  hq_method :: http_method
  hq_url :: string
  hq_body :: request_body
  hq_authorization :: string

datatype payload = EmptyPayload | Garbled | Json body | JsonDiscovery discovery

datatype http_answer = NoAnswer | Broken | Answered nat payload

text \<open>What a payload says when it is read as an error: its code and its message.\<close>

fun error_fields :: "payload \<Rightarrow> string \<times> string" where
  "error_fields (Json (ErrorBody c m)) = (code_text c, m)"
| "error_fields (Json (CodeBody c)) = (c, [])"
| "error_fields (Json (InviteBody i)) = (ai_Code i, [])"
| "error_fields _ = ([], [])"

definition toError :: "nat \<Rightarrow> payload \<Rightarrow> go_error" where
  "toError status p =
     (case error_fields p of (c, m) \<Rightarrow>
        if c = [] then ControlError \<lparr>ce_Status = status, ce_Code = code_text Internal,
          ce_Message = ''The server returned an unexpected response.''\<rparr>
        else ControlError \<lparr>ce_Status = status, ce_Code = c, ce_Message = m\<rparr>)"

definition unreachable :: go_error where
  "unreachable = ControlError \<lparr>ce_Status = 0, ce_Code = ''unreachable'',
     ce_Message = ''Could not reach the server. Check your connection or server settings.''\<rparr>"

definition do_request :: "client \<Rightarrow> http_method \<Rightarrow> string \<Rightarrow> request_body \<Rightarrow> http_request" where
  "do_request c m u b =
     \<lparr>hq_method = m, hq_url = u, hq_body = b,
      hq_authorization = (if cl_token c \<noteq> [] then TokenScheme @ '' '' @ cl_token c else [])\<rparr>"

definition do_answer :: "http_answer \<Rightarrow> go_error + payload" where
  "do_answer a =
     (case a of
        NoAnswer \<Rightarrow> Inl unreachable
      | Broken \<Rightarrow> Inl OtherError
      | Answered status p \<Rightarrow>
          if 300 \<le> status then Inl (toError status p)
          else if p = Garbled then Inl OtherError
          else Inr p)"

definition discover_request :: "string \<Rightarrow> http_request" where
  "discover_request baseURL =
     \<lparr>hq_method = GET, hq_url = TrimRight baseURL ''/'' @ WellKnownPath, hq_body = NoRequest, hq_authorization = []\<rparr>"

text \<open>An empty or foreign document is one with no version.\<close>

definition Discover :: "string \<Rightarrow> http_answer \<Rightarrow> go_error + client" where
  "Discover baseURL answer =
     (case do_answer answer of
        Inl e \<Rightarrow> Inl e
      | Inr p \<Rightarrow>
          (case p of
             JsonDiscovery doc \<Rightarrow>
               if disc_Version doc \<noteq> DiscoveryVersion
               then Inl (ControlError \<lparr>ce_Status = 0, ce_Code = code_text VersionUnsupported,
                      ce_Message = ''That server speaks version '' @ FormatInt (disc_Version doc) @
                        '' and this app speaks version '' @ FormatInt DiscoveryVersion @ ''.''\<rparr>)
               else if disc_API doc = [] \<or> disc_Realtime doc = []
               then Inl (ControlError \<lparr>ce_Status = 0, ce_Code = code_text VersionUnsupported,
                      ce_Message = ''That server did not describe itself properly.''\<rparr>)
               else Inr \<lparr>cl_discovery = doc, cl_baseURL = TrimRight baseURL ''/'', cl_token = []\<rparr>
           | _ \<Rightarrow> Inl (ControlError \<lparr>ce_Status = 0, ce_Code = code_text VersionUnsupported,
                      ce_Message = ''That server speaks version 0 and this app speaks version '' @ FormatInt DiscoveryVersion @ ''.''\<rparr>)))"

text \<open>\<^verbatim>\<open>url.PathEscape\<close>.\<close>

definition hex_digit :: "nat \<Rightarrow> char" where
  "hex_digit n = (if n < 10 then char_of (48 + n) else char_of (55 + n))"

definition path_plain :: "char \<Rightarrow> bool" where
  "path_plain c \<longleftrightarrow> is_lower c \<or> is_upper c \<or> is_digit c \<or> c \<in> set ''-_.~$&+:=@''"

definition PathEscape :: "string \<Rightarrow> string" where
  "PathEscape s =
     concat (map (\<lambda>c. if path_plain c then [c] else [CHR ''%'', hex_digit (code c div 16), hex_digit (code c mod 16)]) s)"

definition api_url :: "client \<Rightarrow> string \<Rightarrow> string" where
  "api_url c path = disc_API (cl_discovery c) @ path"

definition Register_request :: "client \<Rightarrow> register_request \<Rightarrow> http_request" where
  "Register_request c r = do_request c POST (api_url c ''/devices/register'') (RegisterRequest r)"

definition CreateGroup_request :: "client \<Rightarrow> string \<Rightarrow> string \<Rightarrow> string \<Rightarrow> http_request" where
  "CreateGroup_request c name icon color = do_request c POST (api_url c ''/groups'') (CreateGroupRequest name icon color)"

definition JoinByCode_request :: "client \<Rightarrow> string \<Rightarrow> http_request" where
  "JoinByCode_request c ic = do_request c POST (api_url c ''/groups/join-by-code'') (JoinByCodeRequest ic)"

definition Invite_request :: "client \<Rightarrow> string \<Rightarrow> http_request" where
  "Invite_request c ic = do_request c GET (api_url c (''/invites/'' @ PathEscape ic)) NoRequest"

definition ResetInvite_request :: "client \<Rightarrow> string \<Rightarrow> http_request" where
  "ResetInvite_request c g = do_request c POST (api_url c (''/groups/'' @ g @ ''/invite/reset'')) NoRequest"

definition Groups_request :: "client \<Rightarrow> http_request" where
  "Groups_request c = do_request c GET (api_url c ''/groups'') NoRequest"

definition Members_request :: "client \<Rightarrow> string \<Rightarrow> http_request" where
  "Members_request c g = do_request c GET (api_url c (''/groups/'' @ g @ ''/members'')) NoRequest"

definition LeaveGroup_request :: "client \<Rightarrow> string \<Rightarrow> http_request" where
  "LeaveGroup_request c g = do_request c DELETE (api_url c (''/groups/'' @ g @ ''/membership'')) NoRequest"

definition Me_request :: "client \<Rightarrow> http_request" where
  "Me_request c = do_request c GET (api_url c ''/me'') NoRequest"

definition SetNickname_request :: "client \<Rightarrow> string \<Rightarrow> http_request" where
  "SetNickname_request c nickname = do_request c PUT (api_url c ''/me/nickname'') (SetNicknameRequest nickname)"

definition Connect_request :: "client \<Rightarrow> string \<Rightarrow> http_request" where
  "Connect_request c g = do_request c POST (api_url c (''/groups/'' @ g @ ''/sessions'')) NoRequest"

definition PublishEndpoint_request :: "client \<Rightarrow> string \<Rightarrow> api_endpoint \<Rightarrow> http_request" where
  "PublishEndpoint_request c i ep =
     do_request c PUT (api_url c (''/sessions/'' @ i @ ''/endpoint'')) (EndpointRequest (ep\<lparr>ep_Protocol := ''udp''\<rparr>))"

definition Heartbeat_request :: "client \<Rightarrow> string \<Rightarrow> http_request" where
  "Heartbeat_request c i = do_request c POST (api_url c (''/sessions/'' @ i @ ''/heartbeat'')) NoRequest"

definition Disconnect_request :: "client \<Rightarrow> string \<Rightarrow> http_request" where
  "Disconnect_request c i = do_request c DELETE (api_url c (''/sessions/'' @ i)) NoRequest"

definition RemoveMember_request :: "client \<Rightarrow> string \<Rightarrow> string \<Rightarrow> http_request" where
  "RemoveMember_request c g d = do_request c DELETE (api_url c (''/groups/'' @ g @ ''/members/'' @ d)) NoRequest"

definition RenameGroup_request :: "client \<Rightarrow> string \<Rightarrow> string \<Rightarrow> http_request" where
  "RenameGroup_request c g name = do_request c PUT (api_url c (''/groups/'' @ g @ ''/name'')) (RenameGroupRequest name)"

definition SetGroupAppearance_request :: "client \<Rightarrow> string \<Rightarrow> string \<Rightarrow> string \<Rightarrow> http_request" where
  "SetGroupAppearance_request c g icon color =
     do_request c PUT (api_url c (''/groups/'' @ g @ ''/appearance'')) (AppearanceRequest icon color)"

definition TransferOwnership_request :: "client \<Rightarrow> string \<Rightarrow> string \<Rightarrow> http_request" where
  "TransferOwnership_request c g d = do_request c PUT (api_url c (''/groups/'' @ g @ ''/owner/'' @ d)) NoRequest"

definition DeleteGroup_request :: "client \<Rightarrow> string \<Rightarrow> http_request" where
  "DeleteGroup_request c g = do_request c DELETE (api_url c (''/groups/'' @ g)) NoRequest"

section \<open>The realtime channel\<close>

text \<open>A connection that is refused, by the status of the refusal if there was one.\<close>

definition dial_error :: "nat option \<Rightarrow> go_error" where
  "dial_error status =
     (if status = Some 401
      then ControlError \<lparr>ce_Status = 401, ce_Code = code_text Unauthorized, ce_Message = ''This device is not signed in.''\<rparr>
      else if status = Some 404
      then ControlError \<lparr>ce_Status = 404, ce_Code = code_text SessionInvalid, ce_Message = ''That session is no longer active.''\<rparr>
      else OtherError)"

datatype channel_end = SessionInvalidated | RetryAfter duration duration

text \<open>What \<open>Realtime\<close> does once the channel is down: give the session up, or wait and dial again.\<close>

definition Realtime_next :: "go_error \<Rightarrow> duration \<Rightarrow> channel_end" where
  "Realtime_next e backoff =
     (if IsUnauthorized e \<or> isSessionGone e then SessionInvalidated
      else RetryAfter backoff (if backoff < 30 * second then backoff * 2 else backoff))"

text \<open>
  One event, one call: the handler that \<open>dispatch\<close> picks. An event it does not know is ignored; a change of
  the group's name or look is such a one, although servers send it.
\<close>

datatype realtime_call =
    CallPeerOnline api_peer
  | CallPeerOffline string
  | CallPeerEndpointUpdated string api_endpoint
  | CallPeerRenamed string string
  | CallGroupDeleted string
  | CallMembershipRevoked
  | CallSessionInvalidated

fun realtime_dispatch :: "event \<Rightarrow> realtime_call option" where
  "realtime_dispatch (EventPeerOnline p) = Some (CallPeerOnline p)"
| "realtime_dispatch (EventPeerOffline d) = Some (CallPeerOffline d)"
| "realtime_dispatch (EventPeerEndpointUpdated d ep) = Some (CallPeerEndpointUpdated d ep)"
| "realtime_dispatch (EventPeerRenamed d nickname) = Some (CallPeerRenamed d nickname)"
| "realtime_dispatch (EventGroupDeleted g) = Some (CallGroupDeleted g)"
| "realtime_dispatch (EventMembershipRevoked g) = Some CallMembershipRevoked"
| "realtime_dispatch (EventGroupUpdated g name icon color) = None"

section \<open>Requests and routes fit\<close>

text \<open>A request to a server that is reached at its public address, and the endpoint it is for.\<close>

definition reaches :: "config \<Rightarrow> http_request \<Rightarrow> endpoint \<Rightarrow> bool" where
  "reaches cfg r e \<longleftrightarrow>
     starts_with (cfg_PublicURL cfg) (hq_url r) \<and> route (hq_method r) (drop (length (cfg_PublicURL cfg)) (hq_url r)) = Some e"

text \<open>An id as it can stand in a path.\<close>

definition path_id :: "string \<Rightarrow> bool" where
  "path_id i \<longleftrightarrow> i \<noteq> [] \<and> list_all path_plain i"

lemma path_id_no_slash: "path_id i \<Longrightarrow> CHR ''/'' \<notin> set i" "path_id i \<Longrightarrow> i \<noteq> []"
proof -
  have "\<not> path_plain CHR ''/''" by (simp add: path_plain_def is_lower_def is_upper_def is_digit_def)
  then show "path_id i \<Longrightarrow> CHR ''/'' \<notin> set i" by (auto simp: path_id_def list_all_iff)
qed (simp add: path_id_def)

lemma PathEscape_plain: "list_all path_plain s \<Longrightarrow> PathEscape s = s"
  by (induction s) (simp_all add: PathEscape_def)

lemma reaches_api:
  assumes "cl_discovery c = handleDiscovery cfg" "route m (''/api'' @ path) = Some e"
  shows "reaches cfg (do_request c m (api_url c path) b) e"
  using assms by (simp add: reaches_def do_request_def api_url_def handleDiscovery_def APIURL_def starts_with_def)

lemmas path_simps = route_def split_on_append split_on_none path_id_no_slash

lemma bearer_round_trip: "cl_token c \<noteq> [] \<Longrightarrow> bearerToken (hq_authorization (do_request c m u b)) = Some (cl_token c)"
  by (simp add: do_request_def bearerToken_def TokenScheme_def Cut_def equal_fold_def)



text \<open>
A server starts only at an address its clients accept, unless it is this machine under another scheme than the web's.
\<close>

lemma public_url_accepted:
  assumes "checkPublicURL parse u = None" and "parse u = Some p" and "u_Scheme p = ''http'' \<or> \<not> isLoopback (u_Hostname p)"
  shows "ValidateServerURL parse u = None"
  using assms by (auto simp: checkPublicURL_def ValidateServerURL_def split: if_splits)

lemma public_url_refused:
  assumes "parse u = Some p" "u_Host p \<noteq> []" "isLoopback (u_Hostname p)" "u_Scheme p \<noteq> ''http''" "u_Scheme p \<noteq> ''https''"
  shows "checkPublicURL parse u = None" "ValidateServerURL parse u = Some URLScheme"
  using assms by (auto simp: checkPublicURL_def ValidateServerURL_def)

end
