(* ===== verification/Identity.thy ===== *)
theory Identity
  imports Auth Invite Session
begin

text \<open>
  The identity of an installation: package \<^verbatim>\<open>daemon/identity\<close>. Base 64, the JSON text of the secrets, what
  the operating system does to protect them and the public half of an Ed25519 seed are the record
  \<open>vault\<close>, an argument. A signing key stands for itself by its seed. The file and its temporary copy are
  the two places of a small file system in which a write can be cut short.
\<close>

record keypair =
  kp_Private :: bytes
  kp_Public :: bytes

record identity =
  id_DeviceID :: string
  id_Name :: string
  id_Nickname :: string
  id_Signing :: bytes
  id_Transport :: keypair
  id_Token :: string
  id_ServerURL :: string

record stored_identity =
  si_DeviceID :: string
  si_Name :: string
  si_Nickname :: string
  si_PublicKey :: string
  si_TransportKey :: string
  si_ServerURL :: string
  si_Secrets :: string

record protected_secrets =
  ps_SigningSeed :: string
  ps_TransportKey :: string
  ps_Token :: string

record vault =
  v_encode :: "bytes \<Rightarrow> string"
  v_decode :: "string \<Rightarrow> bytes option"
  v_marshal :: "protected_secrets \<Rightarrow> bytes"
  v_unmarshal :: "bytes \<Rightarrow> protected_secrets option"
  v_protect :: "bytes \<Rightarrow> bytes option"
  v_unprotect :: "bytes \<Rightarrow> bytes option"
  v_public :: "bytes \<Rightarrow> bytes"

datatype identity_error =
    ErrDirectory | ErrReadFile | ErrParseFile | ErrDecodeSecrets | ErrUnprotect | ErrParseSecrets | ErrSigningKey
  | ErrTransportKey | ErrTransportPublicKey | ErrGenerate | ErrProtect | ErrWriteFile | ErrReplaceFile

text \<open>A file is whole, or it is what an interrupted write left.\<close>

datatype disk_file = Whole stored_identity | Torn

record files =
  fs_identity :: "disk_file option"
  fs_temp :: "disk_file option"

definition SeedSize :: nat where "SeedSize = 32"

definition Identity_PublicKey :: "vault \<Rightarrow> identity \<Rightarrow> string" where
  "Identity_PublicKey V i = v_encode V (v_public V (id_Signing i))"

definition Identity_TransportKey :: "vault \<Rightarrow> identity \<Rightarrow> string" where
  "Identity_TransportKey V i = v_encode V (kp_Public (id_Transport i))"

section \<open>Writing it down\<close>

text \<open>What \<open>save\<close> puts in the file, if the secrets can be protected.\<close>

definition encode_identity :: "vault \<Rightarrow> identity \<Rightarrow> stored_identity option" where
  "encode_identity V i =
     (let secrets = v_marshal V \<lparr>ps_SigningSeed = v_encode V (id_Signing i),
            ps_TransportKey = v_encode V (kp_Private (id_Transport i)), ps_Token = id_Token i\<rparr>
      in case v_protect V secrets of
           None \<Rightarrow> None
         | Some sealed \<Rightarrow>
             Some \<lparr>si_DeviceID = id_DeviceID i, si_Name = id_Name i, si_Nickname = id_Nickname i,
                   si_PublicKey = Identity_PublicKey V i, si_TransportKey = Identity_TransportKey V i,
                   si_ServerURL = id_ServerURL i, si_Secrets = v_encode V sealed\<rparr>)"

definition save :: "vault \<Rightarrow> bool \<Rightarrow> bool \<Rightarrow> identity \<Rightarrow> files \<Rightarrow> identity_error option \<times> files" where
  "save V written renamed i fs =
     (case encode_identity V i of
        None \<Rightarrow> (Some ErrProtect, fs)
      | Some body \<Rightarrow>
          if \<not> written then (Some ErrWriteFile, fs\<lparr>fs_temp := Some Torn\<rparr>)
          else if \<not> renamed then (Some ErrReplaceFile, fs\<lparr>fs_temp := None\<rparr>)
          else (None, \<lparr>fs_identity = Some (Whole body), fs_temp = None\<rparr>))"

text \<open>What is on the disk at every moment of it.\<close>

definition save_moments :: "vault \<Rightarrow> identity \<Rightarrow> files \<Rightarrow> files list" where
  "save_moments V i fs =
     (case encode_identity V i of
        None \<Rightarrow> [fs]
      | Some body \<Rightarrow>
          [fs, fs\<lparr>fs_temp := Some Torn\<rparr>, fs\<lparr>fs_temp := Some (Whole body)\<rparr>,
           \<lparr>fs_identity = Some (Whole body), fs_temp = None\<rparr>])"

section \<open>Reading it back\<close>

definition newDeviceID :: "bytes option \<Rightarrow> string option" where
  "newDeviceID raw = map_option (\<lambda>raw. ''dev_'' @ base32 raw) raw"

text \<open>The draws of a first run: the bytes of the id, the signing seed and the transport keys.\<close>

definition create ::
  "vault \<Rightarrow> bytes option \<Rightarrow> bytes option \<Rightarrow> keypair option \<Rightarrow> string option \<Rightarrow> bool \<Rightarrow> bool \<Rightarrow> files \<Rightarrow>
     (identity_error + identity) \<times> files" where
  "create V raw seed keys hostname written renamed fs =
     (case (newDeviceID raw, seed, keys) of
        (Some d, Some signing, Some transport) \<Rightarrow>
          let name = (case hostname of None \<Rightarrow> ''unknown'' | Some n \<Rightarrow> if n = [] then ''unknown'' else n);
              i = \<lparr>id_DeviceID = d, id_Name = name, id_Nickname = name, id_Signing = signing, id_Transport = transport,
                   id_Token = [], id_ServerURL = []\<rparr>
          in (case save V written renamed i fs of
                (Some e, fs) \<Rightarrow> (Inl e, fs)
              | (None, fs) \<Rightarrow> (Inr i, fs))
      | _ \<Rightarrow> (Inl ErrGenerate, fs))"

definition sized :: "vault \<Rightarrow> nat \<Rightarrow> string \<Rightarrow> bytes option" where
  "sized V n s = (case v_decode V s of None \<Rightarrow> None | Some bs \<Rightarrow> if length bs = n then Some bs else None)"

definition decode_identity :: "vault \<Rightarrow> stored_identity \<Rightarrow> identity_error + identity" where
  "decode_identity V stored =
     (case v_decode V (si_Secrets stored) of
        None \<Rightarrow> Inl ErrDecodeSecrets
      | Some sealed \<Rightarrow>
          (case v_unprotect V sealed of
             None \<Rightarrow> Inl ErrUnprotect
           | Some opened \<Rightarrow>
               (case v_unmarshal V opened of
                  None \<Rightarrow> Inl ErrParseSecrets
                | Some secrets \<Rightarrow>
                    (case (sized V SeedSize (ps_SigningSeed secrets), sized V KeySize (ps_TransportKey secrets),
                           sized V KeySize (si_TransportKey stored)) of
                       (None, _, _) \<Rightarrow> Inl ErrSigningKey
                     | (_, None, _) \<Rightarrow> Inl ErrTransportKey
                     | (_, _, None) \<Rightarrow> Inl ErrTransportPublicKey
                     | (Some seed, Some priv, Some pub) \<Rightarrow>
                         Inr \<lparr>id_DeviceID = si_DeviceID stored, id_Name = si_Name stored, id_Nickname = si_Nickname stored,
                              id_Signing = seed, id_Transport = \<lparr>kp_Private = priv, kp_Public = pub\<rparr>,
                              id_Token = ps_Token secrets, id_ServerURL = si_ServerURL stored\<rparr>))))"

definition Identity_Load ::
  "vault \<Rightarrow> bool \<Rightarrow> bool \<Rightarrow> (files \<Rightarrow> (identity_error + identity) \<times> files) \<Rightarrow> files \<Rightarrow> (identity_error + identity) \<times> files" where
  "Identity_Load V dir readable first_run fs =
     (if \<not> dir then (Inl ErrDirectory, fs)
      else case fs_identity fs of
             None \<Rightarrow> first_run fs
           | Some f \<Rightarrow>
               if \<not> readable then (Inl ErrReadFile, fs)
               else (case f of
                       Torn \<Rightarrow> (Inl ErrParseFile, fs)
                     | Whole stored \<Rightarrow> (decode_identity V stored, fs)))"

section \<open>Changing it\<close>

text \<open>An identity is changed in memory first and written second.\<close>

definition SetToken :: "string \<Rightarrow> string \<Rightarrow> identity \<Rightarrow> identity" where
  "SetToken url token i = i\<lparr>id_ServerURL := url, id_Token := token\<rparr>"

definition ClearToken :: "identity \<Rightarrow> identity" where
  "ClearToken i = i\<lparr>id_Token := [], id_ServerURL := []\<rparr>"

text \<open>A name that is not new is not written, so nothing can go wrong; \<open>saved\<close> is the outcome of \<open>save\<close>.\<close>

definition Identity_SetNickname :: "string \<Rightarrow> bool \<Rightarrow> identity \<Rightarrow> bool \<times> identity" where
  "Identity_SetNickname nickname saved i =
     (if nickname = id_Nickname i then (True, i) else (saved, i\<lparr>id_Nickname := nickname\<rparr>))"

definition RegisteredWith :: "string \<Rightarrow> identity \<Rightarrow> bool" where
  "RegisteredWith url i \<longleftrightarrow> id_Token i \<noteq> [] \<and> id_ServerURL i = url"

section \<open>It survives\<close>

text \<open>What is relied on: everything that is encoded and protected can be decoded and opened again.\<close>

definition vault_ok :: "vault \<Rightarrow> bool" where
  "vault_ok V \<longleftrightarrow>
     (\<forall>bs. v_decode V (v_encode V bs) = Some bs) \<and> (\<forall>s. v_unmarshal V (v_marshal V s) = Some s) \<and>
     (\<forall>bs sealed. v_protect V bs = Some sealed \<longrightarrow> v_unprotect V sealed = Some bs)"

definition keys_ok :: "identity \<Rightarrow> bool" where
  "keys_ok i \<longleftrightarrow> length (id_Signing i) = SeedSize \<and> length (kp_Private (id_Transport i)) = KeySize \<and>
     length (kp_Public (id_Transport i)) = KeySize"

lemma decode_encode_identity:
  assumes "vault_ok V" "keys_ok i" "encode_identity V i = Some body"
  shows "decode_identity V body = Inr i"
  using assms
  by (auto simp: encode_identity_def decode_identity_def vault_ok_def keys_ok_def sized_def Identity_TransportKey_def Let_def
      split: option.splits)

lemma decode_keys_ok: "decode_identity V stored = Inr i \<Longrightarrow> keys_ok i"
  by (auto simp: decode_identity_def keys_ok_def sized_def split: option.splits if_splits)


section \<open>An example\<close>

text \<open>A text as bytes that mark its characters and its end.\<close>

definition put_text :: "string \<Rightarrow> bytes" where
  "put_text s = concat (map (\<lambda>c. [1, of_nat (code c)]) s) @ [0]"

fun take_text :: "bytes \<Rightarrow> string \<times> bytes" where
  "take_text (m # b # rest) =
     (if m = 0 then ([], b # rest) else case take_text rest of (s, r) \<Rightarrow> (char_of (unat b) # s, r))"
| "take_text (m # rest) = ([], rest)"
| "take_text [] = ([], [])"

lemma byte_char [simp]: "char_of (unat (of_nat (code c) :: byte)) = (c :: char)"
proof -
  have "unat (of_nat (code c) :: byte) = code c" by (simp add: unat_of_nat)
  then show ?thesis by simp
qed

lemma take_put_text: "take_text (put_text s @ rest) = (s, rest)"
proof (induction s)
  case Nil
  then show ?case by (cases rest) (simp_all add: put_text_def)
next
  case (Cons c s)
  then show ?case by (simp add: put_text_def)
qed

definition toy_vault :: vault where
  "toy_vault = \<lparr>v_encode = map (\<lambda>b. char_of (unat b)), v_decode = (\<lambda>s. Some (map (\<lambda>c. of_nat (code c)) s)),
     v_marshal = (\<lambda>s. put_text (ps_SigningSeed s) @ put_text (ps_TransportKey s) @ put_text (ps_Token s)),
     v_unmarshal = (\<lambda>bs. case take_text bs of (seed, r) \<Rightarrow> case take_text r of (key, r) \<Rightarrow>
       Some \<lparr>ps_SigningSeed = seed, ps_TransportKey = key, ps_Token = fst (take_text r)\<rparr>),
     v_protect = Some, v_unprotect = Some, v_public = (\<lambda>s. s)\<rparr>"

lemma toy_vault_ok: "vault_ok toy_vault"
proof -
  have "unat b < 256" for b :: byte using unsigned_less [of b] by simp
  then have "unat b mod 256 = unat b" for b :: byte by simp
  then have "v_decode toy_vault (v_encode toy_vault bs) = Some bs" for bs
    by (simp add: toy_vault_def comp_def)
  moreover have "v_unmarshal toy_vault (v_marshal toy_vault s) = Some s" for s
    using take_put_text [of "ps_Token s" "[]"] by (simp add: toy_vault_def take_put_text)
  ultimately show ?thesis by (simp add: vault_ok_def) (simp add: toy_vault_def)
qed


end
