(* ===== verification/Core_State.thy ===== *)
theory Core_State
  imports Control Pump Identity "HOL-Library.Char_ord" "HOL-Library.Product_Lexorder"
begin

text \<open>
  The state of the daemon's core and its line to the server: \<^verbatim>\<open>daemon/core/client.go\<close>, \<^verbatim>\<open>settings.go\<close>, the
  record and the small helpers of \<^verbatim>\<open>core.go\<close>, the identity it signs in with and the state it shows
  (\<^verbatim>\<open>protocol/ipc\<close>). Meshes and adapters are objects other goroutines hold on to, so they live in heaps
  and the core holds references; so do the contexts of sessions, as numbers that can be cancelled.
  A goroutine that is started and runs once is an entry of \<open>c_tasks\<close>. Log lines are left out.
\<close>

section \<open>What the desktop client is shown\<close>

datatype connection_state = StateDisconnected | StateConnecting | StateConnected | StateDisconnecting | StateError

datatype message_severity = NoSeverity | MessageError | MessageWarning

record peer_view =
  pv_DeviceID :: string
  pv_Nickname :: string
  pv_VirtualIP :: string
  pv_State :: peer_state
  pv_LatencyMS :: "int option"
  pv_Reason :: peer_reason
  pv_IsOwner :: bool
  pv_PacketsSent :: u64
  pv_PacketsReceived :: u64

record ipc_state =
  st_Connection :: connection_state
  st_ServerURL :: string
  st_ServerOnline :: bool
  st_GroupID :: string
  st_GroupName :: string
  st_GroupIcon :: string
  st_GroupColor :: string
  st_Nickname :: string
  st_VirtualIP :: string
  st_IsOwner :: bool
  st_Peers :: "peer_view list"
  st_PacketsSent :: u64
  st_PacketsReceived :: u64
  st_Message :: string
  st_MessageSeverity :: message_severity

record ipc_group =
  gr_GroupID :: string
  gr_Name :: string
  gr_Icon :: string
  gr_Color :: string
  gr_Active :: bool
  gr_OnlineMembers :: "nat option"
  gr_Members :: "nat option"
  gr_InviteCode :: string
  gr_InviteLink :: string
  gr_IsOwner :: bool

datatype ipc_event =
    StateChanged ipc_state
  | GroupConnected string string string
  | GroupDisconnected string string
  | PeerAdded peer_view
  | PeerRemoved string
  | PeerStateChangedData string peer_state peer_reason
  | PeerLatencyChangedData string int
  | ServerConnectionChanged bool

section \<open>The core\<close>

record settings =
  set_ServerURL :: string
  set_LanDiscovery :: bool
  set_PacketLog :: bool

type_synonym ctx_ref = nat
type_synonym mesh_ref = nat
type_synonym device_ref = nat

record active_session =
  as_sessionID :: string
  as_groupID :: string
  as_groupName :: string
  as_virtualIP :: string
  as_subnet :: string
  as_ctx :: ctx_ref

datatype task =
    RunConnect string
  | LoadMembers string
  | DropSession string
  | StartAdapter mesh_ref string string

record ('hs, 'cs) core =
  c_identity :: identity
  c_settings :: settings
  c_defaultServer :: string
  c_client :: "client option"
  c_inviteBase :: string
  c_state :: ipc_state
  c_peers :: "(string, peer_view) gomap"
  c_session :: "active_session option"
  c_mesh :: "mesh_ref option"
  c_device :: "device_ref option"
  c_packetsOut :: u64
  c_packetsIn :: u64
  c_packets :: recorder
  c_meshes :: "(keypair, 'hs, 'cs) mesh list"
  c_closedMeshes :: "mesh_ref list"
  c_devices :: "prefix list"
  c_closedDevices :: "device_ref list"
  c_contexts :: nat
  c_cancelled :: "ctx_ref list"
  c_tasks :: "task list"
  c_events :: "ipc_event list"

datatype core_error = Failure string string | Unexpected

text \<open>What there is to read: no file, one that cannot be read or parsed, or the fields one sets.\<close>

datatype settings_file = NoSettings | UnreadableSettings | MalformedSettings | StoredSettings "string option" "bool option" "bool option"

definition loadSettings :: "settings_file \<Rightarrow> string \<Rightarrow> settings option" where
  "loadSettings f defaultServer =
     (let s = \<lparr>set_ServerURL = defaultServer, set_LanDiscovery = True, set_PacketLog = False\<rparr>
      in case f of
           NoSettings \<Rightarrow> Some s
         | UnreadableSettings \<Rightarrow> None
         | MalformedSettings \<Rightarrow> None
         | StoredSettings url lan packets \<Rightarrow>
             Some \<lparr>set_ServerURL = (case url of None \<Rightarrow> set_ServerURL s | Some v \<Rightarrow> v),
                   set_LanDiscovery = (case lan of None \<Rightarrow> set_LanDiscovery s | Some v \<Rightarrow> v),
                   set_PacketLog = (case packets of None \<Rightarrow> set_PacketLog s | Some v \<Rightarrow> v)\<rparr>)"

definition NewCore :: "identity \<Rightarrow> settings \<Rightarrow> string \<Rightarrow> bool \<Rightarrow> ('hs, 'cs) core" where
  "NewCore i s defaultServer openable =
     \<lparr>c_identity = i, c_settings = s, c_defaultServer = defaultServer, c_client = None, c_inviteBase = [],
      c_state = \<lparr>st_Connection = StateDisconnected, st_ServerURL = set_ServerURL s, st_ServerOnline = False, st_GroupID = [],
        st_GroupName = [], st_GroupIcon = [], st_GroupColor = [], st_Nickname = id_Nickname i, st_VirtualIP = [], st_IsOwner = False,
        st_Peers = [], st_PacketsSent = 0, st_PacketsReceived = 0, st_Message = [], st_MessageSeverity = NoSeverity\<rparr>,
      c_peers = [], c_session = None, c_mesh = None, c_device = None, c_packetsOut = 0, c_packetsIn = 0,
      c_packets = (if set_PacketLog s then snd (SetEnabled openable True new_recorder) else new_recorder),
      c_meshes = [], c_closedMeshes = [], c_devices = [], c_closedDevices = [], c_contexts = 0, c_cancelled = [],
      c_tasks = [], c_events = []\<rparr>"

text \<open>Everyone who is here comes first, and both halves are in the order of their addresses.\<close>

definition sortPeers :: "peer_view list \<Rightarrow> peer_view list" where
  "sortPeers = sort_key (\<lambda>p. (pv_State p = PeerOffline, pv_VirtualIP p))"

definition snapshot :: "('hs, 'cs) core \<Rightarrow> ipc_state" where
  "snapshot c = (c_state c)\<lparr>st_Peers := sortPeers (map snd (c_peers c))\<rparr>"

definition emit :: "ipc_event \<Rightarrow> ('hs, 'cs) core \<Rightarrow> ('hs, 'cs) core" where
  "emit e c = c\<lparr>c_events := c_events c @ [e]\<rparr>"

definition announce :: "('hs, 'cs) core \<Rightarrow> ('hs, 'cs) core" where
  "announce c = emit (StateChanged (snapshot c)) c"

definition go_task :: "task \<Rightarrow> ('hs, 'cs) core \<Rightarrow> ('hs, 'cs) core" where
  "go_task t c = c\<lparr>c_tasks := c_tasks c @ [t]\<rparr>"

definition upd_state :: "(ipc_state \<Rightarrow> ipc_state) \<Rightarrow> ('hs, 'cs) core \<Rightarrow> ('hs, 'cs) core" where
  "upd_state f c = c\<lparr>c_state := f (c_state c)\<rparr>"

definition upd_row :: "string \<Rightarrow> (peer_view \<Rightarrow> peer_view) \<Rightarrow> ('hs, 'cs) core \<Rightarrow> ('hs, 'cs) core" where
  "upd_row d f c =
     (case lookup (c_peers c) d of None \<Rightarrow> c | Some view \<Rightarrow> c\<lparr>c_peers := store d (f view) (c_peers c)\<rparr>)"

definition upd_mesh ::
  "mesh_ref \<Rightarrow> ((keypair, 'hs, 'cs) mesh \<Rightarrow> (keypair, 'hs, 'cs) mesh) \<Rightarrow> ('hs, 'cs) core \<Rightarrow> ('hs, 'cs) core" where
  "upd_mesh r f c = c\<lparr>c_meshes := (c_meshes c)[r := f (c_meshes c ! r)]\<rparr>"

definition severityFor :: "string \<Rightarrow> message_severity" where
  "severityFor message = (if message = [] then NoSeverity else MessageError)"

definition setMessage :: "string \<Rightarrow> message_severity \<Rightarrow> ('hs, 'cs) core \<Rightarrow> ('hs, 'cs) core" where
  "setMessage message severity c =
     announce (upd_state (\<lambda>s. s\<lparr>st_Message := message, st_MessageSeverity := severity\<rparr>) c)"

section \<open>The line to the server\<close>

text \<open>
  What one attempt at a call meets: the answer to discovery, to the registration, to the question of
  what this device is called, to the call itself, and whether the disk takes the token and the name.
\<close>

record 'a round =
  rd_discover :: http_answer
  rd_register :: "go_error + string"
  rd_tokenSaved :: bool
  rd_me :: "go_error + string"
  rd_nicknameSaved :: bool
  rd_call :: "go_error + 'a"

record 'a answers =
  an_first :: "'a round"
  an_cleared :: bool
  an_second :: "'a round"

definition isUnreachable :: "go_error \<Rightarrow> bool" where
  "isUnreachable e = has_code ''unreachable'' e"

fun toFailure :: "go_error \<Rightarrow> core_error" where
  "toFailure (ControlError e) = Failure (ce_Code e) (ce_Message e)"
| "toFailure OtherError = Unexpected"

definition setServerOnline :: "bool \<Rightarrow> ('hs, 'cs) core \<Rightarrow> ('hs, 'cs) core" where
  "setServerOnline online c =
     (let changed = (st_ServerOnline (c_state c) \<noteq> online);
          c = upd_state (\<lambda>s. s\<lparr>st_ServerOnline := online\<rparr>) c
      in if changed then emit (ServerConnectionChanged online) c else c)"

definition adoptNickname :: "go_error + string \<Rightarrow> bool \<Rightarrow> ('hs, 'cs) core \<Rightarrow> ('hs, 'cs) core" where
  "adoptNickname me saved c =
     (case me of
        Inl _ \<Rightarrow> c
      | Inr nickname \<Rightarrow>
          if nickname = [] \<or> nickname = id_Nickname (c_identity c) then c
          else case Identity_SetNickname nickname saved (c_identity c) of
                 (False, i) \<Rightarrow> c\<lparr>c_identity := i\<rparr>
               | (True, i) \<Rightarrow> announce (upd_state (\<lambda>s. s\<lparr>st_Nickname := nickname\<rparr>) (c\<lparr>c_identity := i\<rparr>)))"

text \<open>The token for a server: the one on file, or a new registration's.\<close>

definition obtain_token :: "'a round \<Rightarrow> string \<Rightarrow> ('hs, 'cs) core \<Rightarrow> (core_error + string) \<times> ('hs, 'cs) core" where
  "obtain_token r url c =
     (if RegisteredWith url (c_identity c) then (Inr (id_Token (c_identity c)), c)
      else case rd_register r of
             Inl e \<Rightarrow> (Inl (toFailure e), setServerOnline (\<not> isUnreachable e) c)
           | Inr token \<Rightarrow>
               let c = c\<lparr>c_identity := SetToken url token (c_identity c)\<rparr>
               in if rd_tokenSaved r then (Inr token, c) else (Inl Unexpected, c))"

definition ensureClient :: "'a round \<Rightarrow> ('hs, 'cs) core \<Rightarrow> (core_error + client) \<times> ('hs, 'cs) core" where
  "ensureClient r c =
     (let url = set_ServerURL (c_settings c)
      in if \<exists>cl. c_client c = Some cl \<and> cl_baseURL cl = url then (Inr (the (c_client c)), c)
         else if url = [] then (Inl (Failure ''no_server'' ''No server is set. Choose one in Settings.''), c)
         else case Discover url (rd_discover r) of
                Inl e \<Rightarrow> (Inl (toFailure e), setServerOnline False c)
              | Inr cl \<Rightarrow>
                  (case obtain_token r url c of
                     (Inl e, c) \<Rightarrow> (Inl e, c)
                   | (Inr token, c) \<Rightarrow>
                       let cl = cl\<lparr>cl_token := token\<rparr>;
                           c = adoptNickname (rd_me r) (rd_nicknameSaved r) c;
                           c = c\<lparr>c_client := Some cl, c_inviteBase := disc_Invite (cl_discovery cl)\<rparr>
                       in (Inr cl, setServerOnline True c)))"

definition withClient :: "'a answers \<Rightarrow> ('hs, 'cs) core \<Rightarrow> (core_error + 'a) \<times> ('hs, 'cs) core" where
  "withClient A c =
     (case ensureClient (an_first A) c of
        (Inl e, c) \<Rightarrow> (Inl e, c)
      | (Inr _, c) \<Rightarrow>
          (case rd_call (an_first A) of
             Inr x \<Rightarrow> (Inr x, setServerOnline True c)
           | Inl e \<Rightarrow>
               if \<not> IsUnauthorized e then (Inl (toFailure e), setServerOnline (\<not> isUnreachable e) c)
               else
                 let c = c\<lparr>c_identity := ClearToken (c_identity c)\<rparr>
                 in if \<not> an_cleared A then (Inl Unexpected, c)
                    else case ensureClient (an_second A) (c\<lparr>c_client := None\<rparr>) of
                           (Inl e, c) \<Rightarrow> (Inl e, c)
                         | (Inr _, c) \<Rightarrow>
                             (case rd_call (an_second A) of
                                Inr x \<Rightarrow> (Inr x, setServerOnline True c)
                              | Inl e \<Rightarrow> (Inl (toFailure e), setServerOnline (\<not> isUnreachable e) c))))"

text \<open>The wording of what is wrong with an address is \<^verbatim>\<open>fmt\<close>'s.\<close>

definition validateServerURL :: "(string \<Rightarrow> url option) \<Rightarrow> (config_error \<Rightarrow> string) \<Rightarrow> string \<Rightarrow> core_error option" where
  "validateServerURL parse wording url =
     (if url = [] then Some (Failure ''bad_request'' ''Enter a server address.'')
      else case ValidateServerURL parse url of
             None \<Rightarrow> None
           | Some e \<Rightarrow> Some (Failure ''bad_request'' (''That address will not work: '' @ wording e)))"

definition stunServers :: "('hs, 'cs) core \<Rightarrow> string list" where
  "stunServers c = (case c_client c of None \<Rightarrow> [] | Some cl \<Rightarrow> disc_STUN (cl_discovery cl))"

end
