(* ===== verification/Adapter.thy ===== *)
theory Adapter
  imports Go_Text
begin

text \<open>
  The virtual adapter: package \<^verbatim>\<open>daemon/tun\<close> on Windows. What the package decides is modelled: which interface
  gets the multicast route and who has to give way for it, on 32-bit metrics that wrap; what an adapter
  that is being closed still does; how far opening one got. Windows is the tables of interfaces and
  routes it shows, and whether each call succeeds. Log lines are left out.
\<close>

section \<open>Metrics and routes\<close>

type_synonym luid = u64

record iface_row =
  if_luid :: luid
  if_connected :: bool
  if_metric :: u32
  if_auto :: bool

record route_row =
  rt_luid :: luid
  rt_prefix :: prefix
  rt_metric :: u32

definition multicastRoute :: prefix where
  "multicastRoute = \<lparr>pfx_addr = Addr4 0xE0000000, pfx_bits = 4\<rparr>"

definition internetRoute :: prefix where
  "internetRoute = \<lparr>pfx_addr = Addr4 0, pfx_bits = 0\<rparr>"

record mclaim =
  cm_luid :: luid
  cm_name :: string
  cm_route :: u32
  cm_metric :: u32
  cm_auto :: bool
  cm_internet :: bool

definition claim_total :: "mclaim \<Rightarrow> u32" where
  "claim_total c = cm_route c + cm_metric c"

record yielded =
  yl_luid :: luid
  yl_name :: string
  yl_metric :: u32
  yl_auto :: bool

text \<open>The interfaces that are up, by their id; of two rows with one id the later one counts.\<close>

definition live_iface :: "iface_row list \<Rightarrow> luid \<Rightarrow> iface_row option" where
  "live_iface ifs l = find (\<lambda>i. if_luid i = l) (rev (filter if_connected ifs))"

text \<open>The interface with the best way out, and what it is worth.\<close>

definition best_internet :: "iface_row list \<Rightarrow> route_row list \<Rightarrow> luid \<times> u32" where
  "best_internet ifs routes =
     fold (\<lambda>r (internet, best).
       case live_iface ifs (rt_luid r) of
         None \<Rightarrow> (internet, best)
       | Some i \<Rightarrow>
           if rt_prefix r \<noteq> internetRoute then (internet, best)
           else if rt_metric r + if_metric i < best then (rt_luid r, rt_metric r + if_metric i) else (internet, best))
       routes (0, - 1)"

definition multicastClaims :: "(luid \<Rightarrow> string) \<Rightarrow> iface_row list \<Rightarrow> route_row list \<Rightarrow> mclaim list" where
  "multicastClaims name ifs routes =
     (let internet = fst (best_internet ifs routes)
      in List.map_filter (\<lambda>r.
           case live_iface ifs (rt_luid r) of
             None \<Rightarrow> None
           | Some i \<Rightarrow>
               if rt_prefix r \<noteq> multicastRoute then None
               else Some \<lparr>cm_luid = rt_luid r, cm_name = name (rt_luid r), cm_route = rt_metric r, cm_metric = if_metric i,
                          cm_auto = if_auto i, cm_internet = (rt_luid r = internet)\<rparr>) routes)"

record move =
  mv_rival :: mclaim
  mv_metric :: u32

text \<open>One rival after the other: it is left alone, named as the one in the way, or moved.\<close>

definition contest_step :: "mclaim \<Rightarrow> luid \<Rightarrow> mclaim \<Rightarrow> move list \<times> string \<Rightarrow> move list \<times> string" where
  "contest_step mine ours rival acc =
     (case acc of (moves, held) \<Rightarrow>
        if cm_luid rival = ours \<or> claim_total mine < claim_total rival then (moves, held)
        else if cm_internet rival then (moves, cm_name rival)
        else (moves @ [\<lparr>mv_rival = rival, mv_metric = claim_total mine - cm_route rival + 1\<rparr>], held))"

definition contest :: "mclaim list \<Rightarrow> luid \<Rightarrow> (move list \<times> string) option" where
  "contest claims ours =
     (case find (\<lambda>c. cm_luid c = ours) (rev claims) of
        None \<Rightarrow> None
      | Some mine \<Rightarrow> Some (fold (contest_step mine ours) claims ([], [])))"

section \<open>Taking the route and giving it back\<close>

record tun_device =
  dv_luid :: luid
  dv_yielded :: "yielded list"
  dv_closing :: bool
  dv_session :: bool

text \<open>\<open>ok\<close> says for which interfaces Windows takes a new metric.\<close>

definition setInterfaceMetric :: "(luid \<Rightarrow> bool) \<Rightarrow> luid \<Rightarrow> u32 \<Rightarrow> bool \<Rightarrow> iface_row list \<Rightarrow> bool \<times> iface_row list" where
  "setInterfaceMetric ok l metric automatic ifs =
     (if ok l then (True, map (\<lambda>i. if if_luid i = l then i\<lparr>if_auto := automatic, if_metric := metric\<rparr> else i) ifs) else (False, ifs))"

definition take_step ::
  "(luid \<Rightarrow> bool) \<Rightarrow> move \<Rightarrow> string \<times> yielded list \<times> iface_row list \<Rightarrow> string \<times> yielded list \<times> iface_row list" where
  "take_step ok m acc =
     (case acc of (held, ys, ifs) \<Rightarrow>
        let rival = mv_rival m
        in case setInterfaceMetric ok (cm_luid rival) (mv_metric m) False ifs of
             (False, ifs) \<Rightarrow> (cm_name rival, ys, ifs)
           | (True, ifs) \<Rightarrow>
               (held, ys @ [\<lparr>yl_luid = cm_luid rival, yl_name = cm_name rival, yl_metric = cm_metric rival, yl_auto = cm_auto rival\<rparr>], ifs))"

definition takeMulticastRoute ::
  "(luid \<Rightarrow> bool) \<Rightarrow> (luid \<Rightarrow> string) \<Rightarrow> route_row list \<Rightarrow> tun_device \<Rightarrow> iface_row list \<Rightarrow> string option \<times> tun_device \<times> iface_row list" where
  "takeMulticastRoute ok name routes d ifs =
     (case contest (multicastClaims name ifs routes) (dv_luid d) of
        None \<Rightarrow> (None, d, ifs)
      | Some (moves, held) \<Rightarrow>
          (case fold (take_step ok) moves (held, dv_yielded d, ifs) of
             (held, ys, ifs) \<Rightarrow> (Some held, d\<lparr>dv_yielded := ys\<rparr>, ifs)))"

definition yieldBack :: "(luid \<Rightarrow> bool) \<Rightarrow> tun_device \<Rightarrow> iface_row list \<Rightarrow> tun_device \<times> iface_row list" where
  "yieldBack ok d ifs =
     (d\<lparr>dv_yielded := []\<rparr>,
      fold (\<lambda>y ifs. snd (setInterfaceMetric ok (yl_luid y) (yl_metric y) (yl_auto y) ifs)) (dv_yielded d) ifs)"

definition preferredMetric :: u32 where "preferredMetric = 1"

text \<open>\<open>None\<close> is an error; otherwise the name of whoever still holds the route, empty for nobody.\<close>

definition PreferForMulticast ::
  "(luid \<Rightarrow> bool) \<Rightarrow> (luid \<Rightarrow> string) \<Rightarrow> route_row list \<Rightarrow> bool \<Rightarrow> tun_device \<Rightarrow> iface_row list \<Rightarrow>
     string option \<times> tun_device \<times> iface_row list" where
  "PreferForMulticast ok name routes prefer d ifs =
     (case yieldBack ok d ifs of
        (d, ifs) \<Rightarrow>
          if \<not> prefer
          then (case setInterfaceMetric ok (dv_luid d) 0 True ifs of
                  (False, ifs) \<Rightarrow> (None, d, ifs)
                | (True, ifs) \<Rightarrow> (Some [], d, ifs))
          else (case setInterfaceMetric ok (dv_luid d) preferredMetric False ifs of
                  (False, ifs) \<Rightarrow> (None, d, ifs)
                | (True, ifs) \<Rightarrow> takeMulticastRoute ok name routes d ifs))"

section \<open>Giving it all back\<close>

lemma live_ifaceD: "live_iface ifs l = Some i \<Longrightarrow> i \<in> set ifs \<and> if_luid i = l \<and> if_connected i"
  by (auto simp: live_iface_def dest: find_SomeD)

text \<open>What a claim says about an interface is what the table says.\<close>

lemma multicastClaims_row:
  assumes "c \<in> set (multicastClaims name ifs routes)"
  obtains i where "live_iface ifs (cm_luid c) = Some i" "cm_metric c = if_metric i" "cm_auto c = if_auto i"
  using assms by (auto simp: multicastClaims_def Let_def map_filter_def split: option.splits if_splits)

lemma contest_rivals:
  assumes "fold (contest_step mine ours) claims (ms, h) = (ms', h')"
  shows "mv_rival ` set ms' \<subseteq> mv_rival ` set ms \<union> set claims"
  using assms
proof (induction claims arbitrary: ms h)
  case (Cons c claims)
  obtain ms1 h1 where one: "contest_step mine ours c (ms, h) = (ms1, h1)" by fastforce
  then have "mv_rival ` set ms1 \<subseteq> mv_rival ` set ms \<union> {c}"
    by (auto simp: contest_step_def split: if_splits)
  moreover have "mv_rival ` set ms' \<subseteq> mv_rival ` set ms1 \<union> set claims" using Cons.IH [of ms1 h1] Cons.prems one by simp
  ultimately show ?case unfolding list.set by blast
qed simp

text \<open>Moving rivals changes no row but those it remembers, and of these only the metric.\<close>

definition recorded :: "yielded \<Rightarrow> move \<Rightarrow> bool" where
  "recorded z m \<longleftrightarrow> cm_luid (mv_rival m) = yl_luid z \<and> cm_metric (mv_rival m) = yl_metric z \<and> cm_auto (mv_rival m) = yl_auto z"

lemma take_fold:
  assumes "fold (take_step ok) ms (h, ys, ifs) = (h', ys', ifs')"
  shows "\<exists>zs f. ys' = ys @ zs \<and> ifs' = map f ifs \<and> (\<forall>i. \<exists>m a. f i = i\<lparr>if_auto := a, if_metric := m\<rparr>) \<and>
    (\<forall>i. if_luid i \<notin> yl_luid ` set zs \<longrightarrow> f i = i) \<and> (\<forall>z\<in>set zs. \<exists>m\<in>set ms. recorded z m)"
  using assms
proof (induction ms arbitrary: h ys ifs)
  case Nil
  have "\<exists>m a. i = i\<lparr>if_auto := a, if_metric := m\<rparr>" for i :: iface_row by (intro exI [of _ "if_metric i"] exI [of _ "if_auto i"]) simp
  with Nil show ?case by (intro exI [of _ "[]"] exI [of _ id]) simp
next
  case (Cons m ms)
  let ?r = "mv_rival m"
  show ?case
  proof (cases "ok (cm_luid ?r)")
    case True
    define y where "y = \<lparr>yl_luid = cm_luid ?r, yl_name = cm_name ?r, yl_metric = cm_metric ?r, yl_auto = cm_auto ?r\<rparr>"
    define g where "g i = (if if_luid i = cm_luid ?r then i\<lparr>if_auto := False, if_metric := mv_metric m\<rparr> else i)" for i :: iface_row
    have "take_step ok m (h, ys, ifs) = (h, ys @ [y], map g ifs)"
      using True by (simp add: take_step_def Let_def setInterfaceMetric_def y_def g_def [abs_def])
    then obtain zs f where f: "ys' = (ys @ [y]) @ zs" "ifs' = map f (map g ifs)" "\<forall>i. \<exists>m a. f i = i\<lparr>if_auto := a, if_metric := m\<rparr>"
      "\<forall>i. if_luid i \<notin> yl_luid ` set zs \<longrightarrow> f i = i" "\<forall>z\<in>set zs. \<exists>m\<in>set ms. recorded z m"
      using Cons.IH [of h "ys @ [y]" "map g ifs"] Cons.prems by auto
    have "\<exists>m a. f (g i) = i\<lparr>if_auto := a, if_metric := m\<rparr>" for i
      using spec [OF f(3), of "g i"] by (auto simp: g_def) blast+
    moreover have "recorded y m" by (simp add: y_def recorded_def)
    ultimately show ?thesis
      using f by (intro exI [of _ "y # zs"] exI [of _ "f \<circ> g"]) (auto simp: g_def y_def)
  next
    case False
    then have "take_step ok m (h, ys, ifs) = (cm_name ?r, ys, ifs)" by (simp add: take_step_def Let_def setInterfaceMetric_def)
    then show ?thesis using Cons.IH [of "cm_name ?r" ys ifs] Cons.prems by auto
  qed
qed

definition put_back :: "yielded \<Rightarrow> iface_row \<Rightarrow> iface_row" where
  "put_back y i = (if if_luid i = yl_luid y then i\<lparr>if_auto := yl_auto y, if_metric := yl_metric y\<rparr> else i)"

lemma yieldBack_rows: "snd (yieldBack (\<lambda>_. True) d ifs) = map (fold put_back (dv_yielded d)) ifs"
proof -
  have "fold (\<lambda>y ifs. snd (setInterfaceMetric (\<lambda>_. True) (yl_luid y) (yl_metric y) (yl_auto y) ifs)) ys ifs = map (fold put_back ys) ifs" for ys
    by (induction ys arbitrary: ifs) (simp_all add: setInterfaceMetric_def put_back_def [abs_def] comp_def)
  then show ?thesis by (simp add: yieldBack_def)
qed

lemma fold_put_back:
  assumes "\<And>y. y \<in> set ys \<Longrightarrow> yl_luid y = if_luid i \<Longrightarrow> yl_metric y = m \<and> yl_auto y = a"
  shows "fold put_back ys i = (if if_luid i \<in> yl_luid ` set ys then i\<lparr>if_auto := a, if_metric := m\<rparr> else i)"
  using assms
proof (induction ys arbitrary: i)
  case (Cons y ys)
  have "if_luid (put_back y i) = if_luid i" by (simp add: put_back_def)
  with Cons.IH [of "put_back y i"] Cons.prems show ?case by (auto simp: put_back_def)
qed simp

text \<open>
C25: the route is given back. However many rivals were moved for it, and whichever of them would not be moved, giving
the route back leaves every interface of the machine with the metric it had, and with Windows choosing it where it
did before.
\<close>

theorem multicast_route_is_given_back:
  assumes "takeMulticastRoute ok name routes d ifs = (r, d', ifs')" and "dv_yielded d = []" and "distinct (map if_luid ifs)"
  shows "yieldBack (\<lambda>_. True) d' ifs' = (d\<lparr>dv_yielded := []\<rparr>, ifs)"
proof (cases "contest (multicastClaims name ifs routes) (dv_luid d)")
  case None
  then show ?thesis using assms by (simp add: takeMulticastRoute_def yieldBack_def)
next
  case (Some found)
  obtain ms h where found: "contest (multicastClaims name ifs routes) (dv_luid d) = Some (ms, h)" using Some by (cases found) simp
  obtain h' ys where run: "fold (take_step ok) ms (h, [], ifs) = (h', ys, ifs')" and d': "d' = d\<lparr>dv_yielded := ys\<rparr>"
    using assms(1,2) found by (auto simp: takeMulticastRoute_def split: prod.splits)
  obtain zs f where "ys = [] @ zs" and f: "ifs' = map f ifs" "\<forall>i. \<exists>m a. f i = i\<lparr>if_auto := a, if_metric := m\<rparr>"
    "\<forall>i. if_luid i \<notin> yl_luid ` set zs \<longrightarrow> f i = i" "\<forall>z\<in>set zs. \<exists>m\<in>set ms. recorded z m"
    using take_fold [OF run] by blast
  then have zs: "zs = ys" by simp
  have rival: "mv_rival m \<in> set (multicastClaims name ifs routes)" if "m \<in> set ms" for m
  proof -
    obtain mine where "fold (contest_step mine (dv_luid d)) (multicastClaims name ifs routes) ([], []) = (ms, h)"
      using found by (auto simp: contest_def split: option.splits)
    from contest_rivals [OF this] that show ?thesis by auto
  qed
  have old: "yl_metric z = if_metric i \<and> yl_auto z = if_auto i" if z: "z \<in> set ys" and i: "i \<in> set ifs" "yl_luid z = if_luid i" for z i
  proof -
    obtain m where m: "m \<in> set ms" "recorded z m" using f(4) z unfolding zs by blast
    obtain j where j: "live_iface ifs (cm_luid (mv_rival m)) = Some j" "cm_metric (mv_rival m) = if_metric j" "cm_auto (mv_rival m) = if_auto j"
      using multicastClaims_row [OF rival [OF m(1)]] .
    then have "j = i" using live_ifaceD [OF j(1)] m(2) i assms(3) by (auto simp: recorded_def distinct_map inj_on_def)
    then show ?thesis using j m(2) by (simp add: recorded_def)
  qed
  have "fold put_back ys (f i) = i" if i: "i \<in> set ifs" for i
  proof -
    obtain m a where fi: "f i = i\<lparr>if_auto := a, if_metric := m\<rparr>" using f(2) by blast
    have "fold put_back ys (f i) = (if if_luid (f i) \<in> yl_luid ` set ys then (f i)\<lparr>if_auto := if_auto i, if_metric := if_metric i\<rparr> else f i)"
      by (rule fold_put_back) (use old [OF _ i] in \<open>simp add: fi\<close>)
    then show ?thesis using spec [OF f(3), of i] zs by (auto simp: fi split: if_splits)
  qed
  then have "map (fold put_back ys) ifs' = ifs" unfolding f(1) by (simp add: map_idI)
  then show ?thesis
    using yieldBack_rows [of d' ifs'] assms(2) by (simp add: d' yieldBack_def prod_eq_iff)
qed

section \<open>Winning it\<close>

lemma live_iface_map:
  assumes "\<And>i. if_luid (f i) = if_luid i \<and> if_connected (f i) = if_connected i"
  shows "live_iface (map f ifs) l = map_option f (live_iface ifs l)"
proof -
  have "find (\<lambda>i. if_luid i = l) (map f xs) = map_option f (find (\<lambda>i. if_luid i = l) xs)" for xs
    by (induction xs) (simp_all add: assms)
  moreover have "filter if_connected (map f ifs) = map f (filter if_connected ifs)"
    by (simp add: filter_map comp_def assms)
  ultimately show ?thesis by (simp add: live_iface_def rev_map)
qed

text \<open>A rival that is at least as good, and what it takes to be better.\<close>

definition rivals :: "mclaim \<Rightarrow> luid \<Rightarrow> mclaim \<Rightarrow> bool" where
  "rivals mine ours c \<longleftrightarrow> cm_luid c \<noteq> ours \<and> \<not> claim_total mine < claim_total c"

definition outbid :: "mclaim \<Rightarrow> mclaim \<Rightarrow> move" where
  "outbid mine c = \<lparr>mv_rival = c, mv_metric = claim_total mine - cm_route c + 1\<rparr>"

lemma contest_moves:
  "fst (fold (contest_step mine ours) cs (ms, h)) = ms @ map (outbid mine) (filter (\<lambda>c. rivals mine ours c \<and> \<not> cm_internet c) cs)"
  by (induction cs arbitrary: ms h) (auto simp: contest_step_def rivals_def outbid_def)

lemma contest_held:
  assumes "\<And>c. c \<in> set cs \<Longrightarrow> cm_name c \<noteq> []"
  shows "snd (fold (contest_step mine ours) cs (ms, h)) = [] \<longleftrightarrow> h = [] \<and> (\<forall>c\<in>set cs. rivals mine ours c \<longrightarrow> \<not> cm_internet c)"
proof -
  have keep: "snd (fold (contest_step mine ours) cs (ms, h)) \<noteq> []" if "h \<noteq> []" "\<And>c. c \<in> set cs \<Longrightarrow> cm_name c \<noteq> []" for cs ms h
    using that by (induction cs arbitrary: ms h) (auto simp: contest_step_def)
  show ?thesis
    using assms
  proof (induction cs arbitrary: ms h)
    case (Cons c cs)
    then show ?case using keep [of "cm_name c" cs ms] by (auto simp: contest_step_def rivals_def)
  qed simp
qed

definition moved_row :: "move \<Rightarrow> iface_row \<Rightarrow> iface_row" where
  "moved_row m i = (if if_luid i = cm_luid (mv_rival m) then i\<lparr>if_auto := False, if_metric := mv_metric m\<rparr> else i)"

lemma moves_taken:
  assumes "fold (take_step (\<lambda>_. True)) ms (h, ys, ifs) = (h', ys', ifs')"
  shows "h' = h \<and> ifs' = map (fold moved_row ms) ifs"
proof -
  have "\<exists>ys'. fold (take_step (\<lambda>_. True)) ms (h, ys, ifs) = (h, ys', map (fold moved_row ms) ifs)"
  proof (induction ms arbitrary: ys ifs)
    case (Cons m ms)
    obtain ys1 where "take_step (\<lambda>_. True) m (h, ys, ifs) = (h, ys1, map (moved_row m) ifs)"
      by (simp add: take_step_def setInterfaceMetric_def moved_row_def [abs_def] Let_def)
    then show ?case using Cons.IH [of ys1 "map (moved_row m) ifs"] by (simp add: comp_def)
  qed simp
  then show ?thesis using assms by auto
qed

lemma moved_rows:
  assumes "distinct (map (cm_luid \<circ> mv_rival) ms)"
  shows "fold moved_row ms i =
    (case find (\<lambda>m. cm_luid (mv_rival m) = if_luid i) ms of None \<Rightarrow> i | Some m \<Rightarrow> i\<lparr>if_auto := False, if_metric := mv_metric m\<rparr>)"
  using assms
proof (induction ms arbitrary: i)
  case (Cons m ms)
  have same: "if_luid (moved_row m i) = if_luid i" by (simp add: moved_row_def)
  have "find (\<lambda>m'. cm_luid (mv_rival m') = cm_luid (mv_rival m)) ms = None"
    using Cons.prems by (auto simp: find_None_iff image_iff)
  then show ?case using Cons.IH [of "moved_row m i"] Cons.prems by (auto simp: same) (auto simp: moved_row_def split: option.splits)
qed simp

lemma moved_row_place: "if_luid (fold moved_row ms i) = if_luid i \<and> if_connected (fold moved_row ms i) = if_connected i"
proof (induction ms arbitrary: i)
  case (Cons m ms)
  then show ?case by (simp add: moved_row_def)
qed simp

text \<open>One past ours: the subtraction does not wrap, and neither does the sum.\<close>

lemma outbid_total:
  assumes "rivals mine ours c" "unat (cm_route c) + unat (cm_metric c) < 2 ^ 32" "unat (claim_total mine) < 2 ^ 32 - 1"
  shows "unat (cm_route c) + unat (mv_metric (outbid mine c)) = unat (claim_total mine) + 1"
proof -
  have "unat (claim_total c) = unat (cm_route c) + unat (cm_metric c)"
    using assms(2) unat_add_lem [of "cm_route c" "cm_metric c"] by (simp add: claim_total_def)
  moreover have "unat (claim_total c) \<le> unat (claim_total mine)" using assms(1) by (simp add: rivals_def not_less word_le_nat_alt)
  ultimately have le: "unat (cm_route c) \<le> unat (claim_total mine)" by simp
  then have sub: "unat (claim_total mine - cm_route c) = unat (claim_total mine) - unat (cm_route c)"
    by (simp add: unat_sub word_le_nat_alt)
  have "unat (claim_total mine - cm_route c) + unat (1 :: 32 word) < 2 ^ 32" using sub assms(3) by simp
  then have "unat (claim_total mine - cm_route c + 1) = unat (claim_total mine) - unat (cm_route c) + 1"
    using unat_add_lem [of "claim_total mine - cm_route c" 1] sub by simp
  then show ?thesis using le by (simp add: outbid_def)
qed

text \<open>The claims are the multicast routes of interfaces that are up.\<close>

definition claim_of :: "(luid \<Rightarrow> string) \<Rightarrow> luid \<Rightarrow> route_row \<Rightarrow> iface_row \<Rightarrow> mclaim" where
  "claim_of name internet r i =
     \<lparr>cm_luid = rt_luid r, cm_name = name (rt_luid r), cm_route = rt_metric r, cm_metric = if_metric i, cm_auto = if_auto i,
      cm_internet = (rt_luid r = internet)\<rparr>"

lemma multicastClaims_iff:
  "c \<in> set (multicastClaims name ifs routes) \<longleftrightarrow>
     (\<exists>r i. r \<in> set routes \<and> rt_prefix r = multicastRoute \<and> live_iface ifs (rt_luid r) = Some i \<and>
        c = claim_of name (fst (best_internet ifs routes)) r i)"
  by (auto simp: multicastClaims_def Let_def map_filter_def claim_of_def image_iff split: option.splits if_splits)

lemma multicastClaims_distinct:
  assumes "distinct (map rt_luid (filter (\<lambda>r. rt_prefix r = multicastRoute) routes))"
  shows "distinct (map cm_luid (multicastClaims name ifs routes))"
proof -
  let ?f = "\<lambda>g r. case live_iface ifs (rt_luid r) of None \<Rightarrow> None | Some i \<Rightarrow> if rt_prefix r \<noteq> multicastRoute then None else Some (g r i)"
  have "set (map cm_luid (List.map_filter (?f (claim_of name l)) rs)) \<subseteq> rt_luid ` set (filter (\<lambda>r. rt_prefix r = multicastRoute) rs)" for rs l
    by (auto simp: map_filter_def claim_of_def split: option.splits if_splits)
  then have "distinct (map rt_luid (filter (\<lambda>r. rt_prefix r = multicastRoute) rs)) \<Longrightarrow> distinct (map cm_luid (List.map_filter (?f (claim_of name l)) rs))" for rs l
  proof (induction rs)
    case (Cons r rs)
    then show ?case by (auto simp: List.map_filter_simps claim_of_def split: option.splits if_splits)
  qed (simp add: List.map_filter_simps)
  then show ?thesis using assms unfolding multicastClaims_def claim_of_def Let_def by blast
qed

lemma find_unique: "distinct (map f xs) \<Longrightarrow> x \<in> set xs \<Longrightarrow> find (\<lambda>y. f y = f x) xs = Some x"
  by (induction xs) (auto simp: image_iff)

text \<open>What the contest decides, on the claims alone: with nobody left in the way, every rival ends up behind.\<close>

definition new_metric :: "move list \<Rightarrow> mclaim \<Rightarrow> u32" where
  "new_metric ms c = (case find (\<lambda>m. cm_luid (mv_rival m) = cm_luid c) ms of None \<Rightarrow> cm_metric c | Some m \<Rightarrow> mv_metric m)"

lemma contest_won:
  assumes found: "contest claims ours = Some (ms, [])" and distinct: "distinct (map cm_luid claims)"
    and names: "\<And>x. x \<in> set claims \<Longrightarrow> cm_name x \<noteq> []" and c0: "c0 \<in> set claims" "cm_luid c0 = ours"
    and c: "c \<in> set claims" "cm_luid c \<noteq> ours" "unat (cm_route c) + unat (cm_metric c) < 2 ^ 32"
    and T: "unat (cm_route c0) + unat (cm_metric c0) < 2 ^ 32 - 1"
  shows "distinct (map (cm_luid \<circ> mv_rival) ms)" "find (\<lambda>m. cm_luid (mv_rival m) = ours) ms = None"
    "unat (cm_route c0) + unat (cm_metric c0) < unat (cm_route c) + unat (new_metric ms c)"
proof -
  have "find (\<lambda>y. cm_luid y = cm_luid c0) (rev claims) = Some c0"
    using find_unique [of cm_luid "rev claims" c0] distinct c0 by (simp add: rev_map [symmetric])
  then have fold: "fold (contest_step c0 ours) claims ([], []) = (ms, [])" using found c0(2) by (simp add: contest_def)
  have ms: "ms = map (outbid c0) (filter (\<lambda>c. rivals c0 ours c \<and> \<not> cm_internet c) claims)"
    using contest_moves [of c0 ours claims "[]" "[]"] fold by simp
  have "map (cm_luid \<circ> mv_rival) ms = map cm_luid (filter (\<lambda>c. rivals c0 ours c \<and> \<not> cm_internet c) claims)"
    by (simp add: ms outbid_def comp_def)
  then show ms_distinct: "distinct (map (cm_luid \<circ> mv_rival) ms)" using distinct distinct_map_filter by metis
  have rival: "mv_rival x \<in> set claims \<and> rivals c0 ours (mv_rival x)" if "x \<in> set ms" for x
    using that by (auto simp: ms outbid_def)
  then show "find (\<lambda>m. cm_luid (mv_rival m) = ours) ms = None" by (auto simp: find_None_iff rivals_def)
  have total: "unat (claim_total c0) = unat (cm_route c0) + unat (cm_metric c0)"
    using T unat_add_lem [of "cm_route c0" "cm_metric c0"] by (simp add: claim_total_def)
  show "unat (cm_route c0) + unat (cm_metric c0) < unat (cm_route c) + unat (new_metric ms c)"
  proof (cases "rivals c0 ours c")
    case True
    then have "outbid c0 c \<in> set ms" using c(1) contest_held [OF names, of claims c0 ours "[]" "[]"] fold by (auto simp: ms)
    then have "find (\<lambda>x. cm_luid (mv_rival x) = cm_luid c) ms = Some (outbid c0 c)"
      using find_unique [OF ms_distinct] by (fastforce simp: outbid_def)
    then show ?thesis using outbid_total [OF True c(3)] T total by (simp add: new_metric_def)
  next
    case False
    have "c = mv_rival x" if "x \<in> set ms" "cm_luid (mv_rival x) = cm_luid c" for x
      using that rival [OF that(1)] c(1) distinct by (auto simp: distinct_map inj_on_def)
    then have "find (\<lambda>x. cm_luid (mv_rival x) = cm_luid c) ms = None" using False rival by (fastforce simp: find_None_iff)
    moreover have "unat (claim_total c0) < unat (claim_total c)" using False c(2) by (simp add: rivals_def word_less_nat_alt)
    ultimately show ?thesis
      using total c(3) unat_add_lem [of "cm_route c" "cm_metric c"] by (simp add: claim_total_def new_metric_def)
  qed
qed


section \<open>A small machine\<close>

definition toy_iface :: "luid \<Rightarrow> u32 \<Rightarrow> bool \<Rightarrow> iface_row" where
  "toy_iface l metric auto = \<lparr>if_luid = l, if_connected = True, if_metric = metric, if_auto = auto\<rparr>"

definition toy_ifaces :: "iface_row list" where
  "toy_ifaces = [toy_iface 1 5 True, toy_iface 2 1 False, toy_iface 3 25 True]"

definition toy_routes :: "route_row list" where
  "toy_routes = map (\<lambda>l. \<lparr>rt_luid = l, rt_prefix = multicastRoute, rt_metric = 256\<rparr>) [1, 2, 3] @
     [\<lparr>rt_luid = 3, rt_prefix = internetRoute, rt_metric = 0\<rparr>]"

definition toy_tun :: tun_device where
  "toy_tun = \<lparr>dv_luid = 1, dv_yielded = [], dv_closing = False, dv_session = True\<rparr>"

lemmas toy_machine = toy_iface_def toy_ifaces_def toy_routes_def toy_tun_def multicastRoute_def internetRoute_def

text \<open>Another virtual network sits on the same metric; it is moved to two.\<close>

lemma toy_prefers:
  "\<exists>d'. PreferForMulticast (\<lambda>_. True) (\<lambda>_. ''x'') toy_routes True toy_tun toy_ifaces =
     (Some [], d', [toy_iface 1 1 False, toy_iface 2 2 False, toy_iface 3 25 True])"
  by (simp add: PreferForMulticast_def yieldBack_def setInterfaceMetric_def takeMulticastRoute_def contest_def contest_step_def take_step_def
      claim_total_def multicastClaims_def best_internet_def live_iface_def map_filter_def preferredMetric_def Let_def toy_machine)


theorem multicast_route_is_given_back_witness:
  "let (r, d', ifs') = takeMulticastRoute (\<lambda>_. True) (\<lambda>_. ''x'') toy_routes toy_tun toy_ifaces
   in yieldBack (\<lambda>_. True) d' ifs' = (toy_tun, toy_ifaces)"
proof -
  obtain r d' ifs' where run: "takeMulticastRoute (\<lambda>_. True) (\<lambda>_. ''x'') toy_routes toy_tun toy_ifaces = (r, d', ifs')"
    by (metis prod_cases3)
  from multicast_route_is_given_back [OF this] show ?thesis unfolding run by (simp add: toy_machine)
qed

section \<open>Opening, reading, writing and closing\<close>

datatype tun_error = ErrNeedsAdmin | ErrMissingDriver | ErrTun

datatype win_error = ERROR_ACCESS_DENIED | ERROR_MOD_NOT_FOUND | ERROR_FILE_NOT_FOUND | ERROR_BUFFER_OVERFLOW | OtherWindowsError

definition create_failure :: "win_error \<Rightarrow> tun_error" where
  "create_failure e =
     (case e of
        ERROR_ACCESS_DENIED \<Rightarrow> ErrNeedsAdmin
      | ERROR_MOD_NOT_FOUND \<Rightarrow> ErrMissingDriver
      | ERROR_FILE_NOT_FOUND \<Rightarrow> ErrMissingDriver
      | _ \<Rightarrow> ErrTun)"

text \<open>
  What Windows answers while an adapter is opened: the adapter's id or why there is none, whether it takes
  the address, whether a session starts. Whether there is an adapter of this name is \<open>present\<close>; one that
  was left over goes first. The MTU is set if it can be.
\<close>

record open_answers =
  oa_create :: "win_error + luid"
  oa_address :: bool
  oa_session :: bool

definition tun_Open :: "open_answers \<Rightarrow> bool \<Rightarrow> (tun_error + tun_device) \<times> bool" where
  "tun_Open a present =
     (case oa_create a of
        Inl e \<Rightarrow> (Inl (create_failure e), False)
      | Inr l \<Rightarrow>
          if \<not> oa_address a then (Inl ErrTun, False)
          else if \<not> oa_session a then (Inl ErrTun, False)
          else (Inr \<lparr>dv_luid = l, dv_yielded = [], dv_closing = False, dv_session = True\<rparr>, True))"

lemma tun_Open_leaves_nothing: "snd (tun_Open a present) \<longleftrightarrow> (\<exists>d. fst (tun_Open a present) = Inr d)"
  by (simp add: tun_Open_def split: sum.splits)

datatype receive_answer = PacketReceived bytes | ERROR_NO_MORE_ITEMS | ERROR_HANDLE_EOF | ReceiveFailed

datatype 'a tun_turn = TunReturn 'a | TunClosed | TunFailed | TunCancelled | TunWait

text \<open>One round of \<open>Read\<close>, with the closing flag as it is then, and one slice of its wait.\<close>

definition Read_turn :: "bool \<Rightarrow> receive_answer \<Rightarrow> bytes tun_turn" where
  "Read_turn closing a =
     (if closing then TunClosed
      else case a of
             PacketReceived packet \<Rightarrow> TunReturn packet
           | ERROR_NO_MORE_ITEMS \<Rightarrow> TunWait
           | ERROR_HANDLE_EOF \<Rightarrow> TunClosed
           | ReceiveFailed \<Rightarrow> TunFailed)"

definition wait_turn :: "bool \<Rightarrow> bool \<Rightarrow> bool option \<Rightarrow> unit tun_turn" where
  "wait_turn closing cancelled answer =
     (if closing then TunClosed
      else if cancelled then TunCancelled
      else case answer of None \<Rightarrow> TunFailed | Some True \<Rightarrow> TunReturn () | Some False \<Rightarrow> TunWait)"

datatype tun_write = TunWritten | TunDropped | TunWriteClosed | TunWriteFailed

definition tun_Write :: "bool \<Rightarrow> win_error option \<Rightarrow> tun_write" where
  "tun_Write closing failed =
     (if closing then TunWriteClosed
      else case failed of
             Some ERROR_BUFFER_OVERFLOW \<Rightarrow> TunDropped
           | Some _ \<Rightarrow> TunWriteFailed
           | None \<Rightarrow> TunWritten)"

text \<open>
  The lock around the driver. A caller holds the lock for reading from before it looks at the closing flag
  until it returns; \<open>tl_inside\<close> counts those that found the flag unset and are in the driver. Closing sets
  the flag, waits for all of them, and ends the session under the lock for writing.
\<close>

record tun_lock =
  tl_readers :: nat
  tl_inside :: nat
  tl_closing :: bool
  tl_locked :: bool
  tl_session :: bool

definition tun_open_lock :: tun_lock where
  "tun_open_lock = \<lparr>tl_readers = 0, tl_inside = 0, tl_closing = False, tl_locked = False, tl_session = True\<rparr>"

inductive tun_step :: "tun_lock \<Rightarrow> tun_lock \<Rightarrow> bool" where
  tun_enter: "\<not> tl_locked s \<Longrightarrow> tun_step s (s\<lparr>tl_readers := Suc (tl_readers s)\<rparr>)"
| tun_call: "tl_readers s = Suc n \<Longrightarrow> \<not> tl_closing s \<Longrightarrow> tun_step s (s\<lparr>tl_readers := n, tl_inside := Suc (tl_inside s)\<rparr>)"
| tun_refuse: "tl_readers s = Suc n \<Longrightarrow> tl_closing s \<Longrightarrow> tun_step s (s\<lparr>tl_readers := n\<rparr>)"
| tun_again: "tl_inside s = Suc n \<Longrightarrow> tun_step s (s\<lparr>tl_inside := n, tl_readers := Suc (tl_readers s)\<rparr>)"
| tun_leave: "tl_inside s = Suc n \<Longrightarrow> tun_step s (s\<lparr>tl_inside := n\<rparr>)"
| tun_close: "\<not> tl_closing s \<Longrightarrow> tun_step s (s\<lparr>tl_closing := True\<rparr>)"
| tun_lock: "tl_closing s \<Longrightarrow> tl_session s \<Longrightarrow> \<not> tl_locked s \<Longrightarrow> tl_readers s = 0 \<Longrightarrow> tl_inside s = 0 \<Longrightarrow> tun_step s (s\<lparr>tl_locked := True\<rparr>)"
| tun_end: "tl_locked s \<Longrightarrow> tun_step s (s\<lparr>tl_session := False, tl_locked := False\<rparr>)"

definition tun_inv :: "tun_lock \<Rightarrow> bool" where
  "tun_inv s \<longleftrightarrow> (tl_locked s \<longrightarrow> tl_readers s = 0 \<and> tl_inside s = 0 \<and> tl_closing s) \<and>
     (\<not> tl_session s \<longrightarrow> tl_closing s \<and> tl_inside s = 0)"

lemma tun_step_inv: "tun_step s s' \<Longrightarrow> tun_inv s \<Longrightarrow> tun_inv s'"
  by (induction rule: tun_step.induct) (auto simp: tun_inv_def)

interpretation tun_runs: invariant_system "\<lambda>s. s = tun_open_lock" tun_step tun_inv
  by unfold_locales (auto simp: tun_open_lock_def tun_inv_def dest: tun_step_inv)

text \<open>No call is ever inside the driver when its session is gone.\<close>

lemma driver_not_freed_under_a_call:
  "tun_step\<^sup>*\<^sup>* tun_open_lock s \<Longrightarrow> tl_inside s \<noteq> 0 \<Longrightarrow> tl_session s"
  using tun_runs.inv_steps [of tun_open_lock s] by (auto simp: tun_inv_def tun_open_lock_def)

section \<open>The firewall\<close>

text \<open>
  The rules that carry the program's name, as direction and subnet. \<^verbatim>\<open>netsh\<close> deletes all of them or fails,
  and adds one or fails: \<open>deleted\<close> and \<open>added\<close> say which.
\<close>

definition removeFirewallRules :: "bool \<Rightarrow> (string \<times> string) list \<Rightarrow> bool \<times> (string \<times> string) list" where
  "removeFirewallRules deleted rules = (if deleted then (True, []) else (False, rules))"

fun add_rules :: "(string \<Rightarrow> bool) \<Rightarrow> string \<Rightarrow> string list \<Rightarrow> (string \<times> string) list \<Rightarrow> bool \<times> (string \<times> string) list" where
  "add_rules added subnet [] rules = (True, rules)"
| "add_rules added subnet (dir # dirs) rules =
     (if added dir then add_rules added subnet dirs (rules @ [(dir, subnet)]) else (False, rules))"

definition AllowSubnet :: "bool \<Rightarrow> (string \<Rightarrow> bool) \<Rightarrow> string \<Rightarrow> (string \<times> string) list \<Rightarrow> bool \<times> (string \<times> string) list" where
  "AllowSubnet deleted added subnet rules =
     add_rules added subnet [''in'', ''out''] (snd (removeFirewallRules deleted rules))"

definition BlockSubnet :: "bool \<Rightarrow> (string \<times> string) list \<Rightarrow> (string \<times> string) list" where
  "BlockSubnet deleted rules = snd (removeFirewallRules deleted rules)"

text \<open>Connecting again and again leaves one pair of rules, for the subnet of the last group.\<close>

lemma firewall_rules_do_not_pile_up:
  "AllowSubnet True added subnet (snd (AllowSubnet True added' subnet' rules)) = AllowSubnet True added subnet rules"
  "AllowSubnet True (\<lambda>_. True) subnet rules = (True, [(''in'', subnet), (''out'', subnet)])"
  "BlockSubnet True (snd (AllowSubnet deleted added subnet rules)) = []"
  by (simp_all add: AllowSubnet_def BlockSubnet_def removeFirewallRules_def)

end
