(* ===== verification/Core_Links.thy ===== *)
theory Core_Links
  imports Core_State Adapter
begin

text \<open>
  The core and its peers: \<^verbatim>\<open>daemon/core/network.go\<close> and the part of \<^verbatim>\<open>pump.go\<close> that brings the adapter up.
  The rows of the peer list, the links behind them, the public address of this machine and what the
  server says over the realtime channel. A turn of each loop is one definition; what the operating
  system, the server and STUN answer are arguments.
\<close>

section \<open>Names and addresses\<close>

text \<open>A Go string is its bytes.\<close>

definition text_bytes :: "string \<Rightarrow> bytes" where
  "text_bytes s = map (\<lambda>c. of_nat (code c)) s"

definition bytes_text :: "bytes \<Rightarrow> string" where
  "bytes_text bs = map (\<lambda>b. char_of (unat b)) bs"

record net =
  nt_env :: env
  nt_addr :: "string \<Rightarrow> addr option"
  nt_key :: "string \<Rightarrow> bytes option"

definition endpointOf :: "api_peer \<Rightarrow> api_endpoint" where
  "endpointOf p =
     (case ap_Endpoint p of None \<Rightarrow> \<lparr>ep_Protocol = [], ep_Address = [], ep_Port = 0\<rparr> | Some ep \<Rightarrow> ep)"

definition parseEndpoint :: "(string \<Rightarrow> addr option) \<Rightarrow> api_endpoint \<Rightarrow> addrport \<times> bool" where
  "parseEndpoint parse ep =
     (case parse (ep_Address ep) of
        None \<Rightarrow> (no_addrport, False)
      | Some a \<Rightarrow> if ep_Port ep \<le> 0 \<or> 65535 < ep_Port ep then (no_addrport, False) else ((a, of_int (ep_Port ep)), True))"

section \<open>Links\<close>

definition linkPeer :: "net \<Rightarrow> api_peer \<Rightarrow> ('hs, 'cs) core \<Rightarrow> ('hs, 'cs) core" where
  "linkPeer net p c =
     (case c_mesh c of
        None \<Rightarrow> c
      | Some r \<Rightarrow>
          (case nt_addr net (ap_VirtualIP p) of
             None \<Rightarrow> c
           | Some ip \<Rightarrow>
               (case nt_key net (ap_TransportKey p) of
                  None \<Rightarrow> c
                | Some key \<Rightarrow>
                    upd_mesh r (\<lambda>m. snd (AddPeer (nt_env net) (text_bytes (ap_DeviceID p)) (text_bytes (ap_Nickname p)) ip key
                      (fst (parseEndpoint (nt_addr net) (endpointOf p))) m)) c)))"

text \<open>
  The socket may not open. When it does, it is linked to everyone who is already here, and the
  adapter is brought up next to it.
\<close>

definition startNetwork :: "net \<Rightarrow> bool \<Rightarrow> active_session \<Rightarrow> api_peer list \<Rightarrow> ('hs, 'cs) core \<Rightarrow> ('hs, 'cs) core" where
  "startNetwork net opened session peers c =
     (if \<not> opened then c
      else
        let ip = (case nt_addr net (as_virtualIP session) of None \<Rightarrow> NoAddr | Some a \<Rightarrow> a);
            r = length (c_meshes c);
            c = c\<lparr>c_meshes := c_meshes c @ [New (text_bytes (id_DeviceID (c_identity c))) ip (id_Transport (c_identity c)) (c_packets c)],
                  c_mesh := Some r\<rparr>;
            c = fold (linkPeer net) peers c
        in go_task (StartAdapter r (as_virtualIP session) (as_subnet session)) c)"

definition adapterProblem :: "tun_error \<Rightarrow> string" where
  "adapterProblem e =
     (case e of
        ErrNeedsAdmin \<Rightarrow> ''Creating the network adapter needs administrator rights. Restart 192168 as an administrator.''
      | ErrMissingDriver \<Rightarrow> ''The network driver is missing. Reinstalling 192168 should put it back.''
      | ErrTun \<Rightarrow> ''Could not create the network adapter, so games will not see the other players.'')"

definition discoveryHeldBy :: "string \<Rightarrow> string" where
  "discoveryHeldBy adapter =
     adapter @ '' is holding this machine's discovery route, so games may not list each other. Turn it off and reconnect.''"

text \<open>The adapter opens or not; \<open>held\<close> names another one that keeps the discovery route.\<close>

definition startAdapter ::
  "tun_error option \<Rightarrow> string \<Rightarrow> string \<Rightarrow> string \<Rightarrow> ('hs, 'cs) core \<Rightarrow> ('hs, 'cs) core" where
  "startAdapter failed held virtualIP subnet c =
     (case adapterAddress virtualIP subnet of
        Inl _ \<Rightarrow> c
      | Inr address \<Rightarrow>
          (case failed of
             Some e \<Rightarrow> setMessage (adapterProblem e) MessageError c
           | None \<Rightarrow>
               let c = c\<lparr>c_devices := c_devices c @ [address], c_device := Some (length (c_devices c))\<rparr>
               in if held \<noteq> [] then setMessage (discoveryHeldBy held) MessageWarning c else c))"

section \<open>The peer list\<close>

definition new_view :: "string \<Rightarrow> string \<Rightarrow> string \<Rightarrow> peer_state \<Rightarrow> bool \<Rightarrow> peer_view" where
  "new_view d nickname ip state owner =
     \<lparr>pv_DeviceID = d, pv_Nickname = nickname, pv_VirtualIP = ip, pv_State = state, pv_LatencyMS = None, pv_Reason = NoReason,
      pv_IsOwner = owner, pv_PacketsSent = 0, pv_PacketsReceived = 0\<rparr>"

definition addPeer :: "net \<Rightarrow> api_peer \<Rightarrow> ('hs, 'cs) core \<Rightarrow> ('hs, 'cs) core" where
  "addPeer net p c =
     (let d = ap_DeviceID p;
          known = (lookup (c_peers c) d \<noteq> None);
          view = (case lookup (c_peers c) d of None \<Rightarrow> new_view d [] [] PeerConnecting False | Some v \<Rightarrow> v);
          view = view\<lparr>pv_Nickname := ap_Nickname p, pv_VirtualIP := ap_VirtualIP p,
                      pv_State := (if pv_State view = PeerOffline then PeerConnecting else pv_State view)\<rparr>;
          c = c\<lparr>c_peers := store d view (c_peers c)\<rparr>;
          state = snapshot c;
          c = (if known then c else emit (PeerAdded view) c)
      in linkPeer net p (emit (StateChanged state) c))"

text \<open>The rows of the group: members that are known keep their link's state, the others are away, and strangers go.\<close>

definition member_row :: "member \<Rightarrow> (string, peer_view) gomap \<Rightarrow> (string, peer_view) gomap" where
  "member_row m peers =
     (case lookup peers (mb_DeviceID m) of
        Some v \<Rightarrow> store (mb_DeviceID m) (v\<lparr>pv_Nickname := mb_Nickname m, pv_VirtualIP := mb_VirtualIP m,
                    pv_IsOwner := (mb_Role m = RoleOwner)\<rparr>) peers
      | None \<Rightarrow> store (mb_DeviceID m)
                 (new_view (mb_DeviceID m) (mb_Nickname m) (mb_VirtualIP m) PeerOffline (mb_Role m = RoleOwner)) peers)"

definition loadMembers :: "member list answers \<Rightarrow> string \<Rightarrow> ('hs, 'cs) core \<Rightarrow> ('hs, 'cs) core" where
  "loadMembers A g c =
     (case withClient A c of
        (Inl _, c) \<Rightarrow> c
      | (Inr members, c) \<Rightarrow>
          if \<forall>s. c_session c = Some s \<longrightarrow> as_groupID s \<noteq> g then c
          else
            let others = filter (\<lambda>m. mb_DeviceID m \<noteq> id_DeviceID (c_identity c)) members;
                peers = fold member_row others (c_peers c);
                belongs = map mb_DeviceID others
            in announce (c\<lparr>c_peers := filter (\<lambda>(d, v). d \<in> set belongs) peers\<rparr>))"

definition RetryPeer_core ::
  "(keypair, 'hs, 'cs) noise \<Rightarrow> net \<Rightarrow> string \<Rightarrow> ('hs, 'cs) core \<Rightarrow> core_error option \<times> ('hs, 'cs) core" where
  "RetryPeer_core N net d c =
     (if d = [] then (Some (Failure ''bad_request'' ''Choose who to try again.''), c)
      else case c_mesh c of
             Some r \<Rightarrow>
               if lookup (c_peers c) d = None
               then (Some (Failure ''not_connected'' ''That person is not on this network.''), c)
               else (case RetryPeer N (nt_env net) (text_bytes d) (c_meshes c ! r) of
                       (False, _) \<Rightarrow> (Some (Failure ''peer_offline'' ''They are not connected right now.''), c)
                     | (True, m) \<Rightarrow> (None, upd_mesh r (\<lambda>_. m) c))
           | None \<Rightarrow> (Some (Failure ''not_connected'' ''That person is not on this network.''), c))"

definition unlink :: "string \<Rightarrow> ('hs, 'cs) core \<Rightarrow> ('hs, 'cs) core" where
  "unlink d c = (case c_mesh c of None \<Rightarrow> c | Some r \<Rightarrow> upd_mesh r (RemovePeer (text_bytes d)) c)"

definition peerWentOffline :: "string \<Rightarrow> ('hs, 'cs) core \<Rightarrow> ('hs, 'cs) core" where
  "peerWentOffline d c =
     (let known = (lookup (c_peers c) d \<noteq> None);
          c = upd_row d (\<lambda>v. v\<lparr>pv_State := PeerOffline, pv_LatencyMS := None, pv_Reason := NoReason\<rparr>) c;
          state = snapshot c;
          c = unlink d c
      in if \<not> known then c
         else
           let c = emit (StateChanged state) c
           in case c_session c of
                None \<Rightarrow> c
              | Some s \<Rightarrow> if as_groupID s = [] then c else go_task (LoadMembers (as_groupID s)) c)"

definition renamePeer :: "string \<Rightarrow> string \<Rightarrow> ('hs, 'cs) core \<Rightarrow> ('hs, 'cs) core" where
  "renamePeer d nickname c =
     (if lookup (c_peers c) d = None then c else announce (upd_row d (\<lambda>v. v\<lparr>pv_Nickname := nickname\<rparr>) c))"

definition removePeer :: "string \<Rightarrow> ('hs, 'cs) core \<Rightarrow> ('hs, 'cs) core" where
  "removePeer d c =
     (let c = c\<lparr>c_peers := remove d (c_peers c)\<rparr>;
          state = snapshot c
      in emit (StateChanged state) (emit (PeerRemoved d) (unlink d c)))"

definition onPeerState :: "string \<Rightarrow> peer_state \<Rightarrow> peer_reason \<Rightarrow> ('hs, 'cs) core \<Rightarrow> ('hs, 'cs) core" where
  "onPeerState d state reason c =
     (if lookup (c_peers c) d = None then c
      else
        let c = upd_row d (\<lambda>v. v\<lparr>pv_State := state, pv_Reason := reason\<rparr>) c
        in emit (StateChanged (snapshot c)) (emit (PeerStateChangedData d state reason) c))"

text \<open>\<open>Duration.Milliseconds\<close> rounds towards zero.\<close>

definition Milliseconds :: "duration \<Rightarrow> int" where
  "Milliseconds l = (if l < 0 then - (- l div millisecond) else l div millisecond)"

definition onPeerLatency :: "string \<Rightarrow> duration \<Rightarrow> ('hs, 'cs) core \<Rightarrow> ('hs, 'cs) core" where
  "onPeerLatency d latency c =
     (if lookup (c_peers c) d = None then c
      else
        let c = upd_row d (\<lambda>v. v\<lparr>pv_LatencyMS := Some (Milliseconds latency)\<rparr>) c
        in emit (StateChanged (snapshot c)) (emit (PeerLatencyChangedData d (Milliseconds latency)) c))"

text \<open>The callbacks the links were made with.\<close>

fun on_mesh_event :: "mesh_event \<Rightarrow> ('hs, 'cs) core \<Rightarrow> ('hs, 'cs) core" where
  "on_mesh_event (PeerStateChanged d state reason) c = onPeerState (bytes_text d) state reason c"
| "on_mesh_event (PeerLatencyChanged d latency) c = onPeerLatency (bytes_text d) latency c"

section \<open>Traffic\<close>

definition traffic_row :: "('hs, 'cs) peer \<Rightarrow> (string, peer_view) gomap \<times> bool \<Rightarrow> (string, peer_view) gomap \<times> bool" where
  "traffic_row p acc =
     (case acc of (peers, moved) \<Rightarrow>
        let d = bytes_text (p_DeviceID p)
        in case lookup peers d of
             None \<Rightarrow> (peers, moved)
           | Some v \<Rightarrow>
               (store d (v\<lparr>pv_PacketsSent := p_sent p, pv_PacketsReceived := p_received p\<rparr>) peers,
                moved \<or> pv_PacketsSent v \<noteq> p_sent p \<or> pv_PacketsReceived v \<noteq> p_received p))"

definition readTraffic :: "mesh_ref \<Rightarrow> ('hs, 'cs) core \<Rightarrow> ipc_state option \<times> ('hs, 'cs) core" where
  "readTraffic r c =
     (let moved = (st_PacketsSent (c_state c) \<noteq> c_packetsOut c \<or> st_PacketsReceived (c_state c) \<noteq> c_packetsIn c);
          c = upd_state (\<lambda>s. s\<lparr>st_PacketsSent := c_packetsOut c, st_PacketsReceived := c_packetsIn c\<rparr>) c;
          m = c_meshes c ! r
      in case fold (\<lambda>p. traffic_row (peer_ref m p)) (Peers m) (c_peers c, moved) of
           (peers, moved) \<Rightarrow>
             let c = c\<lparr>c_peers := peers\<rparr>
             in (if moved then Some (snapshot c) else None, c))"

definition watchTraffic :: "mesh_ref \<Rightarrow> ('hs, 'cs) core \<Rightarrow> ('hs, 'cs) core" where
  "watchTraffic r c =
     (case readTraffic r c of (None, c) \<Rightarrow> c | (Some state, c) \<Rightarrow> emit (StateChanged state) c)"

section \<open>The public address\<close>

definition endpointRecheckInterval :: duration where "endpointRecheckInterval = 60 * second"

definition addressProblem :: string where
  "addressProblem = ''Could not work out this machine's address on the internet, so nobody can reach it.''"

definition noteAddressProblem :: "bool \<Rightarrow> ('hs, 'cs) core \<Rightarrow> ('hs, 'cs) core" where
  "noteAddressProblem bad c =
     (let showing = (st_Message (c_state c) = addressProblem)
      in if bad \<and> \<not> showing then announce (upd_state (\<lambda>s. s\<lparr>st_Message := addressProblem\<rparr>) c)
         else if \<not> bad \<and> showing then announce (upd_state (\<lambda>s. s\<lparr>st_Message := []\<rparr>) c)
         else c)"

text \<open>One round: \<open>query\<close> is what each STUN server answers, \<open>published\<close> what the group was last told.\<close>

definition republishEndpoint ::
  "net \<Rightarrow> mesh_ref \<Rightarrow> (string \<Rightarrow> addrport option) \<Rightarrow> unit answers \<Rightarrow> addrport \<Rightarrow> ('hs, 'cs) core \<Rightarrow> addrport \<times> ('hs, 'cs) core" where
  "republishEndpoint net r query A published c =
     (case PublicEndpoint query (stunServers c) of
        None \<Rightarrow> (published, noteAddressProblem True c)
      | Some endpoint \<Rightarrow>
          let c = noteAddressProblem False c
          in if endpoint = published then (published, c)
             else (case withClient A c of
                     (Inl _, c) \<Rightarrow> (published, c)
                   | (Inr _, c) \<Rightarrow>
                       (endpoint, if addrport_valid published then upd_mesh r (RestartLinks (nt_env net)) c else c)))"

text \<open>The addresses of this machine: their text, and whether they are networks and loopback.\<close>

definition localAddresses :: "(string \<times> bool \<times> bool) list option \<Rightarrow> string" where
  "localAddresses addrs =
     (case addrs of
        None \<Rightarrow> []
      | Some as \<Rightarrow>
          (case sort (map fst (filter (\<lambda>(s, net, loopback). net \<and> \<not> loopback) as)) of
             [] \<Rightarrow> []
           | s # ss \<Rightarrow> s @ concat (map (\<lambda>s. CHR '','' # s) ss)))"

record publisher =
  pb_published :: addrport
  pb_interfaces :: string
  pb_lastCheck :: "instant option"

definition publishEndpoint ::
  "net \<Rightarrow> mesh_ref \<Rightarrow> string \<Rightarrow> (string \<Rightarrow> addrport option) \<Rightarrow> unit answers \<Rightarrow> publisher \<Rightarrow> ('hs, 'cs) core \<Rightarrow>
     publisher \<times> ('hs, 'cs) core" where
  "publishEndpoint net r current query A pb c =
     (let now = e_now (nt_env net);
          moved = (current \<noteq> pb_interfaces pb);
          pb = pb\<lparr>pb_interfaces := current\<rparr>
      in if moved \<or> (\<forall>t. pb_lastCheck pb = Some t \<longrightarrow> endpointRecheckInterval \<le> now - t)
         then (case republishEndpoint net r query A (pb_published pb) c of
                 (published, c) \<Rightarrow> (pb\<lparr>pb_lastCheck := Some now, pb_published := published\<rparr>, c))
         else (pb, c))"

text \<open>Without a STUN server to ask the loop is never entered.\<close>

definition publisher_start :: "string \<Rightarrow> ('hs, 'cs) core \<Rightarrow> publisher option" where
  "publisher_start interfaces c =
     (if stunServers c = [] then None
      else Some \<lparr>pb_published = no_addrport, pb_interfaces = interfaces, pb_lastCheck = None\<rparr>)"

section \<open>The realtime channel\<close>

text \<open>What \<open>watchGroup\<close> makes of a call of the realtime client.\<close>

definition watchGroup :: "net \<Rightarrow> realtime_call \<Rightarrow> ('hs, 'cs) core \<Rightarrow> ('hs, 'cs) core" where
  "watchGroup net h c =
     (case h of
        CallPeerOnline p \<Rightarrow> addPeer net p c
      | CallPeerOffline d \<Rightarrow> peerWentOffline d c
      | CallPeerEndpointUpdated d ep \<Rightarrow>
          (case parseEndpoint (nt_addr net) ep of
             (_, False) \<Rightarrow> c
           | (addr, True) \<Rightarrow>
               (case c_mesh c of None \<Rightarrow> c | Some r \<Rightarrow> upd_mesh r (SetPeerEndpoint (nt_env net) (text_bytes d) addr) c))
      | CallPeerRenamed d nickname \<Rightarrow> renamePeer d nickname c
      | CallGroupDeleted _ \<Rightarrow> go_task (DropSession ''That group was deleted.'') c
      | CallMembershipRevoked \<Rightarrow> go_task (DropSession ''You were removed from that group.'') c
      | CallSessionInvalidated \<Rightarrow> go_task (DropSession ''The connection to the group was lost.'') c)"

definition on_realtime :: "net \<Rightarrow> event \<Rightarrow> ('hs, 'cs) core \<Rightarrow> ('hs, 'cs) core" where
  "on_realtime net e c = (case realtime_dispatch e of None \<Rightarrow> c | Some h \<Rightarrow> watchGroup net h c)"

text \<open>The end of the channel for good.\<close>

definition session_invalidated :: "('hs, 'cs) core \<Rightarrow> ('hs, 'cs) core" where
  "session_invalidated c = go_task (DropSession ''The connection to the group was lost.'') c"

end
