(* ===== verification/Core_Connect.thy ===== *)
theory Core_Connect
  imports Core_Links
begin

text \<open>
  Connecting and disconnecting: \<^verbatim>\<open>daemon/core/connect.go\<close>. \<open>Connect\<close> and \<open>Disconnect\<close> let go of the lock between
  their steps, so each step that holds it is a definition of its own and the operation is their
  composition. Cancelling a context ends the loops of its session.
\<close>

section \<open>Leaving a group\<close>

definition cancel_ctx :: "ctx_ref \<Rightarrow> ('hs, 'cs) core \<Rightarrow> ('hs, 'cs) core" where
  "cancel_ctx x c = c\<lparr>c_cancelled := x # c_cancelled c\<rparr>"

text \<open>What every way of ending a connection resets in the state that is shown.\<close>

definition shown_disconnected :: "string \<Rightarrow> ipc_state \<Rightarrow> ipc_state" where
  "shown_disconnected message s =
     s\<lparr>st_Connection := StateDisconnected, st_GroupID := [], st_GroupName := [], st_VirtualIP := [], st_Message := message,
       st_MessageSeverity := severityFor message, st_IsOwner := False, st_PacketsSent := 0, st_PacketsReceived := 0\<rparr>"

definition close_mesh :: "mesh_ref option \<Rightarrow> ('hs, 'cs) core \<Rightarrow> ('hs, 'cs) core" where
  "close_mesh r c = (case r of None \<Rightarrow> c | Some r \<Rightarrow> c\<lparr>c_closedMeshes := r # c_closedMeshes c\<rparr>)"

definition close_device :: "device_ref option \<Rightarrow> ('hs, 'cs) core \<Rightarrow> ('hs, 'cs) core" where
  "close_device r c = (case r of None \<Rightarrow> c | Some r \<Rightarrow> c\<lparr>c_closedDevices := r # c_closedDevices c\<rparr>)"

definition finishDisconnect :: "active_session \<Rightarrow> string \<Rightarrow> ('hs, 'cs) core \<Rightarrow> ('hs, 'cs) core" where
  "finishDisconnect session reason c =
     (let links = c_mesh c; device = c_device c;
          c = upd_state (shown_disconnected reason) (c\<lparr>c_mesh := None, c_device := None, c_peers := []\<rparr>);
          state = snapshot c;
          c = close_device device (close_mesh links c)
      in emit (StateChanged state) (emit (GroupDisconnected (as_groupID session) reason) c))"

definition disconnect_take :: "('hs, 'cs) core \<Rightarrow> active_session option \<times> ('hs, 'cs) core" where
  "disconnect_take c =
     (case c_session c of
        None \<Rightarrow> (None, c)
      | Some s \<Rightarrow> (Some s, upd_state (\<lambda>st. st\<lparr>st_Connection := StateDisconnecting\<rparr>) (c\<lparr>c_session := None\<rparr>)))"

text \<open>The server is told on a best-effort basis.\<close>

definition disconnect_rest :: "unit answers \<Rightarrow> active_session \<Rightarrow> ('hs, 'cs) core \<Rightarrow> ('hs, 'cs) core" where
  "disconnect_rest A s c = finishDisconnect s [] (snd (withClient A (cancel_ctx (as_ctx s) c)))"

definition Disconnect :: "unit answers \<Rightarrow> ('hs, 'cs) core \<Rightarrow> ('hs, 'cs) core" where
  "Disconnect A c = (case disconnect_take c of (None, c) \<Rightarrow> c | (Some s, c) \<Rightarrow> disconnect_rest A s c)"

definition dropSession :: "string \<Rightarrow> ('hs, 'cs) core \<Rightarrow> ('hs, 'cs) core" where
  "dropSession reason c =
     (case c_session c of
        None \<Rightarrow> c
      | Some s \<Rightarrow> finishDisconnect s reason (cancel_ctx (as_ctx s) (c\<lparr>c_session := None\<rparr>)))"

section \<open>Joining one\<close>

datatype connect_answer = Refused core_error | AlreadyThere | Proceed bool

definition connect_check :: "string \<Rightarrow> ('hs, 'cs) core \<Rightarrow> connect_answer" where
  "connect_check g c =
     (if g = [] then Refused (Failure ''bad_request'' ''Choose a group to connect to.'')
      else if st_Connection (c_state c) = StateConnecting then Refused (Failure ''busy'' ''Already connecting. Give it a moment.'')
      else if \<exists>s. c_session c = Some s \<and> as_groupID s = g then AlreadyThere
      else Proceed (c_session c \<noteq> None))"

definition connect_begin :: "string \<Rightarrow> ('hs, 'cs) core \<Rightarrow> ('hs, 'cs) core" where
  "connect_begin g c =
     go_task (RunConnect g)
       (announce (upd_state (\<lambda>s. s\<lparr>st_Connection := StateConnecting, st_GroupID := g, st_Message := [],
          st_MessageSeverity := severityFor []\<rparr>) c))"

definition Connect :: "unit answers \<Rightarrow> string \<Rightarrow> ('hs, 'cs) core \<Rightarrow> core_error option \<times> ('hs, 'cs) core" where
  "Connect A g c =
     (case connect_check g c of
        Refused e \<Rightarrow> (Some e, c)
      | AlreadyThere \<Rightarrow> (None, c)
      | Proceed connected \<Rightarrow> (None, connect_begin g (if connected then Disconnect A c else c)))"

definition failConnect :: "core_error \<Rightarrow> ('hs, 'cs) core \<Rightarrow> ('hs, 'cs) core" where
  "failConnect e c =
     (let message = (case e of Failure _ m \<Rightarrow> m | Unexpected \<Rightarrow> ''Could not connect to that group.'')
      in announce (upd_state (shown_disconnected message) (c\<lparr>c_peers := []\<rparr>)))"

text \<open>A membership that cannot be read is one with nothing but the group's id for a name.\<close>

definition unnamed_membership :: "string \<Rightarrow> api_membership" where
  "unnamed_membership g =
     \<lparr>am_MembershipID = [], am_GroupID = g, am_GroupName = g, am_GroupIcon = [], am_GroupColor = [], am_Subnet = [],
      am_VirtualIP = [], am_Role = RoleMember, am_InviteCode = [], am_OnlineMembers = None, am_Members = None\<rparr>"

definition describeGroup :: "api_membership list answers \<Rightarrow> string \<Rightarrow> ('hs, 'cs) core \<Rightarrow> api_membership \<times> ('hs, 'cs) core" where
  "describeGroup A g c =
     (case withClient A c of
        (Inl _, c) \<Rightarrow> (unnamed_membership g, c)
      | (Inr ms, c) \<Rightarrow> (case find (\<lambda>m. am_GroupID m = g) ms of None \<Rightarrow> unnamed_membership g | Some m \<Rightarrow> m, c))"

record session_reply =
  sr_SessionID :: string
  sr_VirtualIP :: string
  sr_Peers :: "api_peer list"

definition online_rows :: "api_peer list \<Rightarrow> (string, peer_view) gomap" where
  "online_rows peers =
     fold (\<lambda>p. store (ap_DeviceID p) (new_view (ap_DeviceID p) (ap_Nickname p) (ap_VirtualIP p) PeerConnecting False)) peers []"

definition connected ::
  "session_reply \<Rightarrow> api_membership \<Rightarrow> string \<Rightarrow> ctx_ref \<Rightarrow> ('hs, 'cs) core \<Rightarrow> active_session \<times> ('hs, 'cs) core" where
  "connected reply m g x c =
     (let s = \<lparr>as_sessionID = sr_SessionID reply, as_groupID = g, as_groupName = am_GroupName m,
               as_virtualIP = sr_VirtualIP reply, as_subnet = am_Subnet m, as_ctx = x\<rparr>;
          c = upd_state (\<lambda>st. st\<lparr>st_Connection := StateConnected, st_GroupID := g, st_GroupName := am_GroupName m,
                st_GroupIcon := am_GroupIcon m, st_GroupColor := am_GroupColor m, st_VirtualIP := sr_VirtualIP reply,
                st_Message := [], st_MessageSeverity := severityFor [], st_IsOwner := (am_Role m = RoleOwner)\<rparr>)
                (c\<lparr>c_session := Some s, c_peers := online_rows (sr_Peers reply)\<rparr>);
          state = snapshot c
      in (s, emit (StateChanged state) (emit (GroupConnected g (am_GroupName m) (sr_VirtualIP reply)) c)))"

definition runConnect ::
  "net \<Rightarrow> session_reply answers \<Rightarrow> api_membership list answers \<Rightarrow> bool \<Rightarrow> string \<Rightarrow> ('hs, 'cs) core \<Rightarrow> ('hs, 'cs) core" where
  "runConnect net A B opened g c =
     (let x = c_contexts c;
          c = c\<lparr>c_contexts := Suc x, c_packetsOut := 0, c_packetsIn := 0\<rparr>
      in case withClient A c of
           (Inl e, c) \<Rightarrow> failConnect e (cancel_ctx x c)
         | (Inr reply, c) \<Rightarrow>
             (case describeGroup B g c of
                (m, c) \<Rightarrow>
                  (case connected reply m g x c of
                     (s, c) \<Rightarrow> go_task (LoadMembers g) (startNetwork net opened s (sr_Peers reply) c))))"

section \<open>Staying in it\<close>

text \<open>
  One heartbeat; the result says whether the loop goes on. \<open>stopped\<close> is a disconnect that arrives while
  the call is under way.
\<close>

definition keepAlive :: "unit answers \<Rightarrow> bool \<Rightarrow> ('hs, 'cs) core \<Rightarrow> bool \<times> ('hs, 'cs) core" where
  "keepAlive A stopped c =
     (case withClient A c of
        (Inr _, c) \<Rightarrow> (True, c)
      | (Inl e, c) \<Rightarrow>
          if stopped then (False, c)
          else (case e of
                  Failure k _ \<Rightarrow>
                    if k = code_text SessionInvalid
                    then (False, go_task (DropSession ''The connection to the group was lost.'') c)
                    else (True, c)
                | Unexpected \<Rightarrow> (True, c)))"

end
