(* ===== verification/Core.thy ===== *)
theory Core
  imports Core_Connect
begin

text \<open>
  The operations the desktop client asks for: \<^verbatim>\<open>daemon/core/core.go\<close>. A name that a server operation already
  has ends in \<open>_core\<close>. What the server answers to each call is an argument, and so is whether the disk
  takes the settings; the settings are changed in memory whether it does or not.
\<close>

section \<open>Groups\<close>

definition GetState :: "('hs, 'cs) core \<Rightarrow> ipc_state" where
  "GetState c = snapshot c"

definition toGroup :: "api_membership \<Rightarrow> bool \<Rightarrow> string \<Rightarrow> ipc_group" where
  "toGroup m isActive inviteBase =
     \<lparr>gr_GroupID = am_GroupID m, gr_Name = am_GroupName m, gr_Icon = am_GroupIcon m, gr_Color = am_GroupColor m,
      gr_Active = isActive, gr_OnlineMembers = am_OnlineMembers m, gr_Members = am_Members m, gr_InviteCode = am_InviteCode m,
      gr_InviteLink = Link inviteBase (am_InviteCode m), gr_IsOwner = (am_Role m = RoleOwner)\<rparr>"

definition in_group :: "string \<Rightarrow> ('hs, 'cs) core \<Rightarrow> bool" where
  "in_group g c \<longleftrightarrow> (\<exists>s. c_session c = Some s \<and> as_groupID s = g)"

definition GetGroups :: "api_membership list answers \<Rightarrow> ('hs, 'cs) core \<Rightarrow> (core_error + ipc_group list) \<times> ('hs, 'cs) core" where
  "GetGroups A c =
     (case withClient A c of
        (Inl e, c) \<Rightarrow> (Inl e, c)
      | (Inr ms, c) \<Rightarrow> (Inr (map (\<lambda>m. toGroup m (in_group (am_GroupID m) c) (c_inviteBase c)) ms), c))"

definition CreateGroup_core ::
  "api_membership answers \<Rightarrow> string \<Rightarrow> ('hs, 'cs) core \<Rightarrow> (core_error + ipc_group) \<times> ('hs, 'cs) core" where
  "CreateGroup_core A name c =
     (if name = [] then (Inl (Failure ''bad_request'' ''A group needs a name.''), c)
      else case withClient A c of
             (Inl e, c) \<Rightarrow> (Inl e, c)
           | (Inr m, c) \<Rightarrow> (Inr (toGroup m False (c_inviteBase c)), c))"

definition JoinGroup :: "api_membership answers \<Rightarrow> string \<Rightarrow> ('hs, 'cs) core \<Rightarrow> (core_error + ipc_group) \<times> ('hs, 'cs) core" where
  "JoinGroup A pasted c =
     (if Parse pasted = [] then (Inl (Failure ''bad_request'' ''That does not look like an invite.''), c)
      else case withClient A c of
             (Inl e, c) \<Rightarrow> (Inl e, c)
           | (Inr m, c) \<Rightarrow> (Inr (toGroup m False (c_inviteBase c)), c))"

text \<open>A code that opens nothing is no error: the answer is \<open>None\<close>.\<close>

definition GetInvite :: "api_invite answers \<Rightarrow> string \<Rightarrow> ('hs, 'cs) core \<Rightarrow> (core_error + api_invite option) \<times> ('hs, 'cs) core" where
  "GetInvite A pasted c =
     (if Parse pasted = [] then (Inr None, c)
      else case withClient A c of
             (Inl (Failure k m), c) \<Rightarrow> (if k = code_text InviteInvalid then Inr None else Inl (Failure k m), c)
           | (Inl Unexpected, c) \<Rightarrow> (Inl Unexpected, c)
           | (Inr found, c) \<Rightarrow> (Inr (Some found), c))"

definition ResetInvite ::
  "string answers \<Rightarrow> string \<Rightarrow> ('hs, 'cs) core \<Rightarrow> (core_error + string \<times> string) \<times> ('hs, 'cs) core" where
  "ResetInvite A g c =
     (if g = [] then (Inl (Failure ''bad_request'' ''Choose a group.''), c)
      else case withClient A c of
             (Inl e, c) \<Rightarrow> (Inl e, c)
           | (Inr ic, c) \<Rightarrow> (Inr (ic, Link (c_inviteBase c) ic), c))"

definition LeaveGroup ::
  "unit answers \<Rightarrow> unit answers \<Rightarrow> string \<Rightarrow> ('hs, 'cs) core \<Rightarrow> (core_error + unit) \<times> ('hs, 'cs) core" where
  "LeaveGroup D A g c = withClient A (if in_group g c then Disconnect D c else c)"

definition DeleteGroup_core ::
  "unit answers \<Rightarrow> unit answers \<Rightarrow> string \<Rightarrow> ('hs, 'cs) core \<Rightarrow> (core_error + unit) \<times> ('hs, 'cs) core" where
  "DeleteGroup_core D A g c =
     (if g = [] then (Inl (Failure ''bad_request'' ''Choose a group to delete.''), c)
      else withClient A (if in_group g c then Disconnect D c else c))"

definition RemoveMember_core ::
  "unit answers \<Rightarrow> string \<Rightarrow> string \<Rightarrow> ('hs, 'cs) core \<Rightarrow> (core_error + unit) \<times> ('hs, 'cs) core" where
  "RemoveMember_core A g d c =
     (if g = [] \<or> d = [] then (Inl (Failure ''bad_request'' ''Choose who to remove.''), c)
      else case withClient A c of
             (Inl e, c) \<Rightarrow> (Inl e, c)
           | (Inr _, c) \<Rightarrow> (Inr (), removePeer d c))"

definition RenameGroup_core ::
  "unit answers \<Rightarrow> string \<Rightarrow> string \<Rightarrow> ('hs, 'cs) core \<Rightarrow> (core_error + unit) \<times> ('hs, 'cs) core" where
  "RenameGroup_core A g newName c =
     (let name = TrimSpace newName
      in if g = [] \<or> name = [] then (Inl (Failure ''bad_request'' ''A group needs a name.''), c)
         else case withClient A c of
                (Inl e, c) \<Rightarrow> (Inl e, c)
              | (Inr _, c) \<Rightarrow>
                  (Inr (), announce
                     (case c_session c of
                        Some s \<Rightarrow>
                          if as_groupID s = g
                          then upd_state (\<lambda>st. st\<lparr>st_GroupName := name\<rparr>) (c\<lparr>c_session := Some (s\<lparr>as_groupName := name\<rparr>)\<rparr>)
                          else c
                      | None \<Rightarrow> c)))"

definition SetGroupAppearance_core ::
  "unit answers \<Rightarrow> string \<Rightarrow> string \<Rightarrow> string \<Rightarrow> ('hs, 'cs) core \<Rightarrow> (core_error + unit) \<times> ('hs, 'cs) core" where
  "SetGroupAppearance_core A g icon color c =
     (if g = [] then (Inl (Failure ''bad_request'' ''Choose a group to change.''), c)
      else case withClient A c of
             (Inl e, c) \<Rightarrow> (Inl e, c)
           | (Inr _, c) \<Rightarrow>
               (Inr (), announce
                  (if in_group g c then upd_state (\<lambda>st. st\<lparr>st_GroupIcon := icon, st_GroupColor := color\<rparr>) c else c)))"

definition TransferOwnership_core ::
  "unit answers \<Rightarrow> string \<Rightarrow> string \<Rightarrow> ('hs, 'cs) core \<Rightarrow> (core_error + unit) \<times> ('hs, 'cs) core" where
  "TransferOwnership_core A g d c =
     (if g = [] \<or> d = [] then (Inl (Failure ''bad_request'' ''Choose who to hand the group to.''), c)
      else case withClient A c of
             (Inl e, c) \<Rightarrow> (Inl e, c)
           | (Inr _, c) \<Rightarrow>
               (Inr (), go_task (LoadMembers g)
                  (announce (if in_group g c then upd_state (\<lambda>st. st\<lparr>st_IsOwner := False\<rparr>) c else c))))"

section \<open>Settings\<close>

definition SetNickname_core ::
  "unit answers \<Rightarrow> bool \<Rightarrow> string \<Rightarrow> ('hs, 'cs) core \<Rightarrow> (core_error + unit) \<times> ('hs, 'cs) core" where
  "SetNickname_core A saved typed c =
     (let nickname = TrimSpace typed
      in if nickname = [] then (Inl (Failure ''bad_request'' ''That nickname will not work.''), c)
         else case withClient A c of
                (Inl e, c) \<Rightarrow> (Inl e, c)
              | (Inr _, c) \<Rightarrow>
                  (case Identity_SetNickname nickname saved (c_identity c) of
                     (False, i) \<Rightarrow> (Inl Unexpected, c\<lparr>c_identity := i\<rparr>)
                   | (True, i) \<Rightarrow>
                       (Inr (), announce (upd_state (\<lambda>s. s\<lparr>st_Nickname := nickname\<rparr>) (c\<lparr>c_identity := i\<rparr>)))))"

definition GetServer :: "('hs, 'cs) core \<Rightarrow> string" where
  "GetServer c = set_ServerURL (c_settings c)"

definition SetServer ::
  "(string \<Rightarrow> url option) \<Rightarrow> (config_error \<Rightarrow> string) \<Rightarrow> unit answers \<Rightarrow> bool \<Rightarrow> string \<Rightarrow> ('hs, 'cs) core \<Rightarrow>
     core_error option \<times> ('hs, 'cs) core" where
  "SetServer parse wording D saved url c =
     (case validateServerURL parse wording url of
        Some e \<Rightarrow> (Some e, c)
      | None \<Rightarrow>
          if set_ServerURL (c_settings c) = url then (None, c)
          else
            let c = Disconnect D c;
                c = upd_state (\<lambda>s. s\<lparr>st_ServerURL := url, st_ServerOnline := False\<rparr>)
                      (c\<lparr>c_settings := (c_settings c)\<lparr>set_ServerURL := url\<rparr>, c_client := None\<rparr>)
            in if saved then (None, announce c) else (Some Unexpected, c))"

definition GetLanDiscovery :: "('hs, 'cs) core \<Rightarrow> bool" where
  "GetLanDiscovery c = set_LanDiscovery (c_settings c)"

definition SetLanDiscovery :: "bool \<Rightarrow> string \<Rightarrow> bool \<Rightarrow> ('hs, 'cs) core \<Rightarrow> core_error option \<times> ('hs, 'cs) core" where
  "SetLanDiscovery saved held enabled c =
     (if set_LanDiscovery (c_settings c) = enabled then (None, c)
      else
        let c = c\<lparr>c_settings := (c_settings c)\<lparr>set_LanDiscovery := enabled\<rparr>\<rparr>
        in if \<not> saved then (Some Unexpected, c)
           else (None, if c_device c \<noteq> None \<and> held \<noteq> [] then setMessage (discoveryHeldBy held) MessageWarning c else c))"

definition GetPacketLog :: "('hs, 'cs) core \<Rightarrow> bool" where
  "GetPacketLog c = r_on (c_packets c)"

definition SetPacketLog :: "bool \<Rightarrow> bool \<Rightarrow> bool \<Rightarrow> ('hs, 'cs) core \<Rightarrow> (bool \<times> core_error option) \<times> ('hs, 'cs) core" where
  "SetPacketLog openable saved enabled c =
     (case SetEnabled openable enabled (c_packets c) of
        (False, r) \<Rightarrow>
          ((False, Some (Failure ''log_unavailable'' ''Could not open the packet log, so it stays off.'')), c\<lparr>c_packets := r\<rparr>)
      | (True, r) \<Rightarrow>
          ((enabled, if saved then None else Some Unexpected),
           c\<lparr>c_packets := r, c_settings := (c_settings c)\<lparr>set_PacketLog := enabled\<rparr>\<rparr>))"

definition ResetSettings ::
  "(string \<Rightarrow> url option) \<Rightarrow> (config_error \<Rightarrow> string) \<Rightarrow> unit answers \<Rightarrow> bool \<Rightarrow> bool \<Rightarrow> string \<Rightarrow> ('hs, 'cs) core \<Rightarrow>
     (core_error + string) \<times> ('hs, 'cs) core" where
  "ResetSettings parse wording D saved saved' held c =
     (case SetServer parse wording D saved (c_defaultServer c) c of
        (Some e, c) \<Rightarrow> (Inl e, c)
      | (None, c) \<Rightarrow>
          (case SetLanDiscovery saved' held True c of
             (Some e, c) \<Rightarrow> (Inl e, c)
           | (None, c) \<Rightarrow> (Inr (c_defaultServer c), c)))"

text \<open>The two logs the daemon owns: the one it may not have, and the packets'; each empties or fails to.\<close>

definition ClearLogs :: "bool option \<Rightarrow> bool \<Rightarrow> string list option" where
  "ClearLogs main packets =
     (case main of
        Some False \<Rightarrow> None
      | _ \<Rightarrow> if packets then Some ((if main = None then [] else [''daemon.log'']) @ [''packets.log'']) else None)"

text \<open>A server that cannot be used is an answer; the message is the one the error carries.\<close>

definition TestServer ::
  "(string \<Rightarrow> url option) \<Rightarrow> (config_error \<Rightarrow> string) \<Rightarrow> http_answer \<Rightarrow> string \<Rightarrow> core_error + (int \<times> features + string)" where
  "TestServer parse wording answer url =
     (case validateServerURL parse wording url of
        Some e \<Rightarrow> Inl e
      | None \<Rightarrow>
          (case Discover url answer of
             Inl (ControlError e) \<Rightarrow> Inr (Inr (ce_Message e))
           | Inl OtherError \<Rightarrow> Inr (Inr ''That server could not be reached.'')
           | Inr cl \<Rightarrow> Inr (Inl (disc_Version (cl_discovery cl), disc_Features (cl_discovery cl)))))"

section \<open>Running\<close>

text \<open>A goroutine that was started and has its turn.\<close>

record world =
  w_net :: net
  w_session :: "session_reply answers"
  w_groups :: "api_membership list answers"
  w_members :: "member list answers"
  w_socket :: bool
  w_adapter :: "tun_error option"
  w_held :: string

definition run_task :: "world \<Rightarrow> task \<Rightarrow> ('hs, 'cs) core \<Rightarrow> ('hs, 'cs) core" where
  "run_task w t c =
     (case t of
        RunConnect g \<Rightarrow> runConnect (w_net w) (w_session w) (w_groups w) (w_socket w) g c
      | LoadMembers g \<Rightarrow> loadMembers (w_members w) g c
      | DropSession reason \<Rightarrow> dropSession reason c
      | StartAdapter r ip subnet \<Rightarrow> startAdapter (w_adapter w) (w_held w) ip subnet c)"

text \<open>The context of a session that was started and not yet stopped.\<close>

definition live :: "ctx_ref \<Rightarrow> ('hs, 'cs) core \<Rightarrow> bool" where
  "live x c \<longleftrightarrow> x < c_contexts c \<and> x \<notin> set (c_cancelled c)"

inductive core_step :: "('hs, 'cs) core \<Rightarrow> ('hs, 'cs) core \<Rightarrow> bool" where
  step_task: "c_tasks c = ts @ t # ts' \<Longrightarrow> core_step c (run_task w t (c\<lparr>c_tasks := ts @ ts'\<rparr>))"
| step_connect: "core_step c (snd (Connect D g c))"
| step_disconnect: "core_step c (Disconnect D c)"
| step_heartbeat: "live x c \<Longrightarrow> core_step c (snd (keepAlive D stopped c))"
| step_event: "live x c \<Longrightarrow> core_step c (on_realtime net e c)"
| step_invalidated: "live x c \<Longrightarrow> core_step c (session_invalidated c)"
| step_channel: "live x c \<Longrightarrow> core_step c (setServerOnline up c)"
| step_mesh: "core_step c (on_mesh_event ev c)"
| step_traffic: "c_mesh c = Some r \<Longrightarrow> core_step c (watchTraffic r c)"
| step_publish: "c_mesh c = Some r \<Longrightarrow> core_step c (snd (publishEndpoint net r current query D pb c))"
| step_packets: "core_step c (c\<lparr>c_packetsOut := out, c_packetsIn := inn\<rparr>)"
| step_links: "c_mesh c = Some r \<Longrightarrow> core_step c (upd_mesh r f c)"
| step_retry: "core_step c (snd (RetryPeer_core N net d c))"
| step_groups: "core_step c (snd (GetGroups B c))"
| step_create: "core_step c (snd (CreateGroup_core M name c))"
| step_join: "core_step c (snd (JoinGroup M pasted c))"
| step_invite: "core_step c (snd (GetInvite I pasted c))"
| step_reset_invite: "core_step c (snd (ResetInvite S g c))"
| step_leave: "core_step c (snd (LeaveGroup D D' g c))"
| step_delete: "core_step c (snd (DeleteGroup_core D D' g c))"
| step_remove: "core_step c (snd (RemoveMember_core D g d c))"
| step_rename: "core_step c (snd (RenameGroup_core D g name c))"
| step_appearance: "core_step c (snd (SetGroupAppearance_core D g icon color c))"
| step_transfer: "core_step c (snd (TransferOwnership_core D g d c))"
| step_nickname: "core_step c (snd (SetNickname_core D saved name c))"
| step_server: "core_step c (snd (SetServer parse wording D saved url c))"
| step_discovery: "core_step c (snd (SetLanDiscovery saved held on c))"
| step_packet_log: "core_step c (snd (SetPacketLog openable saved on c))"
| step_reset: "core_step c (snd (ResetSettings parse wording D saved saved' held c))"

end
