(* ===== verification/Core_Inv.thy ===== *)
theory Core_Inv
  imports Core
begin

text \<open>
  The core stays consistent. Most of what it does leaves the life of the connection alone: the session,
  the links, the contexts, the rows and what is shown of them. That part is the \<open>frame\<close> of a core, and an
  operation that keeps it keeps the invariant; the few that change it are looked at one by one.
\<close>

section \<open>The invariant\<close>

definition is_run :: "task \<Rightarrow> bool" where
  "is_run t \<longleftrightarrow> (\<exists>g. t = RunConnect g)"

definition pending :: "('hs, 'cs) core \<Rightarrow> nat" where
  "pending c = length (filter is_run (c_tasks c))"

definition row_keys :: "(string, peer_view) gomap \<Rightarrow> (string \<times> string) list" where
  "row_keys peers = map (\<lambda>(d, v). (d, pv_DeviceID v)) peers"

definition rows_ok :: "(string, peer_view) gomap \<Rightarrow> bool" where
  "rows_ok peers \<longleftrightarrow> distinct (map fst peers) \<and> (\<forall>(d, i)\<in>set (row_keys peers). i = d)"

text \<open>What is shown agrees with the session there is, or with there being none.\<close>

definition shown_ok :: "('hs, 'cs) core \<Rightarrow> bool" where
  "shown_ok c \<longleftrightarrow>
     (case c_session c of
        Some s \<Rightarrow> st_Connection (c_state c) = StateConnected \<and> st_GroupID (c_state c) = as_groupID s \<and>
          st_GroupName (c_state c) = as_groupName s \<and> st_VirtualIP (c_state c) = as_virtualIP s
      | None \<Rightarrow> st_Connection (c_state c) \<in> {StateDisconnected, StateConnecting} \<and>
          (st_Connection (c_state c) = StateDisconnected \<longrightarrow> st_GroupID (c_state c) = []) \<and>
          st_GroupName (c_state c) = [] \<and> st_VirtualIP (c_state c) = [] \<and> \<not> st_IsOwner (c_state c) \<and>
          c_peers c = [] \<and> c_mesh c = None)"

definition contexts_ok :: "('hs, 'cs) core \<Rightarrow> bool" where
  "contexts_ok c \<longleftrightarrow> set (c_cancelled c) \<subseteq> {..<c_contexts c} \<and> {x. live x c} = set_option (map_option as_ctx (c_session c))"

definition sockets_ok :: "('hs, 'cs) core \<Rightarrow> bool" where
  "sockets_ok c \<longleftrightarrow> set (c_closedMeshes c) \<subseteq> {..<length (c_meshes c)} \<and> {..<length (c_meshes c)} - set (c_closedMeshes c) = set_option (c_mesh c)"

definition core_inv :: "('hs, 'cs) core \<Rightarrow> bool" where
  "core_inv c \<longleftrightarrow> shown_ok c \<and> contexts_ok c \<and> sockets_ok c \<and> rows_ok (c_peers c) \<and>
     pending c = of_bool (st_Connection (c_state c) = StateConnecting)"

section \<open>The frame\<close>

definition frame where
  "frame c = (c_session c, c_mesh c, length (c_meshes c), c_closedMeshes c, (c_contexts c, c_cancelled c), pending c,
     (st_Connection (c_state c), st_GroupID (c_state c), st_GroupName (c_state c), st_VirtualIP (c_state c), st_IsOwner (c_state c)),
     row_keys (c_peers c))"

lemma row_keys_fst: "map fst (row_keys peers) = map fst peers"
  by (simp add: row_keys_def comp_def case_prod_beta)

lemma row_keys_Nil: "row_keys peers = [] \<longleftrightarrow> peers = []"
  by (simp add: row_keys_def)

lemma rows_ok_Nil [simp]: "rows_ok []"
  by (simp add: rows_ok_def row_keys_def)

lemma rows_ok_keys: "row_keys peers = row_keys peers' \<Longrightarrow> rows_ok peers \<longleftrightarrow> rows_ok peers'"
  unfolding rows_ok_def using row_keys_fst [of peers] row_keys_fst [of peers'] by simp

lemma core_inv_frame: "frame c = frame c' \<Longrightarrow> core_inv c \<longleftrightarrow> core_inv c'"
  using rows_ok_keys [of "c_peers c" "c_peers c'"] row_keys_Nil [of "c_peers c"] row_keys_Nil [of "c_peers c'"]
  by (simp add: frame_def core_inv_def shown_ok_def contexts_ok_def sockets_ok_def live_def cong: option.case_cong)

named_theorems framed "operations that keep the frame of a core"

lemma frame_emit [framed]: "frame (emit e c) = frame c"
  by (simp add: emit_def frame_def pending_def)

lemma frame_announce [framed]: "frame (announce c) = frame c"
  by (simp add: announce_def framed)

lemma frame_go_task [framed]: "\<not> is_run t \<Longrightarrow> frame (go_task t c) = frame c"
  by (simp add: go_task_def frame_def pending_def)

lemma not_run [simp]: "\<not> is_run (LoadMembers g)" "\<not> is_run (DropSession r)" "\<not> is_run (StartAdapter m i s)" "is_run (RunConnect g)"
  by (simp_all add: is_run_def)

lemma frame_upd_mesh [framed]: "frame (upd_mesh r f c) = frame c"
  by (simp add: upd_mesh_def frame_def pending_def)

lemma frame_upd_state:
  "st_Connection (f (c_state c)) = st_Connection (c_state c) \<Longrightarrow> st_GroupID (f (c_state c)) = st_GroupID (c_state c) \<Longrightarrow>
   st_GroupName (f (c_state c)) = st_GroupName (c_state c) \<Longrightarrow> st_VirtualIP (f (c_state c)) = st_VirtualIP (c_state c) \<Longrightarrow>
   st_IsOwner (f (c_state c)) = st_IsOwner (c_state c) \<Longrightarrow> frame (upd_state f c) = frame c"
  by (simp add: upd_state_def frame_def pending_def)

lemma frame_fields [framed]:
  "frame (c\<lparr>c_identity := i\<rparr>) = frame c" "frame (c\<lparr>c_client := cl\<rparr>) = frame c" "frame (c\<lparr>c_inviteBase := b\<rparr>) = frame c"
  "frame (c\<lparr>c_settings := s\<rparr>) = frame c" "frame (c\<lparr>c_packets := p\<rparr>) = frame c" "frame (c\<lparr>c_device := d\<rparr>) = frame c"
  "frame (c\<lparr>c_devices := ds\<rparr>) = frame c" "frame (c\<lparr>c_packetsOut := x\<rparr>) = frame c" "frame (c\<lparr>c_packetsIn := x\<rparr>) = frame c"
  "frame (c\<lparr>c_closedDevices := cd\<rparr>) = frame c"
  by (simp_all add: frame_def pending_def)

lemma frame_message [framed]: "frame (setMessage m v c) = frame c"
  by (simp add: setMessage_def framed frame_upd_state)

lemma frame_online [framed]: "frame (setServerOnline b c) = frame c"
  by (simp add: setServerOnline_def Let_def framed frame_upd_state)

lemma frame_nickname [framed]: "frame (adoptNickname me saved c) = frame c"
  by (simp add: adoptNickname_def framed frame_upd_state split: sum.splits prod.splits bool.splits)

lemma frame_token [framed]: "frame (snd (obtain_token r url c)) = frame c"
  by (simp add: obtain_token_def Let_def framed split: sum.splits)

lemma frame_ensure [framed]: "frame (snd (ensureClient r c)) = frame c"
proof -
  have "frame c' = frame c" if "obtain_token r url c = (x, c')" for url x c'
    using frame_token [of r url c] that by simp
  then show ?thesis by (auto simp: ensureClient_def Let_def framed split: sum.splits prod.splits)
qed

lemma frame_with [framed]: "frame (snd (withClient A c)) = frame c"
proof -
  have ensure: "frame c'' = frame c'" if "ensureClient r c' = (x, c'')" for r c' x c''
    using frame_ensure [of r c'] that by simp
  show ?thesis
    by (auto simp: withClient_def Let_def framed dest!: ensure split: sum.splits prod.splits)
qed

lemma frame_withD: "withClient A c = (x, c') \<Longrightarrow> frame c' = frame c"
  using frame_with [of A c] by simp

section \<open>Rows\<close>

lemma row_keys_store:
  "lookup peers d = Some v0 \<Longrightarrow> pv_DeviceID v = pv_DeviceID v0 \<Longrightarrow> row_keys (store d v peers) = row_keys peers"
  by (induction peers) (auto simp: row_keys_def split: if_splits)

lemma rows_ok_store: "rows_ok peers \<Longrightarrow> pv_DeviceID v = d \<Longrightarrow> rows_ok (store d v peers)"
proof -
  assume "rows_ok peers" "pv_DeviceID v = d"
  moreover have "set (store d v peers) \<subseteq> insert (d, v) (set peers)" by (induction peers) auto
  ultimately show ?thesis
    by (fastforce simp: rows_ok_def row_keys_def distinct_update)
qed

lemma rows_ok_lookup: "rows_ok peers \<Longrightarrow> lookup peers d = Some v \<Longrightarrow> pv_DeviceID v = d"
  by (force simp: rows_ok_def row_keys_def dest: map_of_SomeD)

lemma rows_ok_filter: "rows_ok peers \<Longrightarrow> rows_ok (filter P peers)"
  by (auto simp: rows_ok_def row_keys_def distinct_map_filter)

lemma rows_ok_remove: "rows_ok peers \<Longrightarrow> rows_ok (remove d peers)"
  by (simp add: AList.delete_eq rows_ok_filter)

lemma frame_upd_row [framed]: "(\<And>v. pv_DeviceID (f v) = pv_DeviceID v) \<Longrightarrow> frame (upd_row d f c) = frame c"
  by (auto simp: upd_row_def frame_def pending_def row_keys_store split: option.splits)

lemma frame_link [framed]: "frame (linkPeer net p c) = frame c"
  by (simp add: linkPeer_def framed split: option.splits)

lemma frame_links [framed]: "frame (fold (linkPeer net) ps c) = frame c"
  by (induction ps arbitrary: c) (simp_all add: framed)

lemma frame_unlink [framed]: "frame (unlink d c) = frame c"
  by (simp add: unlink_def framed split: option.splits)

lemma frame_adapter [framed]: "frame (startAdapter failed held ip subnet c) = frame c"
  by (simp add: startAdapter_def Let_def framed split: sum.splits option.splits)

lemma frame_offline [framed]: "frame (peerWentOffline d c) = frame c"
  by (simp add: peerWentOffline_def Let_def framed split: option.splits)

lemma frame_peer_changes [framed]:
  "frame (renamePeer d nickname c) = frame c" "frame (onPeerState d state reason c) = frame c" "frame (onPeerLatency d l c) = frame c"
  by (simp_all add: renamePeer_def onPeerState_def onPeerLatency_def Let_def framed)

lemma frame_mesh_event [framed]: "frame (on_mesh_event ev c) = frame c"
  by (cases ev) (simp_all add: framed)

lemma traffic_keys: "row_keys (fst (traffic_row p acc)) = row_keys (fst acc)"
  by (auto simp: traffic_row_def Let_def row_keys_store split: prod.splits option.splits)

lemma traffic_fold_keys: "row_keys (fst (fold (\<lambda>p. traffic_row (f p)) ps acc)) = row_keys (fst acc)"
  by (induction ps arbitrary: acc) (simp_all add: traffic_keys)

lemma frame_traffic [framed]: "frame (watchTraffic r c) = frame c"
proof -
  have peers: "frame (c'\<lparr>c_peers := peers\<rparr>) = frame c'" if "row_keys peers = row_keys (c_peers c')" for c' :: "('hs, 'cs) core" and peers
    using that by (simp add: frame_def pending_def)
  have "frame (snd (readTraffic r c)) = frame c"
    using traffic_fold_keys
    by (simp add: readTraffic_def Let_def case_prod_beta peers framed frame_upd_state)
       (subst peers, simp_all add: upd_state_def traffic_fold_keys frame_def pending_def)
  then show ?thesis by (auto simp: watchTraffic_def framed split: prod.splits option.splits)
qed

lemma frame_address [framed]: "frame (noteAddressProblem bad c) = frame c"
  by (simp add: noteAddressProblem_def Let_def framed frame_upd_state)

lemma frame_publish [framed]: "frame (snd (publishEndpoint net r current query D pb c)) = frame c"
proof -
  have "frame (snd (republishEndpoint net r query A published c)) = frame c" for A published
    by (auto simp: republishEndpoint_def Let_def framed dest: frame_withD split: option.splits prod.splits sum.splits)
  then show ?thesis by (auto simp: publishEndpoint_def Let_def case_prod_beta)
qed

lemma frame_retry [framed]: "frame (snd (RetryPeer_core N net d c)) = frame c"
  by (auto simp: RetryPeer_core_def framed split: option.splits prod.splits bool.splits)

lemma frame_heartbeat [framed]: "frame (snd (keepAlive D stopped c)) = frame c"
  by (auto simp: keepAlive_def framed dest: frame_withD split: prod.splits sum.splits core_error.splits)

lemma frame_plain_calls [framed]:
  "frame (snd (GetGroups B c)) = frame c" "frame (snd (CreateGroup_core M name c)) = frame c"
  "frame (snd (JoinGroup M pasted c)) = frame c" "frame (snd (GetInvite I pasted c)) = frame c"
  "frame (snd (ResetInvite S g c)) = frame c" "frame (snd (SetNickname_core D saved name c)) = frame c"
  "frame (snd (SetLanDiscovery saved held on c)) = frame c" "frame (snd (SetPacketLog openable saved on c)) = frame c"
  "frame (snd (SetGroupAppearance_core D g icon color c)) = frame c"
  by (auto simp: GetGroups_def CreateGroup_core_def JoinGroup_def GetInvite_def ResetInvite_def SetNickname_core_def
      SetLanDiscovery_def SetPacketLog_def SetGroupAppearance_core_def Let_def framed frame_upd_state dest!: frame_withD
      split: prod.splits sum.splits core_error.splits bool.splits)

section \<open>The operations that change the frame\<close>

lemma core_inv_framed: "core_inv c \<Longrightarrow> frame c' = frame c \<Longrightarrow> core_inv c'"
  using core_inv_frame by blast

lemma core_invD:
  "core_inv c \<Longrightarrow> shown_ok c" "core_inv c \<Longrightarrow> contexts_ok c" "core_inv c \<Longrightarrow> sockets_ok c" "core_inv c \<Longrightarrow> rows_ok (c_peers c)"
  "core_inv c \<Longrightarrow> pending c = of_bool (st_Connection (c_state c) = StateConnecting)"
  by (simp_all add: core_inv_def)

lemma live_session: "core_inv c \<Longrightarrow> live x c \<Longrightarrow> \<exists>s. c_session c = Some s \<and> as_ctx s = x"
  using core_invD(2) [of c] by (auto simp: contexts_ok_def set_eq_iff)

text \<open>New rows, as long as there is a session to have them.\<close>

lemma core_inv_rows:
  assumes "core_inv c" "rows_ok peers" "c_session c = None \<Longrightarrow> peers = []"
  shows "core_inv (c\<lparr>c_peers := peers\<rparr>)"
  using assms by (auto simp: core_inv_def shown_ok_def contexts_ok_def sockets_ok_def live_def pending_def split: option.splits)

lemma addPeer_inv:
  assumes inv: "core_inv c" and "c_session c \<noteq> None"
  shows "core_inv (addPeer net p c)"
proof -
  let ?v = "case lookup (c_peers c) (ap_DeviceID p) of None \<Rightarrow> new_view (ap_DeviceID p) [] [] PeerConnecting False | Some v \<Rightarrow> v"
  let ?view = "?v\<lparr>pv_Nickname := ap_Nickname p, pv_VirtualIP := ap_VirtualIP p,
    pv_State := (if pv_State ?v = PeerOffline then PeerConnecting else pv_State ?v)\<rparr>"
  have "pv_DeviceID ?view = ap_DeviceID p"
    using rows_ok_lookup [OF core_invD(4) [OF inv], of "ap_DeviceID p"] by (auto simp: new_view_def split: option.splits)
  then have "core_inv (c\<lparr>c_peers := store (ap_DeviceID p) ?view (c_peers c)\<rparr>)"
    using assms core_invD(4) [OF inv] by (intro core_inv_rows rows_ok_store) simp_all
  then show ?thesis
    by (rule core_inv_framed) (simp add: addPeer_def Let_def framed)
qed

lemma watchGroup_inv:
  assumes "core_inv c" "live x c"
  shows "core_inv (watchGroup net h c)"
proof (cases h)
  case (CallPeerOnline p)
  then show ?thesis using addPeer_inv [OF assms(1)] live_session [OF assms] by (auto simp: watchGroup_def)
qed (rule core_inv_framed [OF assms(1)], simp add: watchGroup_def framed split: prod.splits bool.splits option.splits)+

lemma member_row_ok: "rows_ok peers \<Longrightarrow> rows_ok (member_row m peers)"
  using rows_ok_lookup [of peers "mb_DeviceID m"]
  by (auto simp: member_row_def new_view_def intro!: rows_ok_store split: option.splits)

lemma loadMembers_inv: "core_inv c \<Longrightarrow> core_inv (loadMembers A g c)"
proof -
  assume inv: "core_inv c"
  obtain x c' where call: "withClient A c = (x, c')" by (cases "withClient A c")
  have inv': "core_inv c'" using core_inv_framed [OF inv frame_withD [OF call]] .
  have rows: "rows_ok (fold member_row ms peers)" if "rows_ok peers" for ms peers
    using that by (induction ms arbitrary: peers) (simp_all add: member_row_ok)
  have "core_inv (c'\<lparr>c_peers := filter P (fold member_row ms (c_peers c'))\<rparr>)" if "c_session c' \<noteq> None" for P ms
    using that by (intro core_inv_rows [OF inv'] rows_ok_filter rows core_invD(4) [OF inv']) simp
  then show ?thesis
    using inv' unfolding loadMembers_def call
    by (auto simp: Let_def intro: core_inv_framed [OF _ frame_announce] split: sum.splits)
qed

lemma removePeer_inv: "core_inv c \<Longrightarrow> core_inv (removePeer d c)"
proof -
  assume inv: "core_inv c"
  have "core_inv (c\<lparr>c_peers := remove d (c_peers c)\<rparr>)"
    using inv core_invD(1) [OF inv] core_invD(4) [OF inv]
    by (intro core_inv_rows rows_ok_remove) (simp_all add: shown_ok_def split: option.splits)
  then show ?thesis by (rule core_inv_framed) (simp add: removePeer_def Let_def framed)
qed

subsection \<open>Ending and starting a session\<close>

text \<open>A session that was taken out of the core: its context is the last one alive.\<close>

lemma finish_inv:
  assumes inv: "core_inv c" and s: "c_session c = Some s"
    and c': "frame c' = frame (cancel_ctx (as_ctx s) (upd_state f (c\<lparr>c_session := None\<rparr>)))"
  shows "core_inv (finishDisconnect s' reason c')"
proof -
  let ?d = "finishDisconnect s' reason c'"
  have keep: "c_session c' = None" "c_mesh c' = c_mesh c" "length (c_meshes c') = length (c_meshes c)"
    "c_closedMeshes c' = c_closedMeshes c" "c_contexts c' = c_contexts c" "c_cancelled c' = as_ctx s # c_cancelled c" "pending c' = pending c"
    using c' by (simp_all add: frame_def cancel_ctx_def upd_state_def pending_def)
  have d: "c_session ?d = None" "c_mesh ?d = None" "c_peers ?d = []" "c_state ?d = shown_disconnected reason (c_state c')"
    "length (c_meshes ?d) = length (c_meshes c)" "c_contexts ?d = c_contexts c" "c_cancelled ?d = as_ctx s # c_cancelled c"
    "pending ?d = pending c" "set (c_closedMeshes ?d) = set_option (c_mesh c) \<union> set (c_closedMeshes c)"
    using keep
    by (auto simp: finishDisconnect_def Let_def emit_def close_device_def close_mesh_def upd_state_def pending_def split: option.splits)
  have "{x. live x c} = {as_ctx s}" using core_invD(2) [OF inv] s by (simp add: contexts_ok_def)
  then have "contexts_ok ?d" using core_invD(2) [OF inv] by (auto simp: contexts_ok_def live_def d set_eq_iff)
  moreover have "sockets_ok ?d" using core_invD(3) [OF inv] by (auto simp: sockets_ok_def d)
  moreover have "st_Connection (c_state c) \<noteq> StateConnecting" using core_invD(1) [OF inv] s by (simp add: shown_ok_def)
  ultimately show ?thesis
    using core_invD(5) [OF inv] by (simp add: core_inv_def shown_ok_def d shown_disconnected_def rows_ok_def row_keys_def)
qed

lemma Disconnect_inv: "core_inv c \<Longrightarrow> core_inv (Disconnect D c)"
proof -
  assume inv: "core_inv c"
  show ?thesis
  proof (cases "c_session c")
    case None
    then show ?thesis using inv by (simp add: Disconnect_def disconnect_take_def)
  next
    case (Some s)
    then show ?thesis
      by (simp add: Disconnect_def disconnect_take_def disconnect_rest_def)
        (rule finish_inv [OF inv Some], simp add: framed)
  qed
qed

lemma dropSession_inv: "core_inv c \<Longrightarrow> core_inv (dropSession reason c)"
proof -
  assume inv: "core_inv c"
  show ?thesis
  proof (cases "c_session c")
    case None
    then show ?thesis using inv by (simp add: dropSession_def)
  next
    case (Some s)
    then show ?thesis
      by (simp add: dropSession_def) (rule finish_inv [OF inv Some, of _ id], simp add: upd_state_def cancel_ctx_def frame_def pending_def)
  qed
qed

lemma Disconnect_session: "c_session (Disconnect D (c :: ('hs, 'cs) core)) = None"
proof -
  have "c_session (snd (withClient D c')) = c_session c'" for c' :: "('hs, 'cs) core"
    using frame_with [of D c'] by (simp add: frame_def)
  then show ?thesis
    by (auto simp: Disconnect_def disconnect_take_def disconnect_rest_def finishDisconnect_def Let_def emit_def close_device_def
        close_mesh_def upd_state_def cancel_ctx_def split: option.splits)
qed

lemma Connect_inv: "core_inv c \<Longrightarrow> core_inv (snd (Connect D g c))"
proof -
  assume inv: "core_inv c"
  have start: "core_inv (connect_begin g c')"
    if "core_inv c'" "c_session c' = None" "st_Connection (c_state c') \<noteq> StateConnecting" for c' :: "('a, 'b) core"
    using that
    by (simp add: connect_begin_def announce_def emit_def go_task_def upd_state_def core_inv_def shown_ok_def contexts_ok_def
        sockets_ok_def live_def pending_def)
  have "st_Connection (c_state (Disconnect D c)) \<noteq> StateConnecting" if "c_session c \<noteq> None"
    using that
    by (auto simp: Disconnect_def disconnect_take_def disconnect_rest_def finishDisconnect_def Let_def emit_def close_device_def
        close_mesh_def upd_state_def shown_disconnected_def split: option.splits)
  then show ?thesis
    using inv start [of "Disconnect D c"] start [of c] Disconnect_inv [OF inv] Disconnect_session [of D c]
    by (auto simp: Connect_def connect_check_def split: if_splits)
qed

lemma frame_describe: "frame (snd (describeGroup B g c)) = frame c"
  by (auto simp: describeGroup_def dest: frame_withD split: prod.splits sum.splits)

lemma startNetwork_inv:
  assumes "core_inv c" "c_mesh c = None" "c_session c \<noteq> None"
  shows "core_inv (startNetwork net opened s peers c)"
proof (cases opened)
  case True
  let ?m = "New (text_bytes (id_DeviceID (c_identity c))) (case nt_addr net (as_virtualIP s) of None \<Rightarrow> NoAddr | Some a \<Rightarrow> a)
    (id_Transport (c_identity c)) (c_packets c)"
  let ?c = "c\<lparr>c_meshes := c_meshes c @ [?m], c_mesh := Some (length (c_meshes c))\<rparr>"
  have "sockets_ok ?c" using core_invD(3) [OF assms(1)] assms(2) by (auto simp: sockets_ok_def)
  then have "core_inv ?c"
    using assms by (auto simp: core_inv_def shown_ok_def contexts_ok_def live_def pending_def split: option.splits)
  then show ?thesis
    by (rule core_inv_framed) (simp add: startNetwork_def True Let_def framed)
next
  case False
  then show ?thesis using assms(1) by (simp add: startNetwork_def)
qed

lemma online_rows_ok: "rows_ok (online_rows peers)"
proof -
  have "rows_ok (fold (\<lambda>p. store (ap_DeviceID p) (new_view (ap_DeviceID p) (ap_Nickname p) (ap_VirtualIP p) PeerConnecting False)) ps rows)"
    if "rows_ok rows" for ps :: "api_peer list" and rows
    using that by (induction ps arbitrary: rows) (simp_all add: rows_ok_store new_view_def)
  then show ?thesis by (simp add: online_rows_def)
qed

text \<open>A connect under way: its context is the only one alive, and nothing is pending any more.\<close>

definition connecting :: "('hs, 'cs) core \<Rightarrow> bool" where
  "connecting c \<longleftrightarrow> c_session c = None \<and> c_mesh c = None \<and> pending c = 0 \<and> sockets_ok c \<and> c_contexts c \<noteq> 0 \<and>
     set (c_cancelled c) \<subseteq> {..<c_contexts c} \<and> {x. live x c} = {c_contexts c - 1}"

lemma connecting_frame: "frame c' = frame c \<Longrightarrow> connecting c \<Longrightarrow> connecting c'"
  by (simp add: frame_def connecting_def sockets_ok_def live_def)

lemma connecting_start:
  assumes inv: "core_inv c" and task: "c_tasks c = ts @ RunConnect g # ts'"
  shows "connecting (c\<lparr>c_tasks := ts @ ts', c_contexts := Suc (c_contexts c), c_packetsOut := a, c_packetsIn := b\<rparr>)"
proof -
  have "pending c = Suc (length (filter is_run (ts @ ts')))" using task by (simp add: pending_def)
  then have one: "filter is_run (ts @ ts') = []" and busy: "st_Connection (c_state c) = StateConnecting"
    using core_invD(5) [OF inv] by (auto simp: of_bool_def split: if_splits)
  then have none: "c_session c = None" "c_mesh c = None"
    using core_invD(1) [OF inv] by (auto simp: shown_ok_def split: option.splits)
  then have "{x. live x c} = {}" "set (c_cancelled c) \<subseteq> {..<c_contexts c}"
    using core_invD(2) [OF inv] by (simp_all add: contexts_ok_def)
  then have "{x. x < Suc (c_contexts c) \<and> x \<notin> set (c_cancelled c)} = {c_contexts c}" by (auto simp: live_def less_Suc_eq)
  moreover have "set (c_cancelled c) \<subseteq> {..<Suc (c_contexts c)}" using \<open>set (c_cancelled c) \<subseteq> _\<close> by auto
  ultimately show ?thesis
    using one none core_invD(3) [OF inv] by (simp add: connecting_def live_def pending_def sockets_ok_def)
qed

lemma failConnect_inv:
  assumes "connecting c"
  shows "core_inv (failConnect e (cancel_ctx (c_contexts c - 1) c))"
  using assms
  by (auto simp: connecting_def failConnect_def Let_def announce_def emit_def upd_state_def cancel_ctx_def core_inv_def shown_ok_def
      contexts_ok_def sockets_ok_def live_def pending_def shown_disconnected_def rows_ok_def row_keys_def set_eq_iff)

lemma connected_inv:
  assumes "connecting c" "connected reply m g (c_contexts c - 1) c = (s, c')"
  shows "core_inv c' \<and> c_mesh c' = None \<and> c_session c' \<noteq> None"
proof -
  have same: "c_mesh c' = c_mesh c" "c_meshes c' = c_meshes c" "c_closedMeshes c' = c_closedMeshes c" "c_contexts c' = c_contexts c"
    "c_cancelled c' = c_cancelled c" "c_tasks c' = c_tasks c" "c_peers c' = online_rows (sr_Peers reply)"
    using assms(2) by (auto simp: connected_def Let_def emit_def upd_state_def)
  have s: "c_session c' = Some s" "as_ctx s = c_contexts c - 1" and shown: "shown_ok c'" "st_Connection (c_state c') = StateConnected"
    using assms(2) by (auto simp: connected_def Let_def emit_def upd_state_def shown_ok_def)
  have "live x c' = live x c" for x by (simp add: live_def same)
  then have "contexts_ok c'" using assms(1) by (simp add: contexts_ok_def connecting_def same s)
  moreover have "sockets_ok c'" using assms(1) by (simp add: connecting_def sockets_ok_def same)
  moreover have "pending c' = 0" using assms(1) by (simp add: connecting_def pending_def same)
  ultimately show ?thesis
    using assms(1) shown online_rows_ok by (simp add: core_inv_def same s connecting_def)
qed

lemma runConnect_inv:
  fixes c :: "('hs, 'cs) core"
  assumes inv: "core_inv c" and task: "c_tasks c = ts @ RunConnect g # ts'"
  shows "core_inv (runConnect net A B opened g (c\<lparr>c_tasks := ts @ ts'\<rparr>))"
proof -
  let ?x = "c_contexts c"
  let ?c = "c\<lparr>c_tasks := ts @ ts', c_contexts := Suc ?x, c_packetsOut := 0, c_packetsIn := 0\<rparr>"
  have start: "connecting ?c" by (rule connecting_start [OF inv task])
  obtain res c1 where call: "withClient A ?c = (res, c1)" by (cases "withClient A ?c")
  obtain m c2 where desc: "describeGroup B g c1 = (m, c2)" by (cases "describeGroup B g c1")
  have f1: "frame c1 = frame ?c" using frame_withD [OF call] .
  have f2: "frame c2 = frame c1" using frame_describe [of B g c1] desc by simp
  have c1: "connecting c1" "c_contexts c1 - 1 = ?x" using connecting_frame [OF f1 start] f1 by (simp_all add: frame_def)
  have c2: "connecting c2" "c_contexts c2 - 1 = ?x" using connecting_frame [OF f2 c1(1)] f2 c1(2) by (simp_all add: frame_def)
  show ?thesis
  proof (cases res)
    case (Inl e)
    then show ?thesis using failConnect_inv [OF c1(1), of e] c1(2) by (simp add: runConnect_def call)
  next
    case (Inr reply)
    obtain s c3 where conn: "connected reply m g ?x c2 = (s, c3)" by (cases "connected reply m g ?x c2")
    then have "core_inv c3" "c_mesh c3 = None" "c_session c3 \<noteq> None" using connected_inv [OF c2(1)] c2(2) by auto
    then have "core_inv (startNetwork net opened s (sr_Peers reply) c3)" by (rule startNetwork_inv)
    then have "core_inv (go_task (LoadMembers g) (startNetwork net opened s (sr_Peers reply) c3))"
      by (rule core_inv_framed) (simp add: framed)
    then show ?thesis by (simp add: runConnect_def call Inr desc conn)
  qed
qed

subsection \<open>The rest\<close>

lemma with_inv: "core_inv c \<Longrightarrow> core_inv (snd (withClient A c))"
  by (rule core_inv_framed) (simp_all add: framed)

lemma LeaveGroup_inv: "core_inv c \<Longrightarrow> core_inv (snd (LeaveGroup D A g c))"
  by (simp add: LeaveGroup_def with_inv Disconnect_inv)

lemma DeleteGroup_core_inv: "core_inv c \<Longrightarrow> core_inv (snd (DeleteGroup_core D A g c))"
  by (simp add: DeleteGroup_core_def with_inv Disconnect_inv)

lemma RemoveMember_core_inv: "core_inv c \<Longrightarrow> core_inv (snd (RemoveMember_core A g d c))"
  using with_inv [of c A] removePeer_inv by (auto simp: RemoveMember_core_def split: prod.splits sum.splits)

lemma RenameGroup_core_inv: "core_inv c \<Longrightarrow> core_inv (snd (RenameGroup_core A g name c))"
proof -
  assume "core_inv c"
  then have inv: "core_inv c'" if "withClient A c = (x, c')" for x c' using with_inv [of c A] that by simp
  have "core_inv (upd_state (\<lambda>st. st\<lparr>st_GroupName := n\<rparr>) (c'\<lparr>c_session := Some (s\<lparr>as_groupName := n\<rparr>)\<rparr>))"
    if "core_inv c'" "c_session c' = Some s" for c' s n
    using that by (simp add: core_inv_def shown_ok_def contexts_ok_def sockets_ok_def live_def pending_def upd_state_def)
  then show ?thesis
    using \<open>core_inv c\<close> inv
    by (auto simp: RenameGroup_core_def Let_def intro!: core_inv_framed [OF _ frame_announce] split: prod.splits sum.splits option.splits)
qed

lemma TransferOwnership_core_inv: "core_inv c \<Longrightarrow> core_inv (snd (TransferOwnership_core A g d c))"
proof -
  assume "core_inv c"
  then have inv: "core_inv c'" if "withClient A c = (x, c')" for x c' using with_inv [of c A] that by simp
  have "core_inv (upd_state (\<lambda>st. st\<lparr>st_IsOwner := False\<rparr>) c')" if "core_inv c'" for c' :: "('a, 'b) core"
    using that by (simp add: core_inv_def shown_ok_def contexts_ok_def sockets_ok_def live_def pending_def upd_state_def split: option.splits)
  then show ?thesis
    using \<open>core_inv c\<close> inv
    by (auto simp: TransferOwnership_core_def intro!: core_inv_framed [OF _ frame_go_task] core_inv_framed [OF _ frame_announce]
        split: prod.splits sum.splits)
qed

lemma SetServer_inv: "core_inv c \<Longrightarrow> core_inv (snd (SetServer parse wording D saved url c))"
proof -
  assume inv: "core_inv c"
  note gone = core_inv_framed [OF Disconnect_inv [OF inv, of D]]
  show ?thesis
    using inv by (auto simp: SetServer_def Let_def framed frame_upd_state intro: gone split: option.splits)
qed

lemma ResetSettings_inv:
  fixes c :: "('hs, 'cs) core"
  assumes "core_inv c"
  shows "core_inv (snd (ResetSettings parse wording D saved saved' held c))"
proof -
  have one: "core_inv c'" if "SetServer parse wording D saved url c = (x, c')" for url x c'
    using SetServer_inv [OF assms, of parse wording D saved url] that by simp
  have "core_inv c''" if "core_inv c'" "SetLanDiscovery saved' held True c' = (x, c'')" for x and c' c'' :: "('hs, 'cs) core"
    using core_inv_framed [OF that(1), of c''] that(2) frame_plain_calls(7) [of saved' held True c'] by simp
  then show ?thesis using one by (fastforce simp: ResetSettings_def split: prod.splits option.splits)
qed

lemma run_task_inv:
  assumes inv: "core_inv c" and task: "c_tasks c = ts @ t # ts'"
  shows "core_inv (run_task w t (c\<lparr>c_tasks := ts @ ts'\<rparr>))"
proof (cases t)
  case (RunConnect g)
  then show ?thesis using runConnect_inv [OF inv, of ts g ts'] task by (simp add: run_task_def)
next
  case (LoadMembers g)
  then have "frame (c\<lparr>c_tasks := ts @ ts'\<rparr>) = frame c" using task by (simp add: frame_def pending_def)
  then show ?thesis using loadMembers_inv [OF core_inv_framed [OF inv]] LoadMembers by (simp add: run_task_def)
next
  case (DropSession reason)
  then have "frame (c\<lparr>c_tasks := ts @ ts'\<rparr>) = frame c" using task by (simp add: frame_def pending_def)
  then show ?thesis using dropSession_inv [OF core_inv_framed [OF inv]] DropSession by (simp add: run_task_def)
next
  case (StartAdapter r ip subnet)
  then have "frame (c\<lparr>c_tasks := ts @ ts'\<rparr>) = frame c" using task by (simp add: frame_def pending_def)
  with StartAdapter show ?thesis by (simp add: run_task_def) (rule core_inv_framed [OF inv], simp add: framed)
qed

lemma core_step_inv: "core_step c c' \<Longrightarrow> core_inv c \<Longrightarrow> core_inv c'"
proof (induction rule: core_step.induct)
  case (step_task c ts t ts' w)
  then show ?case by (simp add: run_task_inv)
next
  case (step_event x c net e)
  then show ?case by (simp add: on_realtime_def watchGroup_inv split: option.split)
next
  case (step_invalidated x c)
  then show ?case by (auto simp: session_invalidated_def framed intro: core_inv_framed)
qed (auto simp: framed Connect_inv Disconnect_inv LeaveGroup_inv DeleteGroup_core_inv RemoveMember_core_inv RenameGroup_core_inv
    TransferOwnership_core_inv SetServer_inv ResetSettings_inv intro: core_inv_framed)

lemma NewCore_inv: "core_inv (NewCore i s url openable)"
  by (simp add: NewCore_def core_inv_def shown_ok_def contexts_ok_def sockets_ok_def live_def pending_def)

interpretation core_runs: invariant_system "\<lambda>c. \<exists>i s url openable. c = NewCore i s url openable" core_step core_inv
  by unfold_locales (auto simp: NewCore_inv core_step_inv)

end
