(* ===== verification/Core_Props.thy ===== *)
theory Core_Props
  imports Core_Inv
begin

text \<open>
  What the daemon's core promises the person in front of it: a state that always fits the connection
  there is, nothing left running after a disconnect, a list of peers that does not jump about, and a
  connection that outlives a server that is away; and three races its lock does not cover.
\<close>

section \<open>What a call to the server leaves alone\<close>

definition apart where
  "apart c = (c_session c, c_mesh c, c_meshes c, c_peers c, c_device c, c_tasks c)"

lemma apart_simps [simp]:
  "apart (emit e c) = apart c" "apart (upd_state f c) = apart c" "apart (announce c) = apart c"
  "apart (c\<lparr>c_identity := i\<rparr>) = apart c" "apart (c\<lparr>c_client := cl\<rparr>) = apart c" "apart (c\<lparr>c_inviteBase := b\<rparr>) = apart c"
  by (simp_all add: apart_def emit_def upd_state_def announce_def)

lemma apart_online [simp]: "apart (setServerOnline b c) = apart c"
  by (simp add: setServerOnline_def Let_def)

lemma apart_ensure: "apart (snd (ensureClient r c)) = apart c"
proof -
  have "apart (adoptNickname me saved c') = apart c'" for me saved and c' :: "('a, 'b) core"
    by (simp add: adoptNickname_def split: sum.splits prod.splits bool.splits)
  moreover have "apart c' = apart c" if "obtain_token r url c = (x, c')" for url x c'
    using that by (auto simp: obtain_token_def Let_def split: if_splits sum.splits)
  ultimately show ?thesis by (auto simp: ensureClient_def Let_def split: sum.splits prod.splits)
qed

lemma apart_with: "apart (snd (withClient A c)) = apart c"
proof -
  have ensure: "apart c'' = apart c'" if "ensureClient r c' = (x, c'')" for r x and c' c'' :: "('a, 'b) core"
    using apart_ensure [of r c'] that by simp
  show ?thesis by (auto simp: withClient_def Let_def dest!: ensure split: sum.splits prod.splits)
qed

lemma apart_withD:
  assumes "withClient A c = (x, c')"
  shows "c_session c' = c_session c" "c_mesh c' = c_mesh c" "c_meshes c' = c_meshes c" "c_peers c' = c_peers c"
    "c_device c' = c_device c" "c_tasks c' = c_tasks c"
  using apart_with [of A c] assms by (simp_all add: apart_def)

section \<open>The state fits the connection\<close>


section \<open>Leaving\<close>

lemma finish_parts:
  "c_session (finishDisconnect s reason c) = c_session c" "c_peers (finishDisconnect s reason c) = []"
  "c_mesh (finishDisconnect s reason c) = None" "c_device (finishDisconnect s reason c) = None"
  "c_state (finishDisconnect s reason c) = shown_disconnected reason (c_state c)"
  "set_option (c_device c) \<subseteq> set (c_closedDevices (finishDisconnect s reason c))"
  "c_tasks (finishDisconnect s reason c) = c_tasks c"
  "c_events (finishDisconnect s reason c) =
     c_events c @ [GroupDisconnected (as_groupID s) reason, StateChanged (snapshot (finishDisconnect s reason c))]"
  by (auto simp: finishDisconnect_def Let_def emit_def close_device_def close_mesh_def upd_state_def snapshot_def split: option.splits)

text \<open>The core between taking the session out and tearing it down.\<close>

lemma Disconnect_Some:
  assumes "c_session c = Some s"
  obtains c1 where "Disconnect D c = finishDisconnect s [] c1" "c_device c1 = c_device c" "c_mesh c1 = c_mesh c" "c_tasks c1 = c_tasks c"
    "c_session c1 = None"
proof -
  let ?c = "cancel_ctx (as_ctx s) (upd_state (\<lambda>st. st\<lparr>st_Connection := StateDisconnecting\<rparr>) (c\<lparr>c_session := None\<rparr>))"
  obtain x c1 where call: "withClient D ?c = (x, c1)" by (cases "withClient D ?c")
  from that [of c1] show thesis
    using assms apart_withD [OF call] call
    by (simp add: Disconnect_def disconnect_take_def disconnect_rest_def cancel_ctx_def upd_state_def)
qed


section \<open>The list of peers\<close>

definition row_order :: "peer_view \<Rightarrow> bool \<times> string" where
  "row_order v = (pv_State v = PeerOffline, pv_VirtualIP v)"

text \<open>
The list of peers does not jump about. Go walks a map in any order it likes, and yet as long as no two peers
share an address the list that is shown is the same for every order; it has everybody exactly once, those who are
here before those who are not, and both by address.
\<close>

theorem peer_list_is_stable:
  assumes "mset (c_peers c') = mset (c_peers c)" and "c_state c' = c_state c"
    and "distinct (map (pv_VirtualIP \<circ> snd) (c_peers c))"
  shows "snapshot c' = snapshot c \<and> mset (st_Peers (snapshot c)) = mset (map snd (c_peers c)) \<and>
    sorted (map row_order (st_Peers (snapshot c)))"
proof -
  let ?rows = "map snd (c_peers c)" and ?rows' = "map snd (c_peers c')"
  have order: "sortPeers = sort_key row_order" by (simp add: sortPeers_def row_order_def [abs_def])
  have "inj_on pv_VirtualIP (set ?rows)" using assms(3) by (simp add: distinct_map comp_inj_on_iff inj_on_imageI)
  then have inj: "inj_on row_order (set ?rows)" by (auto simp: inj_on_def row_order_def)
  have "mset ?rows' = mset ?rows" using assms(1) by simp
  then have "sort_key row_order ?rows' = sort_key row_order ?rows"
    by (intro sort_key_inj_key_eq [OF _ inj, symmetric]) simp_all
  then show ?thesis using assms(2) by (simp add: snapshot_def order)
qed

section \<open>A server that is away\<close>

text \<open>What a round of calls can say: the error of discovery, of the registration or of the call itself.\<close>

definition round_says :: "'a round \<Rightarrow> string \<Rightarrow> bool" where
  "round_says r k \<longleftrightarrow>
     (\<exists>e. rd_register r = Inl e \<and> has_code k e) \<or> (\<exists>e. rd_call r = Inl e \<and> has_code k e) \<or>
     (\<exists>url e. Discover url (rd_discover r) = Inl e \<and> has_code k e)"

lemma toFailure_code: "toFailure e = Failure k m \<Longrightarrow> has_code k e"
  by (cases e) simp_all

lemma ensureClient_says:
  assumes "ensureClient r c = (Inl (Failure k m), c')"
  shows "k = ''no_server'' \<or> round_says r k"
proof -
  have token: "round_says r k" if "obtain_token r url c = (Inl (Failure k m), c'')" for url c''
    using that toFailure_code by (auto simp: obtain_token_def Let_def round_says_def split: if_splits sum.splits)
  have discover: "round_says r k" if "Discover url (rd_discover r) = Inl e" "toFailure e = Failure k m" for url e
    using that toFailure_code [of e k m] unfolding round_says_def by blast
  show ?thesis
    using assms by (auto simp: ensureClient_def Let_def dest: token discover split: if_splits sum.splits prod.splits)
qed

lemma withClient_says:
  assumes "withClient A c = (Inl (Failure k m), c')"
  shows "k = ''no_server'' \<or> round_says (an_first A) k \<or> round_says (an_second A) k"
proof -
  have call: "round_says r k" if "rd_call r = Inl e" "toFailure e = Failure k m" for r :: "'a round" and e
    using that toFailure_code by (auto simp: round_says_def)
  show ?thesis
    using assms by (auto simp: withClient_def Let_def dest: ensureClient_says call split: if_splits sum.splits prod.splits)
qed

lemma keepAlive_apart:
  assumes "\<not> round_says (an_first A) ''session_invalid''" "\<not> round_says (an_second A) ''session_invalid''"
    "keepAlive A False c = (goes, c')"
  shows "goes \<and> apart c' = apart c"
proof -
  obtain res c1 where call: "withClient A c = (res, c1)" by (cases "withClient A c")
  have "apart c1 = apart c" using apart_with [of A c] call by simp
  moreover have "k \<noteq> ''session_invalid''" if "res = Inl (Failure k m)" for k m
    using withClient_says [of A c k m c1] that call assms(1,2) by auto
  ultimately show ?thesis
    using assms(3) call by (auto simp: keepAlive_def split: sum.splits core_error.splits if_splits)
qed

fun heartbeats :: "unit answers list \<Rightarrow> ('hs, 'cs) core \<Rightarrow> bool \<times> ('hs, 'cs) core" where
  "heartbeats [] c = (True, c)"
| "heartbeats (A # As) c = (case keepAlive A False c of (goes, c) \<Rightarrow> if goes then heartbeats As c else (False, c))"

text \<open>
C9: losing the server does not lose the session. Whatever a run of heartbeats meets, a server that cannot be reached,
one that is broken, a token it no longer accepts, a disk that is full, as long as nobody says that the session itself
is invalid the loop goes on and the session, its links, the adapter, the rows and the goroutines under way are untouched.
\<close>

theorem outage_keeps_session:
  assumes "\<forall>A\<in>set As. \<not> round_says (an_first A) ''session_invalid'' \<and> \<not> round_says (an_second A) ''session_invalid''"
  shows "fst (heartbeats As c) \<and> apart (snd (heartbeats As c)) = apart c"
  using assms
proof (induction As arbitrary: c)
  case (Cons A As)
  obtain goes c1 where "keepAlive A False c = (goes, c1)" by (cases "keepAlive A False c")
  then show ?case using keepAlive_apart [of A c goes c1] Cons by auto
qed simp

section \<open>A token that is no longer accepted\<close>

text \<open>
C15: a token the server no longer accepts is replaced without anybody noticing. The call is refused, the token is
forgotten, the device registers again and the call is made once more; its answer is the answer, the new token is on
file for this server and the client that is kept uses it.
\<close>

theorem rejected_token_is_replaced:
  assumes client: "c_client c = Some cl" "cl_baseURL cl = set_ServerURL (c_settings c)" "set_ServerURL (c_settings c) \<noteq> []"
    and refused: "rd_call (an_first A) = Inl e" "IsUnauthorized e" and forgotten: "an_cleared A"
    and again: "Discover (set_ServerURL (c_settings c)) (rd_discover (an_second A)) = Inr cl'"
      "rd_register (an_second A) = Inr token" "token \<noteq> []" "rd_tokenSaved (an_second A)" "rd_call (an_second A) = Inr x"
  shows "let (r, c') = withClient A c
    in r = Inr x \<and> RegisteredWith (set_ServerURL (c_settings c)) (c_identity c') \<and> id_Token (c_identity c') = token \<and>
       c_client c' = Some (cl'\<lparr>cl_token := token\<rparr>) \<and> st_ServerOnline (c_state c')"
proof -
  have adopt: "id_Token (c_identity (adoptNickname me saved c')) = id_Token (c_identity c') \<and>
      id_ServerURL (c_identity (adoptNickname me saved c')) = id_ServerURL (c_identity c')" for me saved and c' :: "('a, 'b) core"
    by (auto simp: adoptNickname_def Identity_SetNickname_def announce_def emit_def upd_state_def split: sum.splits bool.splits)
  have online: "c_identity (setServerOnline b c') = c_identity c'" "c_client (setServerOnline b c') = c_client c'"
    "st_ServerOnline (c_state (setServerOnline b c')) = b" for b and c' :: "('a, 'b) core"
    by (simp_all add: setServerOnline_def Let_def upd_state_def emit_def)
  show ?thesis
    using assms adopt
    by (simp add: withClient_def ensureClient_def obtain_token_def Let_def RegisteredWith_def ClearToken_def SetToken_def online)
qed

section \<open>Who is in the group\<close>

text \<open>What a row takes from the list of members, and what it keeps of the link.\<close>

definition member_view :: "member \<Rightarrow> peer_view option \<Rightarrow> peer_view" where
  "member_view m old =
     (case old of None \<Rightarrow> new_view (mb_DeviceID m) [] [] PeerOffline False | Some v \<Rightarrow> v)
     \<lparr>pv_Nickname := mb_Nickname m, pv_VirtualIP := mb_VirtualIP m, pv_IsOwner := (mb_Role m = RoleOwner)\<rparr>"

lemma lookup_member_row:
  "lookup (member_row m rows) d = (if d = mb_DeviceID m then Some (member_view m (lookup rows d)) else lookup rows d)"
  by (simp add: member_row_def member_view_def new_view_def split: option.splits)

lemma lookup_filter_keys: "lookup (filter (\<lambda>(k, v). P k) m) d = (if P d then lookup m d else None)"
  by (induction m) auto

lemma lookup_member_rows:
  "distinct (map mb_DeviceID ms) \<Longrightarrow>
   lookup (fold member_row ms rows) d =
     (case find (\<lambda>m. mb_DeviceID m = d) ms of None \<Rightarrow> lookup rows d | Some m \<Rightarrow> Some (member_view m (lookup rows d)))"
proof (induction ms arbitrary: rows)
  case (Cons m ms)
  have "find (\<lambda>m'. mb_DeviceID m' = mb_DeviceID m) ms = None" using Cons.prems by (auto simp: find_None_iff image_iff)
  then show ?case using Cons by (auto simp: lookup_member_row split: option.splits)
qed simp

text \<open>
C16: the list of peers is the group. When the list of members arrives while the session is still in that group,
afterwards there is a row for everybody in it except this device and for nobody else; a row takes the name, the address
and the role from the list, and everything about the link from the row there was, or says that the member is away.
\<close>

theorem member_list_becomes_rows:
  assumes "withClient A c = (Inr members, c1)" and "c_session c = Some s" and "as_groupID s = g" and "distinct (map mb_DeviceID members)"
  shows "lookup (c_peers (loadMembers A g c)) d =
    (case find (\<lambda>m. mb_DeviceID m = d) members of
       None \<Rightarrow> None
     | Some m \<Rightarrow> if d = id_DeviceID (c_identity c1) then None else Some (member_view m (lookup (c_peers c) d)))"
proof -
  let ?others = "filter (\<lambda>m. mb_DeviceID m \<noteq> id_DeviceID (c_identity c1)) members"
  have same: "c_session c1 = c_session c" "c_peers c1 = c_peers c" using apart_withD [OF assms(1)] by simp_all
  have "distinct (map mb_DeviceID ?others)" using assms(4) by (simp add: distinct_map_filter)
  note rows = lookup_member_rows [OF this, of "c_peers c" d]
  have "find (\<lambda>m. mb_DeviceID m = d) ?others = (if d = id_DeviceID (c_identity c1) then None else find (\<lambda>m. mb_DeviceID m = d) members)"
    by (induction members) auto
  moreover have "d \<in> mb_DeviceID ` set ?others \<longleftrightarrow> find (\<lambda>m. mb_DeviceID m = d) ?others \<noteq> None"
    by (auto simp: find_None_iff image_iff)
  ultimately show ?thesis
    using assms(1-3) rows
    by (simp add: loadMembers_def Let_def announce_def emit_def same lookup_filter_keys split: option.splits)
qed

section \<open>Where the lock is let go\<close>

lemma c_tasks_simps [simp]:
  "c_tasks (emit e c) = c_tasks c" "c_tasks (upd_state f c) = c_tasks c" "c_tasks (announce c) = c_tasks c"
  "c_tasks (cancel_ctx x c) = c_tasks c" "c_tasks (upd_mesh r h c) = c_tasks c" "c_tasks (go_task t c) = c_tasks c @ [t]"
  by (simp_all add: emit_def upd_state_def announce_def cancel_ctx_def upd_mesh_def go_task_def)

lemma c_session_simps [simp]:
  "c_session (emit e c) = c_session c" "c_session (upd_state f c) = c_session c" "c_session (announce c) = c_session c"
  "c_session (cancel_ctx x c) = c_session c" "c_session (upd_mesh r h c) = c_session c" "c_session (go_task t c) = c_session c"
  by (simp_all add: emit_def upd_state_def announce_def cancel_ctx_def upd_mesh_def go_task_def)

lemma contexts_simps [simp]:
  "c_contexts (upd_mesh r h c) = c_contexts c" "c_cancelled (upd_mesh r h c) = c_cancelled c"
  "c_contexts (go_task t c) = c_contexts c" "c_cancelled (go_task t c) = c_cancelled c"
  by (simp_all add: upd_mesh_def go_task_def)

lemma startNetwork_parts:
  "c_session (startNetwork net opened s peers c) = c_session c" "c_contexts (startNetwork net opened s peers c) = c_contexts c"
  "c_cancelled (startNetwork net opened s peers c) = c_cancelled c" "\<exists>ts. c_tasks (startNetwork net opened s peers c) = c_tasks c @ ts"
proof -
  define kept where "kept c = (c_session c, c_tasks c, c_contexts c, c_cancelled c)" for c :: "('a, 'b) core"
  have "kept (linkPeer net p c) = kept c" for p and c :: "('a, 'b) core"
    by (simp add: linkPeer_def kept_def split: option.splits)
  then have "kept (fold (linkPeer net) ps c) = kept c" for ps and c :: "('a, 'b) core"
    by (induction ps arbitrary: c) simp_all
  then show "c_session (startNetwork net opened s peers c) = c_session c" "c_contexts (startNetwork net opened s peers c) = c_contexts c"
    "c_cancelled (startNetwork net opened s peers c) = c_cancelled c"
    "\<exists>ts. c_tasks (startNetwork net opened s peers c) = c_tasks c @ ts"
    by (simp_all add: startNetwork_def Let_def kept_def)
qed

text \<open>A connect starts goroutines of its own after those that are waiting; its session has the newest context.\<close>

lemma runConnect_parts:
  "\<exists>ts. c_tasks (runConnect net A B opened g c) = c_tasks c @ ts"
  "c_session (runConnect net A B opened g c) = Some s \<Longrightarrow> c_session c = None \<Longrightarrow>
   as_ctx s = c_contexts c \<and> c_contexts (runConnect net A B opened g c) = Suc (c_contexts c) \<and> c_cancelled (runConnect net A B opened g c) = c_cancelled c"
proof -
  let ?c = "c\<lparr>c_contexts := Suc (c_contexts c), c_packetsOut := 0, c_packetsIn := 0\<rparr>"
  obtain res c1 where call: "withClient A ?c = (res, c1)" by (cases "withClient A ?c")
  obtain m c2 where desc: "describeGroup B g c1 = (m, c2)" by (cases "describeGroup B g c1")
  have apart: "c_tasks c2 = c_tasks c1" "c_session c2 = c_session c1"
    using desc apart_with [of B c1] by (auto simp: describeGroup_def apart_def split: prod.splits sum.splits)
  have ctx: "c_contexts c2 = Suc (c_contexts c)" "c_cancelled c2 = c_cancelled c"
    using frame_withD [OF call] frame_describe [of B g c1] desc by (simp_all add: frame_def)
  have same: "c_tasks c1 = c_tasks c" "c_session c1 = c_session c" using apart_withD [OF call] by simp_all
  define s' where "s' r = fst (connected r m g (c_contexts c) c2)" for r
  define c3 where "c3 r = snd (connected r m g (c_contexts c) c2)" for r
  have conn: "connected r m g (c_contexts c) c2 = (s' r, c3 r)" for r by (simp add: s'_def c3_def)
  have conn': "c_tasks (c3 r) = c_tasks c" "c_session (c3 r) = Some (s' r)" "as_ctx (s' r) = c_contexts c"
    "c_contexts (c3 r) = Suc (c_contexts c)" "c_cancelled (c3 r) = c_cancelled c" for r
    by (simp_all add: s'_def c3_def connected_def Let_def apart same ctx emit_def upd_state_def)
  have run: "runConnect net A B opened g c =
    (case res of Inl e \<Rightarrow> failConnect e (cancel_ctx (c_contexts c) c1)
     | Inr r \<Rightarrow> go_task (LoadMembers g) (startNetwork net opened (s' r) (sr_Peers r) (c3 r)))"
    by (simp add: runConnect_def call desc conn split: sum.splits)
  have fail: "c_tasks (failConnect e (cancel_ctx (c_contexts c) c1)) = c_tasks c" "c_session (failConnect e (cancel_ctx (c_contexts c) c1)) = c_session c" for e
    by (simp_all add: failConnect_def Let_def same)
  show "\<exists>ts. c_tasks (runConnect net A B opened g c) = c_tasks c @ ts"
  proof (cases res)
    case (Inr r)
    then show ?thesis
      using startNetwork_parts(4) [of net opened "s' r" "sr_Peers r" "c3 r"] by (auto simp: run conn')
  qed (simp add: run fail)
  assume "c_session (runConnect net A B opened g c) = Some s" "c_session c = None"
  then show "as_ctx s = c_contexts c \<and> c_contexts (runConnect net A B opened g c) = Suc (c_contexts c) \<and>
      c_cancelled (runConnect net A B opened g c) = c_cancelled c"
    by (cases res) (auto simp: run fail startNetwork_parts(1-3) conn')
qed

text \<open>
A session can be ended in the name of the one before it. The heartbeat learns that its session is gone and starts
the goroutine that ends it, but before that goroutine runs the user disconnects and connects to a group. It does not
know which session it was started for, so it ends the new one and tells the user the connection was lost.
\<close>

theorem stale_drop_ends_next_session:
  fixes c :: "('hs, 'cs) core"
  assumes inv: "core_inv c" and s: "c_session c = Some s" and g: "g \<noteq> []"
    and c1: "c1 = Disconnect D (session_invalidated c)" and c2: "Connect D' g c1 = (None, c2)"
    and c3: "c3 = run_task w (RunConnect g) (c2\<lparr>c_tasks := c_tasks c @ [DropSession ''The connection to the group was lost.'']\<rparr>)"
    and s': "c_session c3 = Some s'"
  shows "core_step\<^sup>*\<^sup>* c c3 \<and>
    (\<exists>c4. core_step c3 c4 \<and> c_session c4 = None \<and> \<not> live (as_ctx s') c4 \<and>
       st_Connection (snapshot c4) = StateDisconnected \<and> st_Message (snapshot c4) = ''The connection to the group was lost.'')"
proof -
  let ?drop = "DropSession ''The connection to the group was lost.''"
  have "live (as_ctx s) c" using core_invD(2) [OF inv] s by (auto simp: contexts_ok_def)
  then have step1: "core_step c (session_invalidated c)" by (rule step_invalidated)
  have s1: "c_session (session_invalidated c) = Some s" using s by (simp add: session_invalidated_def)
  obtain d where d: "c1 = finishDisconnect s [] d" "c_tasks d = c_tasks c @ [?drop]" "c_session d = None"
    using Disconnect_Some [OF s1, of D] by (metis c1 c_tasks_simps(6) session_invalidated_def)
  then have "c2 = connect_begin g c1"
    using c2 g by (simp add: Connect_def connect_check_def finish_parts shown_disconnected_def)
  then have t2: "c_tasks c2 = (c_tasks c @ [?drop]) @ RunConnect g # []" by (simp add: connect_begin_def d finish_parts)
  have step3: "core_step c2 c3" using step_task [OF t2, of w] by (simp add: c3)
  have step2: "core_step c1 c2" using step_connect [of c1 D' g] c2 by simp
  have "core_step (session_invalidated c) c1" unfolding c1 by (rule step_disconnect)
  with step1 have "core_step\<^sup>*\<^sup>* c c1" by simp
  then have steps: "core_step\<^sup>*\<^sup>* c c3" using step2 step3 by simp
  obtain ts where "c_tasks c3 = c_tasks c @ ?drop # ts"
    using runConnect_parts(1) [of "w_net w" "w_session w" "w_groups w" "w_socket w" g "c2\<lparr>c_tasks := c_tasks c @ [?drop]\<rparr>"]
    by (auto simp: c3 run_task_def)
  then have "core_step c3 (dropSession ''The connection to the group was lost.'' (c3\<lparr>c_tasks := c_tasks c @ ts\<rparr>))" (is "core_step c3 ?c4")
    using step_task [of c3 "c_tasks c" ?drop ts w] by (simp add: run_task_def)
  moreover have "?c4 = finishDisconnect s' ''The connection to the group was lost.''
      (cancel_ctx (as_ctx s') (c3\<lparr>c_tasks := c_tasks c @ ts, c_session := None\<rparr>))"
    using s' by (simp add: dropSession_def)
  moreover have "as_ctx s' \<in> set (c_cancelled (finishDisconnect s' r (cancel_ctx (as_ctx s') c')))" for r and c' :: "('hs, 'cs) core"
    by (simp add: finishDisconnect_def Let_def emit_def close_device_def close_mesh_def upd_state_def cancel_ctx_def split: option.splits)
  ultimately show ?thesis
    using steps by (auto simp: snapshot_def finish_parts shown_disconnected_def live_def intro!: exI [of _ ?c4])
qed

text \<open>
A connect can slip into a disconnect. Between taking the session out and tearing it down \<open>Disconnect\<close> talks to
the server without the lock, and a connect that another client of the daemon asks for goes ahead then. What the
disconnect goes on to close are the links of the new session: it is left running its heartbeat with no socket, and
the user is shown a device that is disconnected.
\<close>

theorem connect_slips_into_disconnect:
  fixes c :: "('hs, 'cs) core"
  assumes inv: "core_inv c" and s: "c_session c = Some s" and g: "g \<noteq> []"
    and c1: "disconnect_take c = (Some s, c1)" and c2: "c2 = connect_begin g c1"
    and c3: "c3 = runConnect net A B opened g (c2\<lparr>c_tasks := c_tasks c1\<rparr>)" and s': "c_session c3 = Some s'"
    and c4: "c4 = disconnect_rest D s c3"
  shows "connect_check g c1 = Proceed False \<and> c_session c4 = Some s' \<and> live (as_ctx s') c4 \<and>
    c_mesh c4 = None \<and> set_option (c_mesh c3) \<subseteq> set (c_closedMeshes c4) \<and>
    st_Connection (snapshot c4) = StateDisconnected"
proof -
  have taken: "c1 = upd_state (\<lambda>st. st\<lparr>st_Connection := StateDisconnecting\<rparr>) (c\<lparr>c_session := None\<rparr>)"
    using c1 s by (simp add: disconnect_take_def)
  have "connect_check g c1 = Proceed False" using g by (simp add: taken connect_check_def upd_state_def)
  moreover have "c_session c1 = None" "c_contexts c1 = c_contexts c" "c_cancelled c1 = c_cancelled c"
    by (simp_all add: taken upd_state_def)
  then have new: "as_ctx s' = c_contexts c" "c_contexts c3 = Suc (c_contexts c)" "c_cancelled c3 = c_cancelled c"
    using runConnect_parts(2) [OF s' [unfolded c3]] by (simp_all add: c3 c2 connect_begin_def announce_def emit_def upd_state_def)
  obtain x d where call: "withClient D (cancel_ctx (as_ctx s) c3) = (x, d)" by (cases "withClient D (cancel_ctx (as_ctx s) c3)")
  have rest: "c4 = finishDisconnect s [] d" by (simp add: c4 disconnect_rest_def call)
  have d: "c_session d = Some s'" "c_mesh d = c_mesh c3" "c_contexts d = Suc (c_contexts c)" "c_cancelled d = as_ctx s # c_cancelled c"
    using apart_withD [OF call] frame_withD [OF call] s' new by (simp_all add: frame_def cancel_ctx_def)
  have "as_ctx s < c_contexts c" "c_contexts c \<notin> set (c_cancelled c)"
    using core_invD(2) [OF inv] s by (auto simp: contexts_ok_def live_def)
  then have "live (as_ctx s') c4"
    by (simp add: live_def new rest finishDisconnect_def Let_def emit_def close_device_def close_mesh_def upd_state_def d split: option.splits)
  moreover have "set_option (c_mesh d) \<subseteq> set (c_closedMeshes (finishDisconnect s [] d))"
    by (simp add: finishDisconnect_def Let_def emit_def close_device_def close_mesh_def upd_state_def split: option.splits)
  ultimately show ?thesis by (simp add: rest finish_parts d snapshot_def shown_disconnected_def)
qed

text \<open>An adapter that comes up after its session has ended stays up: nothing closes it, and disconnecting again does nothing.\<close>

lemma late_adapter_stays:
  assumes "adapterAddress ip subnet = Inr a"
  shows "let c' = startAdapter None held ip subnet (Disconnect D c) in c_device c' \<noteq> None \<and> Disconnect D' c' = c'"
  using assms Disconnect_session [of D c]
  by (simp add: startAdapter_def Let_def setMessage_def Disconnect_def [of D'] disconnect_take_def)
     (simp add: announce_def emit_def upd_state_def)

text \<open>A server that is there and answers.\<close>

definition cached :: "('hs, 'cs) core \<Rightarrow> bool" where
  "cached c \<longleftrightarrow> (\<exists>cl. c_client c = Some cl \<and> cl_baseURL cl = set_ServerURL (c_settings c))"

lemma withClient_cached: "cached c \<Longrightarrow> rd_call (an_first A) = Inr x \<Longrightarrow> withClient A c = (Inr x, setServerOnline True c)"
  by (auto simp: cached_def withClient_def ensureClient_def Let_def)

lemma runConnect_cached:
  assumes "cached c" "rd_call (an_first A) = Inr reply"
  obtains s where "c_session (runConnect net A B opened g c) = Some s"
proof -
  let ?c = "c\<lparr>c_contexts := Suc (c_contexts c), c_packetsOut := 0, c_packetsIn := 0\<rparr>"
  have "cached ?c" using assms(1) by (simp add: cached_def)
  note call = withClient_cached [OF this assms(2)]
  obtain m c2 where "describeGroup B g (setServerOnline True ?c) = (m, c2)" by fastforce
  with call that show thesis by (simp add: runConnect_def connected_def Let_def startNetwork_parts(1))
qed

lemma Disconnect_cached:
  assumes "cached c" "rd_call (an_first D) = Inr ()"
  shows "cached (Disconnect D c)"
proof (cases "c_session c")
  case None
  then show ?thesis using assms(1) by (simp add: Disconnect_def disconnect_take_def)
next
  case (Some s)
  let ?c = "cancel_ctx (as_ctx s) (upd_state (\<lambda>st. st\<lparr>st_Connection := StateDisconnecting\<rparr>) (c\<lparr>c_session := None\<rparr>))"
  have "cached ?c" using assms(1) by (simp add: cached_def cancel_ctx_def upd_state_def)
  from withClient_cached [OF this assms(2)] show ?thesis
    using assms(1) Some
    by (simp add: Disconnect_def disconnect_take_def disconnect_rest_def finishDisconnect_def setServerOnline_def Let_def cached_def
        close_device_def close_mesh_def cancel_ctx_def upd_state_def emit_def split: option.splits)
qed

section \<open>A small device\<close>

definition toy_identity :: identity where
  "toy_identity = \<lparr>id_DeviceID = ''dev_a'', id_Name = ''pc'', id_Nickname = ''pc'', id_Signing = replicate 32 1,
     id_Transport = \<lparr>kp_Private = replicate 32 2, kp_Public = replicate 32 3\<rparr>, id_Token = ''t'', id_ServerURL = ''https://a''\<rparr>"

definition toy_start :: "(unit, unit) core" where
  "toy_start = NewCore toy_identity \<lparr>set_ServerURL = ''https://a'', set_LanDiscovery = True, set_PacketLog = False\<rparr> ''https://a'' True"

definition toy_discovery :: discovery where
  "toy_discovery = \<lparr>disc_Version = 1, disc_API = ''a'', disc_Realtime = ''r'', disc_STUN = [], disc_Invite = ''i'',
     disc_Relay = None, disc_Features = \<lparr>ft_Relay = False, ft_PeerRouting = False\<rparr>\<rparr>"

definition toy_session :: active_session where
  "toy_session = \<lparr>as_sessionID = ''ses'', as_groupID = ''grp'', as_groupName = ''lan'', as_virtualIP = ''10.69.0.1'',
     as_subnet = ''10.69.0.0/24'', as_ctx = 0\<rparr>"

definition toy_view :: "string \<Rightarrow> string \<Rightarrow> peer_view" where
  "toy_view d ip = new_view d d ip PeerDirect False"

text \<open>A device that is connected to a group, and sees two others there.\<close>

definition toy_core :: "(unit, unit) core" where
  "toy_core = toy_start\<lparr>
     c_client := Some \<lparr>cl_discovery = toy_discovery, cl_baseURL = ''https://a'', cl_token = ''t''\<rparr>,
     c_session := Some toy_session, c_contexts := 1,
     c_peers := [(''dev_c'', toy_view ''dev_c'' ''10.69.0.3''), (''dev_b'', toy_view ''dev_b'' ''10.69.0.2'')],
     c_state := (c_state toy_start)\<lparr>st_Connection := StateConnected, st_GroupID := ''grp'', st_GroupName := ''lan'',
       st_VirtualIP := ''10.69.0.1''\<rparr>\<rparr>"

definition toy_round :: "(go_error + 'a) \<Rightarrow> 'a round" where
  "toy_round answer = \<lparr>rd_discover = Answered 200 (JsonDiscovery toy_discovery), rd_register = Inr ''u'', rd_tokenSaved = True,
     rd_me = Inl OtherError, rd_nicknameSaved = True, rd_call = answer\<rparr>"

definition toy_answers :: "(go_error + 'a) \<Rightarrow> 'a answers" where
  "toy_answers answer = \<lparr>an_first = toy_round answer, an_cleared = True, an_second = toy_round answer\<rparr>"

definition toy_unauthorized :: go_error where
  "toy_unauthorized = ControlError \<lparr>ce_Status = 401, ce_Code = code_text Unauthorized, ce_Message = ''''\<rparr>"

definition toy_world :: "world" where
  "toy_world = \<lparr>w_net = \<lparr>nt_env = toy_env, nt_addr = (\<lambda>_. None), nt_key = (\<lambda>_. None)\<rparr>,
     w_session = toy_answers (Inr \<lparr>sr_SessionID = ''new'', sr_VirtualIP = ''10.69.0.9'', sr_Peers = []\<rparr>),
     w_groups = toy_answers (Inr []), w_members = toy_answers (Inr []), w_socket = False, w_adapter = None, w_held = []\<rparr>"

lemma toy_core_inv: "core_inv toy_core"
  by (auto simp: toy_core_def toy_start_def NewCore_def core_inv_def shown_ok_def contexts_ok_def sockets_ok_def rows_ok_def row_keys_def
      live_def pending_def toy_session_def toy_view_def new_view_def)

lemma toy_core_session: "c_session toy_core = Some toy_session"
  by (simp add: toy_core_def)

lemma toy_core_cached: "cached toy_core"
  by (simp add: toy_core_def toy_start_def NewCore_def cached_def)



theorem peer_list_is_stable_witness:
  "snapshot (toy_core\<lparr>c_peers := rev (c_peers toy_core)\<rparr>) = snapshot toy_core \<and>
   mset (st_Peers (snapshot toy_core)) = mset (map snd (c_peers toy_core)) \<and> sorted (map row_order (st_Peers (snapshot toy_core)))"
  by (rule peer_list_is_stable) (simp_all add: toy_core_def toy_view_def new_view_def)

theorem outage_keeps_session_witness:
  "apart (snd (heartbeats [toy_answers (Inl OtherError), toy_answers (Inl OtherError)] toy_core)) = apart toy_core"
proof -
  have "Discover url (rd_discover (toy_round (Inl OtherError :: go_error + unit))) = Inr \<lparr>cl_discovery = toy_discovery, cl_baseURL = TrimRight url ''/'', cl_token = []\<rparr>" for url
    by (simp add: toy_round_def Discover_def do_answer_def toy_discovery_def DiscoveryVersion_def)
  then have "\<not> round_says (toy_round (Inl OtherError :: go_error + unit)) ''session_invalid''"
    by (simp add: round_says_def) (simp add: toy_round_def)
  then show ?thesis
    using outage_keeps_session [of "[toy_answers (Inl OtherError), toy_answers (Inl OtherError)]" toy_core] by (simp add: toy_answers_def)
qed

theorem rejected_token_is_replaced_witness:
  "let (r, c') = withClient \<lparr>an_first = toy_round (Inl toy_unauthorized), an_cleared = True, an_second = toy_round (Inr ())\<rparr> toy_core
   in r = Inr () \<and> id_Token (c_identity c') = ''u''"
proof -
  let ?A = "\<lparr>an_first = toy_round (Inl toy_unauthorized), an_cleared = True, an_second = toy_round (Inr ())\<rparr>"
  have "Discover ''https://a'' (rd_discover (an_second ?A)) = Inr \<lparr>cl_discovery = toy_discovery, cl_baseURL = TrimRight ''https://a'' ''/'', cl_token = []\<rparr>"
    by (simp add: toy_round_def Discover_def do_answer_def toy_discovery_def DiscoveryVersion_def)
  moreover have "IsUnauthorized toy_unauthorized" by (simp add: toy_unauthorized_def IsUnauthorized_def)
  moreover have "c_client toy_core = Some \<lparr>cl_discovery = toy_discovery, cl_baseURL = ''https://a'', cl_token = ''t''\<rparr>"
    "set_ServerURL (c_settings toy_core) = ''https://a''" by (simp_all add: toy_core_def toy_start_def NewCore_def)
  ultimately show ?thesis
    using rejected_token_is_replaced [of toy_core _ ?A toy_unauthorized _ "''u''" "()"] by (auto simp: toy_round_def)
qed

theorem member_list_becomes_rows_witness:
  "lookup (c_peers (loadMembers (toy_answers (Inr [\<lparr>mb_DeviceID = ''dev_b'', mb_Nickname = ''bea'', mb_VirtualIP = ''10.69.0.2'',
     mb_Role = RoleOwner, mb_Online = True\<rparr>])) ''grp'' toy_core)) ''dev_b'' =
   Some ((toy_view ''dev_b'' ''10.69.0.2'')\<lparr>pv_Nickname := ''bea'', pv_IsOwner := True\<rparr>)"
proof -
  let ?ms = "[\<lparr>mb_DeviceID = ''dev_b'', mb_Nickname = ''bea'', mb_VirtualIP = ''10.69.0.2'', mb_Role = RoleOwner, mb_Online = True\<rparr>]"
  have "withClient (toy_answers (Inr ?ms)) toy_core = (Inr ?ms, setServerOnline True toy_core)"
    by (rule withClient_cached [OF toy_core_cached]) (simp add: toy_answers_def toy_round_def)
  from member_list_becomes_rows [OF this toy_core_session, of "''grp''" "''dev_b''"] show ?thesis
    by (simp add: toy_session_def member_view_def toy_core_def toy_view_def new_view_def toy_start_def NewCore_def toy_identity_def
        setServerOnline_def Let_def upd_state_def emit_def)
qed

theorem stale_drop_ends_next_session_witness:
  "\<exists>c3 c4. core_step\<^sup>*\<^sup>* toy_core c3 \<and> c_session c3 \<noteq> None \<and> core_step c3 c4 \<and> c_session c4 = None"
proof -
  let ?D = "toy_answers (Inr ())"
  let ?c1 = "Disconnect ?D (session_invalidated toy_core)"
  obtain d where d: "?c1 = finishDisconnect toy_session [] d"
    using Disconnect_Some [of "session_invalidated toy_core" toy_session ?D] by (auto simp: session_invalidated_def toy_core_session)
  have "cached (session_invalidated toy_core)"
    using toy_core_cached by (simp add: session_invalidated_def cached_def go_task_def)
  then have "cached ?c1" by (rule Disconnect_cached) (simp add: toy_answers_def toy_round_def)
  then have begun: "cached (connect_begin ''lan2'' ?c1)"
    by (simp add: cached_def connect_begin_def announce_def emit_def upd_state_def go_task_def)
  have "Connect ?D ''lan2'' ?c1 = (None, connect_begin ''lan2'' ?c1)"
    using Disconnect_session [of ?D "session_invalidated toy_core"]
    by (simp add: Connect_def connect_check_def d finish_parts shown_disconnected_def)
  note next_session = stale_drop_ends_next_session [OF toy_core_inv toy_core_session _ refl this refl]
  let ?c2 = "(connect_begin ''lan2'' ?c1)\<lparr>c_tasks := c_tasks toy_core @ [DropSession ''The connection to the group was lost.'']\<rparr>"
  have "cached ?c2" using begun by (simp add: cached_def)
  then obtain s where s: "c_session (run_task toy_world (RunConnect ''lan2'') ?c2) = Some s"
    unfolding run_task_def task.case
    by (rule runConnect_cached [where A = "w_session toy_world"]) (simp_all add: toy_world_def toy_answers_def toy_round_def)
  from next_session [OF _ s] show ?thesis using s by auto
qed

theorem connect_slips_into_disconnect_witness:
  "\<exists>s1 c1 s'. \<exists>c4 :: (unit, unit) core. disconnect_take toy_core = (Some s1, c1) \<and> connect_check ''lan2'' c1 = Proceed False \<and>
     c_session c4 = Some s' \<and> live (as_ctx s') c4 \<and> st_Connection (snapshot c4) = StateDisconnected"
proof -
  obtain c1 where c1: "disconnect_take toy_core = (Some toy_session, c1)" by (simp add: disconnect_take_def toy_core_session)
  then have "cached ((connect_begin ''lan2'' c1)\<lparr>c_tasks := c_tasks c1\<rparr>)"
    using toy_core_cached
    by (auto simp: cached_def connect_begin_def announce_def emit_def upd_state_def go_task_def disconnect_take_def toy_core_session)
  then obtain s where s: "c_session (runConnect (w_net toy_world) (w_session toy_world) (w_groups toy_world) False ''lan2''
      ((connect_begin ''lan2'' c1)\<lparr>c_tasks := c_tasks c1\<rparr>)) = Some s"
    by (rule runConnect_cached [where A = "w_session toy_world"]) (simp_all add: toy_world_def toy_answers_def toy_round_def)
  from connect_slips_into_disconnect [OF toy_core_inv toy_core_session _ c1 refl refl s refl, of "toy_answers (Inr ())"]
  have "connect_check ''lan2'' c1 = Proceed False" "\<exists>c4 :: (unit, unit) core. c_session c4 = Some s \<and> live (as_ctx s) c4 \<and> st_Connection (snapshot c4) = StateDisconnected"
    by auto
  with c1 show ?thesis by blast
qed

text \<open>
Removing somebody from one group takes them out of another. The owner who removes a device from a group while
connected to a different one that it is in as well loses its row and its link there, although it is still a member:
the name of the group goes to the server and no further.
\<close>

theorem removal_reaches_other_group:
  assumes "c_session c = Some s" and "as_groupID s \<noteq> g" and "g \<noteq> []" and "d \<noteq> []" and "lookup (c_peers c) d \<noteq> None"
    and "withClient A c = (Inr (), c1)" and "c_mesh c = Some r" and "r < length (c_meshes c)"
  shows "let (x, c') = RemoveMember_core A g d c
    in x = Inr () \<and> c_session c' = Some s \<and> lookup (c_peers c') d = None \<and>
       c_meshes c' ! r = RemovePeer (text_bytes d) (c_meshes c ! r)"
  using assms apart_withD [OF assms(6)]
  by (simp add: RemoveMember_core_def removePeer_def Let_def unlink_def upd_mesh_def emit_def)

definition toy_linked :: "(unit, unit) core" where
  "toy_linked = toy_core\<lparr>c_meshes := [New [] NoAddr (id_Transport toy_identity) new_recorder], c_mesh := Some 0\<rparr>"

theorem removal_reaches_other_group_witness:
  "let (x, c') = RemoveMember_core (toy_answers (Inr ())) ''old'' ''dev_b'' toy_linked
   in x = Inr () \<and> c_session c' = Some toy_session \<and> lookup (c_peers c') ''dev_b'' = None"
proof -
  have "cached toy_linked" using toy_core_cached by (simp add: toy_linked_def cached_def)
  then have "withClient (toy_answers (Inr ())) toy_linked = (Inr (), setServerOnline True toy_linked)"
    by (rule withClient_cached) (simp add: toy_answers_def toy_round_def)
  from removal_reaches_other_group [OF _ _ _ _ _ this, of toy_session "''old''" "''dev_b''" 0] show ?thesis
    by (auto simp: toy_linked_def toy_core_def toy_session_def)
qed

end
