(* ===== verification/Ipc.thy ===== *)
theory Ipc
  imports Core_Props
begin

text \<open>
  The local control channel: \<^verbatim>\<open>daemon/ipcserver/server.go\<close> and \<^verbatim>\<open>protocol/ipc\<close>. Requests are lines of JSON on a
  named pipe, answered one after another on each connection; events go out to everyone who is connected.
  A line that was read is a request or not; the parameters of a request are JSON that has been checked
  already, an object's keys standing for the fields they match. Encoding an answer cannot fail: all it is
  made of is text, numbers, switches and lists of them.
\<close>

section \<open>Requests\<close>

datatype ipc_method =
    MethodGetState | MethodGetGroups | MethodCreateGroup | MethodJoinGroup | MethodGetInvite | MethodLeaveGroup
  | MethodConnect | MethodDisconnect | MethodSetNickname | MethodRetryPeer | MethodRemoveMember | MethodRenameGroup
  | MethodSetGroupAppearance | MethodResetInvite | MethodTransferOwnership | MethodDeleteGroup | MethodGetServer
  | MethodSetServer | MethodTestServer | MethodGetLanDiscovery | MethodSetLanDiscovery | MethodGetPacketLog
  | MethodSetPacketLog | MethodClearLogs | MethodResetSettings

definition methods :: "(string \<times> ipc_method) list" where
  "methods =
     [(''GetState'', MethodGetState), (''GetGroups'', MethodGetGroups), (''CreateGroup'', MethodCreateGroup),
      (''JoinGroup'', MethodJoinGroup), (''GetInvite'', MethodGetInvite), (''LeaveGroup'', MethodLeaveGroup),
      (''ConnectGroup'', MethodConnect), (''Disconnect'', MethodDisconnect), (''SetNickname'', MethodSetNickname),
      (''RetryPeer'', MethodRetryPeer), (''RemoveMember'', MethodRemoveMember), (''RenameGroup'', MethodRenameGroup),
      (''SetGroupAppearance'', MethodSetGroupAppearance), (''ResetInvite'', MethodResetInvite),
      (''TransferOwnership'', MethodTransferOwnership), (''DeleteGroup'', MethodDeleteGroup), (''GetServer'', MethodGetServer),
      (''SetServer'', MethodSetServer), (''TestServer'', MethodTestServer), (''GetLanDiscovery'', MethodGetLanDiscovery),
      (''SetLanDiscovery'', MethodSetLanDiscovery), (''GetPacketLog'', MethodGetPacketLog), (''SetPacketLog'', MethodSetPacketLog),
      (''ClearLogs'', MethodClearLogs), (''ResetSettings'', MethodResetSettings)]"

datatype json_value = JString string | JBool bool | JNull | JOther

datatype json_params = NoParams | NullParams | ObjectParams "(string \<times> json_value) list" | OtherParams

record ipc_request =
  iq_ID :: string
  iq_Method :: string
  iq_Params :: json_params

text \<open>What a method answers with when it does not fail; most answer nothing.\<close>

datatype ipc_result =
    NoResult
  | StateResult ipc_state
  | GetGroupsResult "ipc_group list"
  | GroupResult ipc_group
  | InviteResult "api_invite option"
  | InviteCodeResult string string
  | GetServerResult string
  | TestServerResult "int \<times> features + string"
  | LanDiscoveryResult bool
  | PacketLogResult bool
  | ClearLogsResult "string list"

record ipc_response =
  rs_ID :: string
  rs_OK :: bool
  rs_Result :: "ipc_result option"
  rs_Err :: "(string \<times> string) option"

section \<open>Parameters\<close>

text \<open>
  A key that is there twice counts the second time; a null changes nothing; a value of another type is
  an error, named by its field, and the first one is the one that is reported.
\<close>

datatype json_error = WrongType string

definition string_field :: "string \<Rightarrow> (string \<times> json_value) list \<Rightarrow> string" where
  "string_field k kvs = fold (\<lambda>(k', v) s. if k' = k then (case v of JString s' \<Rightarrow> s' | _ \<Rightarrow> s) else s) kvs []"

definition bool_field :: "string \<Rightarrow> (string \<times> json_value) list \<Rightarrow> bool" where
  "bool_field k kvs = fold (\<lambda>(k', v) b. if k' = k then (case v of JBool b' \<Rightarrow> b' | _ \<Rightarrow> b) else b) kvs False"

definition is_string :: "json_value \<Rightarrow> bool" where
  "is_string v \<longleftrightarrow> v = JNull \<or> (\<exists>s. v = JString s)"

definition is_bool :: "json_value \<Rightarrow> bool" where
  "is_bool v \<longleftrightarrow> v = JNull \<or> (\<exists>b. v = JBool b)"

text \<open>The fields of a structure, each with what may be stored in it.\<close>

definition UnmarshalParams ::
  "(string \<times> (json_value \<Rightarrow> bool)) list \<Rightarrow> json_params \<Rightarrow> json_error + (string \<times> json_value) list" where
  "UnmarshalParams allowed p =
     (case p of
        NoParams \<Rightarrow> Inr []
      | NullParams \<Rightarrow> Inr []
      | OtherParams \<Rightarrow> Inl (WrongType [])
      | ObjectParams kvs \<Rightarrow>
          (case find (\<lambda>(k, v). case map_of allowed k of None \<Rightarrow> False | Some fits \<Rightarrow> \<not> fits v) kvs of
             Some (k, v) \<Rightarrow> Inl (WrongType k)
           | None \<Rightarrow> Inr kvs))"

definition strings :: "string list \<Rightarrow> (string \<times> (json_value \<Rightarrow> bool)) list" where
  "strings ks = map (\<lambda>k. (k, is_string)) ks"

definition badParams :: "(json_error \<Rightarrow> string) \<Rightarrow> json_error \<Rightarrow> core_error" where
  "badParams wording e = Failure ''bad_request'' (''The request could not be read: '' @ wording e)"

section \<open>Calling the core\<close>

text \<open>What a request meets outside the daemon's memory while it runs.\<close>

record ('hs, 'cs) outside =
  o_groups :: "api_membership list answers"
  o_membership :: "api_membership answers"
  o_invite :: "api_invite answers"
  o_newCode :: "string answers"
  o_done :: "unit answers"
  o_disconnect :: "unit answers"
  o_saved :: bool
  o_savedLan :: bool
  o_held :: string
  o_openable :: bool
  o_parse :: "string \<Rightarrow> url option"
  o_urlWording :: "config_error \<Rightarrow> string"
  o_jsonWording :: "json_error \<Rightarrow> string"
  o_discover :: http_answer
  o_mainLog :: "bool option"
  o_packetLog :: bool
  o_noise :: "(keypair, 'hs, 'cs) noise"
  o_net :: net

text \<open>An operation that answers with an error or with nothing.\<close>

definition ended :: "(core_error + unit) \<times> 's \<Rightarrow> (core_error + ipc_result) \<times> 's" where
  "ended r = (case r of (Inl e, s) \<Rightarrow> (Inl e, s) | (Inr _, s) \<Rightarrow> (Inr NoResult, s))"

definition failing :: "core_error option \<times> 's \<Rightarrow> (core_error + ipc_result) \<times> 's" where
  "failing r = (case r of (Some e, s) \<Rightarrow> (Inl e, s) | (None, s) \<Rightarrow> (Inr NoResult, s))"

definition answering :: "('a \<Rightarrow> ipc_result) \<Rightarrow> (core_error + 'a) \<times> 's \<Rightarrow> (core_error + ipc_result) \<times> 's" where
  "answering f r = (case r of (Inl e, s) \<Rightarrow> (Inl e, s) | (Inr x, s) \<Rightarrow> (Inr (f x), s))"

text \<open>Reading the parameters first.\<close>

definition reading ::
  "('hs, 'cs) outside \<Rightarrow> (string \<times> (json_value \<Rightarrow> bool)) list \<Rightarrow> json_params \<Rightarrow> 's \<Rightarrow>
     ((string \<times> json_value) list \<Rightarrow> (core_error + ipc_result) \<times> 's) \<Rightarrow> (core_error + ipc_result) \<times> 's" where
  "reading w allowed p s k = (case UnmarshalParams allowed p of Inl e \<Rightarrow> (Inl (badParams (o_jsonWording w) e), s) | Inr kvs \<Rightarrow> k kvs)"

definition call_method ::
  "('hs, 'cs) outside \<Rightarrow> ipc_method \<Rightarrow> json_params \<Rightarrow> ('hs, 'cs) core \<Rightarrow> (core_error + ipc_result) \<times> ('hs, 'cs) core" where
  "call_method w m p c =
     (case m of
        MethodGetState \<Rightarrow> (Inr (StateResult (GetState c)), c)
      | MethodGetGroups \<Rightarrow> answering GetGroupsResult (GetGroups (o_groups w) c)
      | MethodCreateGroup \<Rightarrow>
          reading w (strings [''name'', ''icon'', ''color'']) p c
            (\<lambda>kvs. answering GroupResult (CreateGroup_core (o_membership w) (string_field ''name'' kvs) c))
      | MethodJoinGroup \<Rightarrow>
          reading w (strings [''code'']) p c
            (\<lambda>kvs. answering GroupResult (JoinGroup (o_membership w) (string_field ''code'' kvs) c))
      | MethodLeaveGroup \<Rightarrow>
          reading w (strings [''groupId'']) p c
            (\<lambda>kvs. ended (LeaveGroup (o_disconnect w) (o_done w) (string_field ''groupId'' kvs) c))
      | MethodConnect \<Rightarrow>
          reading w (strings [''groupId'']) p c (\<lambda>kvs. failing (Connect (o_disconnect w) (string_field ''groupId'' kvs) c))
      | MethodDisconnect \<Rightarrow> (Inr NoResult, Disconnect (o_disconnect w) c)
      | MethodSetNickname \<Rightarrow>
          reading w (strings [''nickname'']) p c
            (\<lambda>kvs. ended (SetNickname_core (o_done w) (o_saved w) (string_field ''nickname'' kvs) c))
      | MethodRetryPeer \<Rightarrow>
          reading w (strings [''deviceId'']) p c
            (\<lambda>kvs. failing (RetryPeer_core (o_noise w) (o_net w) (string_field ''deviceId'' kvs) c))
      | MethodRemoveMember \<Rightarrow>
          reading w (strings [''groupId'', ''deviceId'']) p c
            (\<lambda>kvs. ended (RemoveMember_core (o_done w) (string_field ''groupId'' kvs) (string_field ''deviceId'' kvs) c))
      | MethodRenameGroup \<Rightarrow>
          reading w (strings [''groupId'', ''name'']) p c
            (\<lambda>kvs. ended (RenameGroup_core (o_done w) (string_field ''groupId'' kvs) (string_field ''name'' kvs) c))
      | MethodGetInvite \<Rightarrow>
          reading w (strings [''code'']) p c (\<lambda>kvs. answering InviteResult (GetInvite (o_invite w) (string_field ''code'' kvs) c))
      | MethodResetInvite \<Rightarrow>
          reading w (strings [''groupId'']) p c
            (\<lambda>kvs. answering (\<lambda>(ic, link). InviteCodeResult ic link) (ResetInvite (o_newCode w) (string_field ''groupId'' kvs) c))
      | MethodSetGroupAppearance \<Rightarrow>
          reading w (strings [''groupId'', ''icon'', ''color'']) p c
            (\<lambda>kvs. ended (SetGroupAppearance_core (o_done w) (string_field ''groupId'' kvs) (string_field ''icon'' kvs)
               (string_field ''color'' kvs) c))
      | MethodTransferOwnership \<Rightarrow>
          reading w (strings [''groupId'', ''deviceId'']) p c
            (\<lambda>kvs. ended (TransferOwnership_core (o_done w) (string_field ''groupId'' kvs) (string_field ''deviceId'' kvs) c))
      | MethodDeleteGroup \<Rightarrow>
          reading w (strings [''groupId'']) p c
            (\<lambda>kvs. ended (DeleteGroup_core (o_disconnect w) (o_done w) (string_field ''groupId'' kvs) c))
      | MethodGetServer \<Rightarrow> (Inr (GetServerResult (GetServer c)), c)
      | MethodSetServer \<Rightarrow>
          reading w (strings [''url'']) p c
            (\<lambda>kvs. failing (SetServer (o_parse w) (o_urlWording w) (o_disconnect w) (o_saved w) (string_field ''url'' kvs) c))
      | MethodTestServer \<Rightarrow>
          reading w (strings [''url'']) p c
            (\<lambda>kvs. (map_sum id TestServerResult (TestServer (o_parse w) (o_urlWording w) (o_discover w) (string_field ''url'' kvs)), c))
      | MethodGetLanDiscovery \<Rightarrow> (Inr (LanDiscoveryResult (GetLanDiscovery c)), c)
      | MethodSetLanDiscovery \<Rightarrow>
          reading w [(''enabled'', is_bool)] p c
            (\<lambda>kvs. case SetLanDiscovery (o_savedLan w) (o_held w) (bool_field ''enabled'' kvs) c of
               (Some e, c) \<Rightarrow> (Inl e, c)
             | (None, c) \<Rightarrow> (Inr (LanDiscoveryResult (bool_field ''enabled'' kvs)), c))
      | MethodGetPacketLog \<Rightarrow> (Inr (PacketLogResult (GetPacketLog c)), c)
      | MethodSetPacketLog \<Rightarrow>
          reading w [(''enabled'', is_bool)] p c
            (\<lambda>kvs. case SetPacketLog (o_openable w) (o_saved w) (bool_field ''enabled'' kvs) c of
               ((_, Some e), c) \<Rightarrow> (Inl e, c)
             | ((on, None), c) \<Rightarrow> (Inr (PacketLogResult on), c))
      | MethodClearLogs \<Rightarrow>
          (case ClearLogs (o_mainLog w) (o_packetLog w) of
             None \<Rightarrow> (Inl Unexpected, c)
           | Some cleared \<Rightarrow> (Inr (ClearLogsResult cleared), c))
      | MethodResetSettings \<Rightarrow>
          answering GetServerResult
            (ResetSettings (o_parse w) (o_urlWording w) (o_disconnect w) (o_saved w) (o_savedLan w) (o_held w) c))"

text \<open>A name is quoted the way \<^verbatim>\<open>fmt\<close> quotes it; the names of methods have nothing in them to escape.\<close>

definition unknown_method :: "(string \<Rightarrow> string) \<Rightarrow> string \<Rightarrow> core_error" where
  "unknown_method quote name = Failure ''unknown_method'' (''This version of the app does not support '' @ quote name @ ''.'')"

definition call ::
  "(string \<Rightarrow> string) \<Rightarrow> ('hs, 'cs) outside \<Rightarrow> ipc_request \<Rightarrow> ('hs, 'cs) core \<Rightarrow> (core_error + ipc_result) \<times> ('hs, 'cs) core" where
  "call quote w rq c =
     (case map_of methods (iq_Method rq) of
        None \<Rightarrow> (Inl (unknown_method quote (iq_Method rq)), c)
      | Some m \<Rightarrow> call_method w m (iq_Params rq) c)"

section \<open>Answering\<close>

definition respond :: "string \<Rightarrow> core_error + ipc_result \<Rightarrow> ipc_response" where
  "respond i r =
     (case r of
        Inl (Failure k m) \<Rightarrow> \<lparr>rs_ID = i, rs_OK = False, rs_Result = None, rs_Err = Some (k, m)\<rparr>
      | Inl Unexpected \<Rightarrow>
          \<lparr>rs_ID = i, rs_OK = False, rs_Result = None, rs_Err = Some (''internal'', ''Something went wrong. Check the logs for details.'')\<rparr>
      | Inr NoResult \<Rightarrow> \<lparr>rs_ID = i, rs_OK = True, rs_Result = None, rs_Err = None\<rparr>
      | Inr x \<Rightarrow> \<lparr>rs_ID = i, rs_OK = True, rs_Result = Some x, rs_Err = None\<rparr>)"

text \<open>The handler behind the server is an interface, so it is an argument.\<close>

definition ipc_dispatch :: "(ipc_request \<Rightarrow> 's \<Rightarrow> (core_error + ipc_result) \<times> 's) \<Rightarrow> ipc_request \<Rightarrow> 's \<Rightarrow> ipc_response \<times> 's" where
  "ipc_dispatch handler rq s = (case handler rq s of (r, s) \<Rightarrow> (respond (iq_ID rq) r, s))"

text \<open>The lines of one connection, each with the handler as it is at that time; one that is no request is skipped.\<close>

fun serve_lines ::
  "('w \<Rightarrow> ipc_request \<Rightarrow> 's \<Rightarrow> (core_error + ipc_result) \<times> 's) \<Rightarrow> ('w \<times> ipc_request option) list \<Rightarrow> 's \<Rightarrow> ipc_response list \<times> 's" where
  "serve_lines handler [] s = ([], s)"
| "serve_lines handler ((w, None) # ls) s = serve_lines handler ls s"
| "serve_lines handler ((w, Some rq) # ls) s =
     (case ipc_dispatch (handler w) rq s of (reply, s) \<Rightarrow> case serve_lines handler ls s of (replies, s) \<Rightarrow> (reply # replies, s))"

text \<open>Who may open the pipe, in the notation Windows has for it; \<open>user\<close> is the account the daemon runs as.\<close>

definition descriptor :: "bool \<Rightarrow> string option \<Rightarrow> string option" where
  "descriptor asService user =
     (if asService then Some ''D:P(A;;GA;;;SY)(A;;GA;;;BA)(A;;GA;;;IU)''
      else case user of None \<Rightarrow> None | Some uid \<Rightarrow> Some (''D:P(A;;GA;;;SY)(A;;GA;;;'' @ uid @ '')''))"

section \<open>What a server asks of its handler\<close>

text \<open>The server relies on its handler for nothing but that what holds between requests holds after one.\<close>

locale ipc_handler =
  fixes handler :: "'w \<Rightarrow> ipc_request \<Rightarrow> 's \<Rightarrow> (core_error + ipc_result) \<times> 's" and ok :: "'s \<Rightarrow> bool"
  assumes handler_ok: "ok s \<Longrightarrow> ok (snd (handler w rq s))"
begin

lemma ipc_dispatch_ok: "ok s \<Longrightarrow> ok (snd (ipc_dispatch (handler w) rq s))"
  using handler_ok by (simp add: ipc_dispatch_def split: prod.split) (metis snd_conv)

lemma serve_lines_ok: "ok s \<Longrightarrow> ok (snd (serve_lines handler ls s))"
proof (induction ls arbitrary: s)
  case (Cons l ls)
  obtain w q where l: "l = (w, q)" by fastforce
  show ?case
  proof (cases q)
    case (Some rq)
    obtain reply s' where "ipc_dispatch (handler w) rq s = (reply, s')" by fastforce
    then show ?thesis using Cons.IH [of s'] ipc_dispatch_ok [OF Cons.prems, of w rq] by (simp add: l Some case_prod_beta)
  qed (simp add: l Cons)
qed simp

end

lemma serve_lines_ids:
  "map rs_ID (fst (serve_lines handler ls s)) = map iq_ID (List.map_filter snd ls)"
proof (induction handler ls s rule: serve_lines.induct)
  case (3 handler w rq ls s)
  have "rs_ID (respond i r) = i" for i r by (simp add: respond_def split: sum.splits core_error.splits ipc_result.splits)
  with 3 show ?case by (auto simp: ipc_dispatch_def map_filter_def split: prod.splits)
qed (simp_all add: map_filter_def)

text \<open>A request does to the core what one of its operations does, or nothing.\<close>

lemma snd_results [simp]:
  "snd (ended r) = snd r" "snd (failing r') = snd r'" "snd (answering f r'') = snd r''"
  by (auto simp: ended_def failing_def answering_def split: prod.splits sum.splits option.splits)

definition one_step :: "('hs, 'cs) core \<Rightarrow> ('hs, 'cs) core \<Rightarrow> bool" where
  "one_step c c' \<longleftrightarrow> c' = c \<or> core_step c c'"

lemma one_step_refl [simp]: "one_step c c"
  by (simp add: one_step_def)

lemma one_stepI: "core_step c c' \<Longrightarrow> one_step c c'"
  by (simp add: one_step_def)

lemma one_step_inv: "one_step c c' \<Longrightarrow> core_inv c \<Longrightarrow> core_inv c'"
  using core_step_inv by (auto simp: one_step_def)

lemma reading_step: "(\<And>kvs. one_step c (snd (k kvs))) \<Longrightarrow> one_step c (snd (reading w allowed p c k))"
  by (simp add: reading_def split: sum.splits)

lemmas request_steps =
  step_connect [THEN one_stepI] step_disconnect [THEN one_stepI] step_retry [THEN one_stepI] step_groups [THEN one_stepI]
  step_create [THEN one_stepI] step_join [THEN one_stepI] step_invite [THEN one_stepI] step_reset_invite [THEN one_stepI]
  step_leave [THEN one_stepI] step_delete [THEN one_stepI] step_remove [THEN one_stepI] step_rename [THEN one_stepI]
  step_appearance [THEN one_stepI] step_transfer [THEN one_stepI] step_nickname [THEN one_stepI] step_server [THEN one_stepI]
  step_discovery [THEN one_stepI] step_packet_log [THEN one_stepI] step_reset [THEN one_stepI]

lemma call_method_step: "one_step c (snd (call_method w m p c))"
proof -
  have lan: "snd (case SetLanDiscovery a b e c of (Some x, c) \<Rightarrow> (Inl x, c) | (None, c) \<Rightarrow> (Inr y, c)) = snd (SetLanDiscovery a b e c)" for a b e y
    by (simp split: prod.splits option.splits)
  have log: "snd (case SetPacketLog a b e c of ((_, Some x), c) \<Rightarrow> (Inl x, c) | ((on, None), c) \<Rightarrow> (Inr (f on), c)) = snd (SetPacketLog a b e c)" for a b e f
    by (simp split: prod.splits option.splits)
  show ?thesis
    unfolding call_method_def
    by (cases m) (auto simp: lan log request_steps intro!: reading_step split: option.splits)
qed

lemma call_step: "one_step c (snd (call quote w rq c))"
  by (simp add: call_def call_method_step split: option.splits)

interpretation core_handler: ipc_handler "\<lambda>w. call quote w" core_inv
  by unfold_locales (rule one_step_inv [OF call_step])

definition well_answered :: "ipc_response \<Rightarrow> bool" where
  "well_answered r \<longleftrightarrow> (rs_OK r \<longleftrightarrow> rs_Err r = None) \<and> (rs_OK r \<or> rs_Result r = None)"



end
