(* ===== verification/Ipc_Clients.thy ===== *)
theory Ipc_Clients
  imports Ipc "HOL-Library.Sublist"
begin

text \<open>
  Who is connected to the control channel, and what they are told: \<open>Serve\<close>, \<open>Broadcast\<close> and
  \<open>handleConnection\<close> of \<^verbatim>\<open>daemon/ipcserver/server.go\<close>. Each connection has a reader, a goroutine that forwards
  events and a writer, joined by two channels of bounded size; they take turns in any order. Clients are
  numbered by arrival. Four fields are history, not state of the program: what was written, the replies
  that were made, how many events there had been on arrival, and the log of all events.
\<close>

section \<open>Connections\<close>

definition eventBuffer :: nat where "eventBuffer = 32"

datatype ipc_line = EventLine ipc_event | ReplyLine ipc_response

record ipc_client =
  cn_events :: "ipc_event list"
  cn_closed :: bool
  cn_hand :: "ipc_event option"
  cn_reply :: "ipc_response option"
  cn_writes :: "ipc_line list"
  cn_reading :: bool
  cn_forwarding :: bool
  cn_writing :: bool
  cn_live :: bool
  cn_written :: "ipc_line list"
  cn_answered :: "ipc_response list"
  cn_since :: nat

record ('hs, 'cs) ipc_server =
  is_core :: "('hs, 'cs) core"
  is_clients :: "nat list"
  is_conns :: "ipc_client list"
  is_log :: "ipc_event list"

definition ipc_new :: "('hs, 'cs) core \<Rightarrow> ('hs, 'cs) ipc_server" where
  "ipc_new c = \<lparr>is_core = c, is_clients = [], is_conns = [], is_log = []\<rparr>"

definition client_deliver :: "ipc_event \<Rightarrow> ipc_client \<Rightarrow> bool \<times> ipc_client" where
  "client_deliver e cn =
     (if cn_closed cn then (False, cn)
      else if length (cn_events cn) < eventBuffer then (True, cn\<lparr>cn_events := cn_events cn @ [e]\<rparr>)
      else (False, cn))"

definition client_close :: "ipc_client \<Rightarrow> ipc_client" where
  "client_close cn = (if cn_closed cn then cn else cn\<lparr>cn_closed := True\<rparr>)"

definition upd_conn :: "nat \<Rightarrow> (ipc_client \<Rightarrow> ipc_client) \<Rightarrow> ('hs, 'cs) ipc_server \<Rightarrow> ('hs, 'cs) ipc_server" where
  "upd_conn r f s = s\<lparr>is_conns := (is_conns s)[r := f (is_conns s ! r)]\<rparr>"

text \<open>A connection that was accepted, with its goroutines started.\<close>

definition ipc_add :: "('hs, 'cs) ipc_server \<Rightarrow> ('hs, 'cs) ipc_server" where
  "ipc_add s =
     s\<lparr>is_clients := is_clients s @ [length (is_conns s)],
       is_conns := is_conns s @ [\<lparr>cn_events = [], cn_closed = False, cn_hand = None, cn_reply = None, cn_writes = [],
         cn_reading = True, cn_forwarding = True, cn_writing = True, cn_live = True, cn_written = [], cn_answered = [],
         cn_since = length (is_log s)\<rparr>]\<rparr>"

definition ipc_remove :: "nat \<Rightarrow> ('hs, 'cs) ipc_server \<Rightarrow> ('hs, 'cs) ipc_server" where
  "ipc_remove r s = upd_conn r client_close (s\<lparr>is_clients := filter (\<lambda>i. i \<noteq> r) (is_clients s)\<rparr>)"

definition ipc_tell :: "ipc_event \<Rightarrow> nat \<Rightarrow> ('hs, 'cs) ipc_server \<Rightarrow> ('hs, 'cs) ipc_server" where
  "ipc_tell e r s =
     (case client_deliver e (is_conns s ! r) of
        (True, cn) \<Rightarrow> upd_conn r (\<lambda>_. cn) s
      | (False, _) \<Rightarrow> ipc_remove r s)"

definition ipc_Broadcast :: "ipc_event \<Rightarrow> ('hs, 'cs) ipc_server \<Rightarrow> ('hs, 'cs) ipc_server" where
  "ipc_Broadcast e s = fold (ipc_tell e) (is_clients s) (s\<lparr>is_log := is_log s @ [e]\<rparr>)"

text \<open>What the core had to say while it worked.\<close>

definition ipc_emit_all :: "('hs, 'cs) core \<Rightarrow> ('hs, 'cs) ipc_server \<Rightarrow> ('hs, 'cs) ipc_server" where
  "ipc_emit_all c s = fold ipc_Broadcast (c_events c) (s\<lparr>is_core := c\<lparr>c_events := []\<rparr>\<rparr>)"

section \<open>One connection's goroutines\<close>

inductive conn_step :: "ipc_client \<Rightarrow> ipc_client \<Rightarrow> bool" where
  conn_take: "cn_forwarding cn \<Longrightarrow> cn_hand cn = None \<Longrightarrow> cn_events cn = e # es \<Longrightarrow> conn_step cn (cn\<lparr>cn_hand := Some e, cn_events := es\<rparr>)"
| conn_put: "cn_forwarding cn \<Longrightarrow> cn_hand cn = Some e \<Longrightarrow> length (cn_writes cn) < eventBuffer \<Longrightarrow>
    conn_step cn (cn\<lparr>cn_hand := None, cn_writes := cn_writes cn @ [EventLine e]\<rparr>)"
| conn_stop: "cn_forwarding cn \<Longrightarrow> cn_hand cn = None \<Longrightarrow> cn_events cn = [] \<Longrightarrow> cn_closed cn \<Longrightarrow> conn_step cn (cn\<lparr>cn_forwarding := False\<rparr>)"
| conn_abort: "cn_forwarding cn \<Longrightarrow> \<not> cn_live cn \<Longrightarrow> conn_step cn (cn\<lparr>cn_forwarding := False, cn_hand := None\<rparr>)"
| conn_reply: "cn_reply cn = Some r \<Longrightarrow> length (cn_writes cn) < eventBuffer \<Longrightarrow>
    conn_step cn (cn\<lparr>cn_reply := None, cn_writes := cn_writes cn @ [ReplyLine r]\<rparr>)"
| conn_unheard: "cn_reply cn \<noteq> None \<Longrightarrow> \<not> cn_live cn \<Longrightarrow> conn_step cn (cn\<lparr>cn_reply := None\<rparr>)"
| conn_write: "cn_writing cn \<Longrightarrow> cn_writes cn = l # ls \<Longrightarrow> conn_step cn (cn\<lparr>cn_writes := ls, cn_written := cn_written cn @ [l]\<rparr>)"
| conn_broken: "cn_writing cn \<Longrightarrow> cn_writes cn = l # ls \<Longrightarrow> conn_step cn (cn\<lparr>cn_writes := ls, cn_writing := False, cn_live := False\<rparr>)"
| conn_hangup: "cn_reading cn \<Longrightarrow> cn_reply cn = None \<Longrightarrow> conn_step cn (cn\<lparr>cn_reading := False, cn_live := False\<rparr>)"
| conn_shutdown: "conn_step cn (cn\<lparr>cn_live := False\<rparr>)"

inductive ipc_step :: "('hs, 'cs) ipc_server \<Rightarrow> ('hs, 'cs) ipc_server \<Rightarrow> bool" where
  ipc_accept: "ipc_step s (ipc_add s)"
| ipc_core: "core_step (is_core s) c \<Longrightarrow> ipc_step s (ipc_emit_all c s)"
| ipc_request: "r < length (is_conns s) \<Longrightarrow> cn_reading (is_conns s ! r) \<Longrightarrow> cn_reply (is_conns s ! r) = None \<Longrightarrow>
    ipc_dispatch (call quote w) rq (is_core s) = (reply, c) \<Longrightarrow>
    ipc_step s (upd_conn r (\<lambda>cn. cn\<lparr>cn_reply := Some reply, cn_answered := cn_answered cn @ [reply]\<rparr>) (ipc_emit_all c s))"
| ipc_conn: "r < length (is_conns s) \<Longrightarrow> conn_step (is_conns s ! r) cn \<Longrightarrow> ipc_step s (upd_conn r (\<lambda>_. cn) s)"
| ipc_gone: "r < length (is_conns s) \<Longrightarrow> \<not> cn_reading (is_conns s ! r) \<Longrightarrow> \<not> cn_forwarding (is_conns s ! r) \<Longrightarrow> ipc_step s (ipc_remove r s)"

section \<open>What a client has been told\<close>

definition lines_events :: "ipc_line list \<Rightarrow> ipc_event list" where
  "lines_events ls = List.map_filter (\<lambda>l. case l of EventLine e \<Rightarrow> Some e | ReplyLine _ \<Rightarrow> None) ls"

definition lines_replies :: "ipc_line list \<Rightarrow> ipc_response list" where
  "lines_replies ls = List.map_filter (\<lambda>l. case l of EventLine _ \<Rightarrow> None | ReplyLine r \<Rightarrow> Some r) ls"

lemma lines_simps [simp]:
  "lines_events [] = []" "lines_events (EventLine e # ls) = e # lines_events ls" "lines_events (ReplyLine r # ls) = lines_events ls"
  "lines_events (ls @ ls') = lines_events ls @ lines_events ls'"
  "lines_replies [] = []" "lines_replies (EventLine e # ls) = lines_replies ls" "lines_replies (ReplyLine r # ls) = r # lines_replies ls"
  "lines_replies (ls @ ls') = lines_replies ls @ lines_replies ls'"
  by (simp_all add: lines_events_def lines_replies_def map_filter_def)

text \<open>The events and the replies that were written or still can be.\<close>

definition told_events :: "ipc_client \<Rightarrow> ipc_event list" where
  "told_events cn = lines_events (cn_written cn) @
     (if cn_writing cn
      then lines_events (cn_writes cn) @ (if cn_forwarding cn then (case cn_hand cn of None \<Rightarrow> [] | Some e \<Rightarrow> [e]) @ cn_events cn else [])
      else [])"

definition told_replies :: "ipc_client \<Rightarrow> ipc_response list" where
  "told_replies cn = lines_replies (cn_written cn) @
     (if cn_writing cn then lines_replies (cn_writes cn) @ (case cn_reply cn of None \<Rightarrow> [] | Some r \<Rightarrow> [r]) else [])"

definition conn_ok :: "ipc_event list \<Rightarrow> bool \<Rightarrow> ipc_client \<Rightarrow> bool" where
  "conn_ok log registered cn \<longleftrightarrow>
     cn_since cn \<le> length log \<and> length (cn_events cn) \<le> eventBuffer \<and> length (cn_writes cn) \<le> eventBuffer \<and>
     (cn_closed cn \<longleftrightarrow> \<not> registered) \<and> (cn_live cn \<longrightarrow> cn_writing cn \<and> (registered \<longrightarrow> cn_forwarding cn)) \<and>
     prefix (told_events cn) (drop (cn_since cn) log) \<and>
     (registered \<and> cn_forwarding cn \<and> cn_writing cn \<longrightarrow> told_events cn = drop (cn_since cn) log) \<and>
     subseq (told_replies cn) (cn_answered cn) \<and> (cn_live cn \<longrightarrow> told_replies cn = cn_answered cn)"

definition ipc_inv :: "('hs, 'cs) ipc_server \<Rightarrow> bool" where
  "ipc_inv s \<longleftrightarrow> distinct (is_clients s) \<and> set (is_clients s) \<subseteq> {..<length (is_conns s)} \<and> core_inv (is_core s) \<and>
     (\<forall>r<length (is_conns s). conn_ok (is_log s) (r \<in> set (is_clients s)) (is_conns s ! r))"

subsection \<open>A connection by itself\<close>

lemma line_cases: "(\<exists>e. l = EventLine e) \<or> (\<exists>r. l = ReplyLine r)"
  by (cases l) auto

text \<open>The goroutines of a connection hand events on; they never make one up and never let one overtake another.\<close>

lemma conn_step_events: "conn_step cn cn' \<Longrightarrow> prefix (told_events cn') (told_events cn)"
proof (induction rule: conn_step.induct)
  case (conn_write cn l ls)
  then show ?case using line_cases [of l] by (auto simp: told_events_def)
qed (auto simp: told_events_def split: option.splits)

lemma conn_step_events_kept:
  "conn_step cn cn' \<Longrightarrow> cn_forwarding cn' \<Longrightarrow> cn_writing cn' \<Longrightarrow> told_events cn' = told_events cn \<and> cn_forwarding cn \<and> cn_writing cn"
proof (induction rule: conn_step.induct)
  case (conn_write cn l ls)
  then show ?case using line_cases [of l] by (auto simp: told_events_def)
qed (auto simp: told_events_def)

lemma conn_step_replies:
  "conn_step cn cn' \<Longrightarrow> subseq (told_replies cn') (told_replies cn) \<and> (cn_live cn' \<longrightarrow> cn_live cn \<and> told_replies cn' = told_replies cn)"
proof (induction rule: conn_step.induct)
  case (conn_write cn l ls)
  then show ?case using line_cases [of l] by (auto simp: told_replies_def)
qed (auto simp: told_replies_def split: option.splits)

lemma conn_step_fields:
  "conn_step cn cn' \<Longrightarrow> cn_since cn' = cn_since cn \<and> cn_closed cn' = cn_closed cn \<and> cn_answered cn' = cn_answered cn \<and>
     length (cn_events cn') \<le> length (cn_events cn) \<and> (length (cn_writes cn) \<le> eventBuffer \<longrightarrow> length (cn_writes cn') \<le> eventBuffer) \<and>
     (cn_live cn' \<longrightarrow> cn_live cn \<and> cn_writing cn' = cn_writing cn \<and> (cn_forwarding cn' \<longleftrightarrow> cn_forwarding cn \<and> \<not> (cn_closed cn \<and> \<not> cn_forwarding cn')))"
  by (induction rule: conn_step.induct) auto

lemma conn_step_ok:
  assumes step: "conn_step cn cn'" and ok: "conn_ok log registered cn"
  shows "conn_ok log registered cn'"
proof -
  note fields = conn_step_fields [OF step]
  have "prefix (told_events cn') (drop (cn_since cn') log)"
    using conn_step_events [OF step] ok fields by (auto simp: conn_ok_def intro: prefix_order.trans)
  moreover have "subseq (told_replies cn') (cn_answered cn')"
    using conn_step_replies [OF step] ok fields by (auto simp: conn_ok_def intro: subseq_order.trans)
  ultimately show ?thesis
    using fields conn_step_events_kept [OF step] conn_step_replies [OF step] ok by (auto simp: conn_ok_def)
qed

subsection \<open>Everyone at once\<close>

definition fits :: "ipc_client \<Rightarrow> bool" where
  "fits cn \<longleftrightarrow> \<not> cn_closed cn \<and> length (cn_events cn) < eventBuffer"

definition hear :: "ipc_event \<Rightarrow> ipc_client \<Rightarrow> ipc_client" where
  "hear e cn = (if fits cn then cn\<lparr>cn_events := cn_events cn @ [e]\<rparr> else client_close cn)"

lemma ipc_tell_parts:
  "is_log (ipc_tell e r s) = is_log s" "is_core (ipc_tell e r s) = is_core s"
  "is_conns (ipc_tell e r s) = (is_conns s)[r := hear e (is_conns s ! r)]"
  "is_clients (ipc_tell e r s) = filter (\<lambda>i. i = r \<longrightarrow> fits (is_conns s ! r)) (is_clients s)"
  by (auto simp: ipc_tell_def client_deliver_def hear_def fits_def upd_conn_def ipc_remove_def intro: filter_cong split: if_splits)

lemma broadcast_fold:
  assumes "distinct rs"
  shows "is_log (fold (ipc_tell e) rs s) = is_log s \<and> is_core (fold (ipc_tell e) rs s) = is_core s \<and>
    length (is_conns (fold (ipc_tell e) rs s)) = length (is_conns s) \<and>
    (\<forall>r<length (is_conns s). is_conns (fold (ipc_tell e) rs s) ! r = (if r \<in> set rs then hear e (is_conns s ! r) else is_conns s ! r)) \<and>
    is_clients (fold (ipc_tell e) rs s) = filter (\<lambda>i. i \<in> set rs \<longrightarrow> fits (is_conns s ! i)) (is_clients s)"
  using assms
proof (induction rs arbitrary: s)
  case (Cons r rs)
  let ?s = "ipc_tell e r s"
  have "is_conns ?s ! i = is_conns s ! i" if "i \<in> set rs" for i
    using that Cons.prems by (simp add: ipc_tell_parts) (metis nth_list_update_neq)
  then have "filter (\<lambda>i. i \<in> set rs \<longrightarrow> fits (is_conns ?s ! i)) (is_clients ?s) =
      filter (\<lambda>i. i \<in> set (r # rs) \<longrightarrow> fits (is_conns s ! i)) (is_clients s)"
    by (auto simp: ipc_tell_parts(4) intro!: filter_cong)
  moreover have "is_conns ?s ! i = (if i = r then hear e (is_conns s ! r) else is_conns s ! i)" if "i < length (is_conns s)" for i
    using that by (simp add: ipc_tell_parts nth_list_update)
  moreover have "length (is_conns ?s) = length (is_conns s)" "is_log ?s = is_log s" "is_core ?s = is_core s"
    by (simp_all add: ipc_tell_parts)
  ultimately show ?case using Cons.IH [of ?s] Cons.prems by auto
qed (simp add: filter_cong)

lemma ipc_Broadcast_parts:
  assumes "distinct (is_clients s)"
  shows "is_log (ipc_Broadcast e s) = is_log s @ [e]" "is_core (ipc_Broadcast e s) = is_core s"
    "length (is_conns (ipc_Broadcast e s)) = length (is_conns s)"
    "r < length (is_conns s) \<Longrightarrow> is_conns (ipc_Broadcast e s) ! r =
       (if r \<in> set (is_clients s) then hear e (is_conns s ! r) else is_conns s ! r)"
    "is_clients (ipc_Broadcast e s) = filter (\<lambda>i. fits (is_conns s ! i)) (is_clients s)"
  using broadcast_fold [OF assms, of e "s\<lparr>is_log := is_log s @ [e]\<rparr>"]
  by (auto simp: ipc_Broadcast_def intro: filter_cong)

text \<open>A client that keeps up hears the event; one that does not is told nothing more; the others missed it already.\<close>

lemma hear_ok:
  assumes "conn_ok log True cn"
  shows "conn_ok (log @ [e]) (fits cn) (hear e cn)"
  using assms by (auto simp: conn_ok_def hear_def fits_def client_close_def told_events_def told_replies_def split: if_splits option.splits)

lemma unheard_ok: "conn_ok log False cn \<Longrightarrow> conn_ok (log @ [e]) False cn"
  by (auto simp: conn_ok_def intro: prefix_order.trans)

lemma Broadcast_inv:
  assumes "ipc_inv s"
  shows "ipc_inv (ipc_Broadcast e s)"
proof -
  have d: "distinct (is_clients s)" using assms by (simp add: ipc_inv_def)
  show ?thesis
    using assms hear_ok unheard_ok
    by (auto simp: ipc_inv_def ipc_Broadcast_parts [OF d])
qed

lemma ipc_inv_distinct: "ipc_inv s \<Longrightarrow> distinct (is_clients s)"
  by (simp add: ipc_inv_def)

lemma Broadcasts_inv: "ipc_inv s \<Longrightarrow> ipc_inv (fold ipc_Broadcast es s)"
  by (induction es arbitrary: s) (simp_all add: Broadcast_inv)

lemma Broadcasts_length: "ipc_inv s \<Longrightarrow> length (is_conns (fold ipc_Broadcast es s)) = length (is_conns s)"
  by (induction es arbitrary: s) (simp_all add: Broadcast_inv ipc_Broadcast_parts(3) ipc_inv_distinct)

lemma Broadcasts_conn:
  assumes "\<And>e cn. P cn \<Longrightarrow> P (hear e cn)" "ipc_inv s" "r < length (is_conns s)" "P (is_conns s ! r)"
  shows "P (is_conns (fold ipc_Broadcast es s) ! r)"
  using assms(2-)
proof (induction es arbitrary: s)
  case (Cons e es)
  note parts = ipc_Broadcast_parts [OF ipc_inv_distinct [OF Cons.prems(1)], where e = e]
  have "P (is_conns (ipc_Broadcast e s) ! r)" using assms(1) Cons.prems by (simp add: parts(4))
  then show ?case using Cons.IH [of "ipc_Broadcast e s"] Cons.prems Broadcast_inv [OF Cons.prems(1), of e] by (simp add: parts(3))
qed simp

lemma ipc_inv_core: "ipc_inv s \<Longrightarrow> core_inv c \<Longrightarrow> ipc_inv (s\<lparr>is_core := c\<lparr>c_events := es\<rparr>\<rparr>)"
  using core_inv_frame [of "c\<lparr>c_events := es\<rparr>" c] by (simp add: ipc_inv_def frame_def pending_def)

lemma emit_all_inv: "ipc_inv s \<Longrightarrow> core_inv c \<Longrightarrow> ipc_inv (ipc_emit_all c s)"
  by (simp add: ipc_emit_all_def Broadcasts_inv ipc_inv_core)

lemma upd_conn_inv:
  assumes "ipc_inv s" "conn_ok (is_log s) (r \<in> set (is_clients s)) (f (is_conns s ! r))"
  shows "ipc_inv (upd_conn r f s)"
proof -
  have "conn_ok (is_log s) (i \<in> set (is_clients s)) ((is_conns s)[r := f (is_conns s ! r)] ! i)" if "i < length (is_conns s)" for i
    using assms that by (cases "i = r") (simp_all add: ipc_inv_def)
  then show ?thesis using assms(1) by (simp add: ipc_inv_def upd_conn_def)
qed

lemma request_ok:
  assumes "conn_ok log registered cn" "cn_reply cn = None"
  shows "conn_ok log registered (cn\<lparr>cn_reply := Some x, cn_answered := cn_answered cn @ [x]\<rparr>)"
proof -
  have "subseq (told_replies cn @ xs) (cn_answered cn @ [x])" if "xs = [] \<or> xs = [x]" for xs
    using assms(1) that by (auto simp: conn_ok_def intro: list_emb_append_mono subseq_rev_drop_many)
  from this [of "[]"] this [of "[x]"] show ?thesis using assms by (auto simp: conn_ok_def told_events_def told_replies_def)
qed

lemma emit_all_conn:
  assumes "\<And>e cn. P cn \<Longrightarrow> P (hear e cn)" "ipc_inv s" "core_inv c" "r < length (is_conns s)" "P (is_conns s ! r)"
  shows "P (is_conns (ipc_emit_all c s) ! r)" "r < length (is_conns (ipc_emit_all c s))"
  using Broadcasts_conn [where P = P, OF assms(1) ipc_inv_core [OF assms(2,3)]] Broadcasts_length [OF ipc_inv_core [OF assms(2,3)]] assms(4,5)
  by (simp_all add: ipc_emit_all_def)

lemma remove_inv:
  assumes "ipc_inv s" "r < length (is_conns s)" "\<not> cn_live (is_conns s ! r) \<or> r \<notin> set (is_clients s)"
  shows "ipc_inv (ipc_remove r s)"
proof -
  have "conn_ok (is_log s) (r \<in> set (is_clients s)) (is_conns s ! r)" using assms by (simp add: ipc_inv_def)
  then have "conn_ok (is_log s) False (client_close (is_conns s ! r))"
    by (auto simp: conn_ok_def client_close_def told_events_def told_replies_def)
  then show ?thesis using assms by (auto simp: ipc_inv_def ipc_remove_def upd_conn_def nth_list_update)
qed

lemma ipc_add_inv: "ipc_inv s \<Longrightarrow> ipc_inv (ipc_add s)"
  by (auto simp: ipc_inv_def ipc_add_def nth_append conn_ok_def told_events_def told_replies_def less_Suc_eq)

lemma ipc_step_inv: "ipc_step s s' \<Longrightarrow> ipc_inv s \<Longrightarrow> ipc_inv s'"
proof (induction rule: ipc_step.induct)
  case (ipc_core s c)
  then have "core_inv c" using core_step_inv by (auto simp: ipc_inv_def)
  then show ?case using ipc_core by (simp add: emit_all_inv)
next
  case (ipc_request r s quote w rq reply c)
  have c: "core_inv c"
    using one_step_inv [OF call_step, of "is_core s" quote w rq] ipc_request by (auto simp: ipc_inv_def ipc_dispatch_def split: prod.splits)
  have "cn_reply (hear e cn) = cn_reply cn" for e cn by (simp add: hear_def client_close_def)
  then have "cn_reply (is_conns (ipc_emit_all c s) ! r) = None" "r < length (is_conns (ipc_emit_all c s))"
    using emit_all_conn [of "\<lambda>cn. cn_reply cn = None" s c r] ipc_request c by auto
  moreover have inv: "ipc_inv (ipc_emit_all c s)" using ipc_request c by (simp add: emit_all_inv)
  ultimately show ?case
    by (intro upd_conn_inv [OF inv] request_ok) (auto simp: ipc_inv_def)
next
  case (ipc_conn r s cn)
  then show ?case using conn_step_ok by (intro upd_conn_inv) (auto simp: ipc_inv_def)
next
  case (ipc_gone r s)
  have "conn_ok (is_log s) (r \<in> set (is_clients s)) (is_conns s ! r)" using ipc_gone by (simp add: ipc_inv_def)
  then show ?case using ipc_gone by (intro remove_inv) (auto simp: conn_ok_def)
qed (simp add: ipc_add_inv)

lemma ipc_new_inv: "ipc_inv (ipc_new (NewCore i st url openable))"
  by (simp add: ipc_new_def ipc_inv_def NewCore_inv)

interpretation ipc_runs: invariant_system "\<lambda>s. \<exists>i st url openable. s = ipc_new (NewCore i st url openable)" ipc_step ipc_inv
  using ipc_step_inv by unfold_locales (auto simp: ipc_new_inv)

section \<open>What clients can rely on\<close>


text \<open>Nothing reaches a client whose channel has been closed.\<close>

definition deaf_since :: "ipc_client \<Rightarrow> ipc_client \<Rightarrow> bool" where
  "deaf_since cn cn' \<longleftrightarrow> cn_closed cn' \<and> prefix (told_events cn') (told_events cn)"

lemma hear_closed: "deaf_since cn cn' \<Longrightarrow> deaf_since cn (hear e cn')"
  by (simp add: deaf_since_def hear_def fits_def client_close_def)

lemma told_events_reply [simp]: "told_events (cn\<lparr>cn_reply := x, cn_answered := xs\<rparr>) = told_events cn"
  by (simp add: told_events_def)

lemma ipc_step_deaf:
  assumes "ipc_step s s'" "ipc_inv s" "r < length (is_conns s)" "deaf_since cn (is_conns s ! r)"
  shows "deaf_since cn (is_conns s' ! r) \<and> r < length (is_conns s')"
  using assms
proof (induction rule: ipc_step.induct)
  case (ipc_core s c)
  then have "core_inv c" using core_step_inv by (auto simp: ipc_inv_def)
  then show ?case using emit_all_conn [where P = "deaf_since cn" and s = s and c = c and r = r] hear_closed ipc_core by blast
next
  case (ipc_request r' s quote w rq reply c)
  have c: "core_inv c"
    using one_step_inv [OF call_step, of "is_core s" quote w rq] ipc_request by (auto simp: ipc_inv_def ipc_dispatch_def split: prod.splits)
  then have "deaf_since cn (is_conns (ipc_emit_all c s) ! r)" "r < length (is_conns (ipc_emit_all c s))"
    using emit_all_conn [where P = "deaf_since cn" and s = s and c = c and r = r] hear_closed ipc_request by blast+
  then show ?case by (cases "r = r'") (simp_all add: upd_conn_def deaf_since_def)
next
  case (ipc_conn r' s cn')
  then show ?case
    using conn_step_events [of "is_conns s ! r'" cn'] conn_step_fields [of "is_conns s ! r'" cn']
    by (cases "r = r'") (auto simp: upd_conn_def deaf_since_def intro: prefix_order.trans)
next
  case (ipc_gone r' s)
  then show ?case
    by (cases "r = r'") (simp_all add: ipc_remove_def upd_conn_def deaf_since_def client_close_def)
qed (simp add: ipc_add_def nth_append)

text \<open>
A client that falls behind is cut loose and not told. An event that finds its channel full closes the channel,
but the connection stays up: the pipe is open, its requests are read and answered as before, and from then on no event
ever reaches it, whatever happens, so what it shows stays as it was.
\<close>

theorem client_that_fell_behind_goes_deaf:
  assumes inv: "ipc_inv s" and r: "r \<in> set (is_clients s)" and full: "length (cn_events (is_conns s ! r)) = eventBuffer"
    and alive: "cn_live (is_conns s ! r)" "cn_reading (is_conns s ! r)"
  shows "let s1 = ipc_Broadcast e s
    in cn_live (is_conns s1 ! r) \<and> cn_reading (is_conns s1 ! r) \<and> r \<notin> set (is_clients s1) \<and>
       (\<forall>s2. ipc_step\<^sup>*\<^sup>* s1 s2 \<longrightarrow> prefix (told_events (is_conns s2 ! r)) (told_events (is_conns s ! r)))"
proof -
  have len: "r < length (is_conns s)" using inv r by (auto simp: ipc_inv_def)
  note parts = ipc_Broadcast_parts [OF ipc_inv_distinct [OF inv], where e = e]
  have closed: "is_conns (ipc_Broadcast e s) ! r = client_close (is_conns s ! r)"
    using len r full by (simp add: parts(4) hear_def fits_def)
  have "ipc_inv s2 \<and> r < length (is_conns s2) \<and> deaf_since (is_conns s ! r) (is_conns s2 ! r)" if "ipc_step\<^sup>*\<^sup>* (ipc_Broadcast e s) s2" for s2
    using that
  proof (induction rule: rtranclp_induct)
    case base
    then show ?case using Broadcast_inv [OF inv] len by (simp add: parts(3) closed deaf_since_def client_close_def told_events_def)
  next
    case (step s2 s3)
    then show ?case using ipc_step_deaf [of s2 s3 r "is_conns s ! r"] ipc_step_inv [of s2 s3] by auto
  qed
  then show ?thesis using alive full by (simp add: Let_def closed client_close_def parts(5) fits_def deaf_since_def)
qed

section \<open>A small daemon\<close>

definition toy_slow :: ipc_client where
  "toy_slow = \<lparr>cn_events = replicate 32 (ServerConnectionChanged True), cn_closed = False, cn_hand = None, cn_reply = None, cn_writes = [],
     cn_reading = True, cn_forwarding = True, cn_writing = True, cn_live = True, cn_written = [], cn_answered = [], cn_since = 0\<rparr>"

definition toy_daemon :: "(unit, unit) ipc_server" where
  "toy_daemon = \<lparr>is_core = toy_core, is_clients = [0], is_conns = [toy_slow], is_log = replicate 32 (ServerConnectionChanged True)\<rparr>"


theorem client_that_fell_behind_goes_deaf_witness:
  "let s1 = ipc_Broadcast (ServerConnectionChanged False) toy_daemon
   in cn_live (is_conns s1 ! 0) \<and> 0 \<notin> set (is_clients s1) \<and> prefix (told_events (is_conns s1 ! 0)) (told_events toy_slow)"
proof -
  have "ipc_inv toy_daemon"
    using toy_core_inv by (simp add: ipc_inv_def toy_daemon_def conn_ok_def toy_slow_def told_events_def told_replies_def eventBuffer_def)
  from client_that_fell_behind_goes_deaf [OF this, of 0 "ServerConnectionChanged False"] show ?thesis
    by (simp add: Let_def toy_daemon_def) (simp add: toy_slow_def eventBuffer_def)
qed

end
