(* ===== verification/Event_Channel.thy ===== *)
theory Event_Channel
  imports Core_Props Api_Props "HOL-Library.Sublist"
begin

text \<open>
  The event channel from end to end: the loop of \<^verbatim>\<open>handleRealtime\<close> that writes a subscription to its connection
  (\<^verbatim>\<open>server/api/realtime.go\<close>), \<^verbatim>\<open>listen\<close> and \<^verbatim>\<open>Realtime\<close> that read it (\<^verbatim>\<open>daemon/control/realtime.go\<close>), and the core
  that acts on what they read. The connection in between is a WebSocket: it keeps the order of what is written to it, and
  loses everything that is under way when it breaks.
\<close>

section \<open>The server's end\<close>

text \<open>The cases of the loop: the reader noticed that the other side is gone, an event or the closing of the channel, the ping timer.\<close>

datatype loop_case = PeerGone | EventReady "event \<Rightarrow> bool" | PingDue bool instant

definition realtime_turn :: "sub_ref \<Rightarrow> session_info \<Rightarrow> loop_case \<Rightarrow> server \<Rightarrow> event list option \<times> server" where
  "realtime_turn ref session k sv =
     (case k of
        PeerGone \<Rightarrow> (None, sv\<lparr>sv_hub := Unsubscribe ref (sv_hub sv)\<rparr>)
      | EventReady written \<Rightarrow> realtime_write ref written sv
      | PingDue answered now \<Rightarrow> (case realtime_ping ref session answered now sv of (r, sv) \<Rightarrow> (map_option (\<lambda>_. []) r, sv)))"

section \<open>The daemon's end\<close>

text \<open>A frame that is not an event is skipped.\<close>

definition listen_frame :: "net \<Rightarrow> event option \<Rightarrow> ('hs, 'cs) core \<Rightarrow> ('hs, 'cs) core" where
  "listen_frame net msg c = (case msg of None \<Rightarrow> c | Some e \<Rightarrow> on_realtime net e c)"

text \<open>
  An address that does not parse, a dial that is refused with or without a status, or a connection that yields frames
  until it ends.
\<close>

datatype dialled = BadAddress | DialRefused "nat option" | Dialled "event option list"

definition listen :: "net \<Rightarrow> dialled \<Rightarrow> ('hs, 'cs) core \<Rightarrow> go_error \<times> ('hs, 'cs) core" where
  "listen net d c =
     (case d of
        BadAddress \<Rightarrow> (OtherError, c)
      | DialRefused answer \<Rightarrow> (dial_error answer, c)
      | Dialled frames \<Rightarrow> (OtherError, fold (listen_frame net) frames (setServerOnline True c)))"

text \<open>One turn of \<open>Realtime\<close>: the next backoff, or the end of the loop.\<close>

definition Realtime_turn :: "net \<Rightarrow> dialled \<Rightarrow> bool \<Rightarrow> duration \<Rightarrow> ('hs, 'cs) core \<Rightarrow> duration option \<times> ('hs, 'cs) core" where
  "Realtime_turn net d cancelled backoff c =
     (case listen net d c of
        (e, c) \<Rightarrow>
          if cancelled then (None, c)
          else let c = setServerOnline False c
               in case Realtime_next e backoff of
                    SessionInvalidated \<Rightarrow> (None, session_invalidated c)
                  | RetryAfter _ next_backoff \<Rightarrow> (Some next_backoff, c))"

section \<open>Both ends\<close>

text \<open>
  What the other goroutines of the server do to the hub, with what that puts into the queue of the subscription
  \<open>ref\<close>; its own writer is the only one that takes from it.
\<close>

inductive others :: "sub_ref \<Rightarrow> event hub \<Rightarrow> event list \<Rightarrow> event hub \<Rightarrow> bool" where
  others_subscribe: "others ref h [] (snd (Subscribe g d h))"
| others_forget: "r < length (hub_heap h) \<Longrightarrow> others ref h [] (forget r h)"
| others_close: "r < length (hub_heap h) \<Longrightarrow> others ref h [] (close_sub r h)"
| others_deliver: "r < length (hub_heap h) \<Longrightarrow> Hub.deliver p r h = (ok, h') \<Longrightarrow> others ref h (if ok \<and> r = ref then [p] else []) h'"
| others_receive: "r < length (hub_heap h) \<Longrightarrow> r \<noteq> ref \<Longrightarrow> others ref h [] (snd (receive r h))"

text \<open>
  The connection with what is on it, whether its two ends run, and what has been put into the queue and handled by the
  daemon so far.
\<close>

record ('hs, 'cs) event_channel =
  ec_server :: server
  ec_writing :: bool
  ec_wire :: "event list"
  ec_reading :: bool
  ec_core :: "('hs, 'cs) core"
  ec_queued :: "event list"
  ec_handled :: "event list"

inductive channel_step :: "net \<Rightarrow> sub_ref \<Rightarrow> session_info \<Rightarrow> ('hs, 'cs) event_channel \<Rightarrow> ('hs, 'cs) event_channel \<Rightarrow> bool"
  for net ref session where
  channel_others: "others ref (sv_hub (ec_server s)) new (sv_hub sv) \<Longrightarrow>
     channel_step net ref session s (s\<lparr>ec_server := sv, ec_queued := ec_queued s @ new\<rparr>)"
| channel_written: "ec_writing s \<Longrightarrow> realtime_turn ref session k (ec_server s) = (Some es, sv) \<Longrightarrow>
     channel_step net ref session s (s\<lparr>ec_server := sv, ec_wire := (if ec_reading s then ec_wire s @ es else [])\<rparr>)"
| channel_ended: "ec_writing s \<Longrightarrow> realtime_turn ref session k (ec_server s) = (None, sv) \<Longrightarrow>
     channel_step net ref session s (s\<lparr>ec_server := sv, ec_writing := False\<rparr>)"
| channel_read: "ec_reading s \<Longrightarrow> ec_wire s = e # rest \<Longrightarrow>
     channel_step net ref session s
       (s\<lparr>ec_core := listen_frame net (Some e) (ec_core s), ec_wire := rest, ec_handled := ec_handled s @ [e]\<rparr>)"
| channel_broken: "channel_step net ref session s (s\<lparr>ec_reading := False, ec_wire := []\<rparr>)"
| channel_core: "core_step (ec_core s) c \<Longrightarrow> channel_step net ref session s (s\<lparr>ec_core := c\<rparr>)"

definition queue_of :: "sub_ref \<Rightarrow> server \<Rightarrow> event list" where
  "queue_of ref sv = sub_send (hub_heap (sv_hub sv) ! ref)"

definition channel_inv :: "sub_ref \<Rightarrow> ('hs, 'cs) event_channel \<Rightarrow> bool" where
  "channel_inv ref s \<longleftrightarrow> ref < length (hub_heap (sv_hub (ec_server s))) \<and> prefix (ec_handled s @ ec_wire s) (ec_queued s) \<and>
     (\<not> ec_reading s \<longrightarrow> ec_wire s = []) \<and>
     (ec_writing s \<and> ec_reading s \<longrightarrow> ec_queued s = ec_handled s @ ec_wire s @ queue_of ref (ec_server s))"

lemma others_queue:
  assumes "others ref h new h'" "ref < length (hub_heap h)"
  shows "ref < length (hub_heap h') \<and> sub_send (hub_heap h' ! ref) = sub_send (hub_heap h ! ref) @ new"
  using assms
proof cases
  case (others_deliver r p ok)
  then show ?thesis using assms(2) by (auto simp: Hub.deliver_def Let_def nth_list_update split: if_splits)
qed (auto simp: Subscribe_def forget_def close_sub_def receive_def Let_def nth_append nth_list_update split: option.splits list.splits)

lemma Unsubscribe_heap:
  assumes "ref < length (hub_heap h)"
  shows "length (hub_heap (Unsubscribe ref h)) = length (hub_heap h)"
    and "sub_send (hub_heap (Unsubscribe ref h) ! ref) = sub_send (hub_heap h ! ref)"
  using assms by (auto simp: Unsubscribe_def close_sub_def forget_def Let_def split: option.splits)

lemma realtime_turn_queue:
  assumes "realtime_turn ref session k sv = (r, sv')" "ref < length (hub_heap (sv_hub sv))"
  shows "ref < length (hub_heap (sv_hub sv')) \<and> (\<forall>es. r = Some es \<longrightarrow> queue_of ref sv = es @ queue_of ref sv')"
proof (cases k)
  case (EventReady written)
  then show ?thesis
    using assms Unsubscribe_heap [OF assms(2)]
    by (auto simp: realtime_turn_def realtime_write_def receive_def Let_def queue_of_def Unsubscribe_heap split: list.splits if_splits)
qed (use assms in \<open>auto simp: realtime_turn_def realtime_ping_def queue_of_def Unsubscribe_heap split: if_splits prod.splits sum.splits\<close>)

interpretation channel_runs: invariant_system "channel_inv ref" "channel_step net ref session" "channel_inv ref" for net ref session
proof unfold_locales
  fix s s' :: "('a, 'b) event_channel"
  assume step: "channel_step net ref session s s'" and inv: "channel_inv ref s"
  from step show "channel_inv ref s'"
  proof cases
    case (channel_others new sv)
    then show ?thesis using others_queue [of ref _ new] inv by (auto simp: channel_inv_def queue_of_def)
  next
    case (channel_written k es sv)
    then show ?thesis using realtime_turn_queue [OF channel_written(3)] inv by (auto simp: channel_inv_def prefix_def)
  next
    case (channel_ended k sv)
    then show ?thesis using realtime_turn_queue [OF channel_ended(3)] inv by (auto simp: channel_inv_def)
  next
    case channel_broken
    then show ?thesis using inv by (auto simp: channel_inv_def prefix_def)
  qed (use inv in \<open>auto simp: channel_inv_def\<close>)
qed

section \<open>In order\<close>


section \<open>Two devices\<close>

definition toy_online :: server where
  "toy_online = NewServer (toy_db\<lparr>db_sessions := \<lparr>ses_id = ''sa'', ses_group_id = ''grp'', ses_membership_id = ''m-ann'', ses_endpoint = None,
     ses_connected_at = 6, ses_last_seen_at = 6\<rparr> # db_sessions toy_db\<rparr>)"

definition toy_info :: session_info where
  "toy_info = \<lparr>S_ID = ''sa'', S_GroupID = ''grp'', S_MembershipID = ''m-ann'', S_DeviceID = ''ann'', S_VirtualIP = ''10.69.0.1''\<rparr>"

definition toy_bob :: session_peer where
  "toy_bob = \<lparr>sp_DeviceID = ''bob'', sp_Nickname = ''bob'', sp_VirtualIP = ''10.69.0.2'', sp_TransportKey = ''transport-bob'', sp_Endpoint = None\<rparr>"

lemma toy_online_runs:
  "PeersInGroup ''grp'' ''ann'' (sv_db toy_online) = Inr [toy_bob]"
  "\<exists>sv'. handleRealtime ''sa'' (toy_device ''ann'') toy_online = (Inr (toy_info, 0), sv')"
  by (simp_all add: toy_online_def NewServer_def toy_db_defs PeersInGroup_def toy_bob_def handleRealtime_def SessionByID_def
      membership_by_id_def Subscribe_def NewHub_def toy_info_def scan_all_def)


end
