(* ===== verification/Sockets.thy ===== *)
theory Sockets
  imports Mesh_Inv Api
begin

text \<open>
  Where the program meets the network's names and sockets: \<^verbatim>\<open>clientIP\<close> of \<^verbatim>\<open>server/api/middleware.go\<close>, and \<open>resolveStun\<close>,
  \<open>queryStun\<close> and \<open>Run\<close> of \<^verbatim>\<open>daemon/mesh/mesh.go\<close>. \<^verbatim>\<open>net.SplitHostPort\<close> is modelled as the standard library has it; the
  lookups of names and services are the operating system's and parameters.
\<close>

section \<open>Hosts and ports\<close>

definition SplitHostPort :: "string \<Rightarrow> (string \<times> string) option" where
  "SplitHostPort s =
     (if CHR '':'' \<notin> set s then None
      else
        let port = after_last '':'' s; i = length s - length port - 1
        in if hd s = CHR ''['' then
             (let close = length (takeWhile (\<lambda>c. c \<noteq> CHR '']'') s)
              in if CHR '']'' \<notin> set s \<or> Suc close \<noteq> i then None
                 else if CHR ''['' \<in> set (drop 1 s) \<or> CHR '']'' \<in> set (drop (Suc close) s) then None
                 else Some (take (close - 1) (drop 1 s), port))
           else
             (let host = take i s
              in if CHR '':'' \<in> set host then None
                 else if CHR ''['' \<in> set s \<or> CHR '']'' \<in> set s then None
                 else Some (host, port)))"

definition clientIP :: "string \<Rightarrow> string" where
  "clientIP remote = (case SplitHostPort remote of None \<Rightarrow> remote | Some (host, _) \<Rightarrow> host)"

definition cutPrefix :: "string \<Rightarrow> string \<Rightarrow> string \<times> bool" where
  "cutPrefix s pre = (if starts_with pre s then (drop (length pre) s, True) else (s, False))"

definition resolveStun :: "(string \<Rightarrow> string list option) \<Rightarrow> (string \<Rightarrow> u16 option) \<Rightarrow> string \<Rightarrow> addrport option" where
  "resolveStun lookupHost lookupPort server =
     (let host = fst (cutPrefix server ''stun:'');
          host = fst (cutPrefix host ''stuns:'');
          (name, port) = (case SplitHostPort host of None \<Rightarrow> (host, ''3478'') | Some hp \<Rightarrow> hp)
      in case lookupHost name of
           None \<Rightarrow> None
         | Some addrs \<Rightarrow>
             (case find is4 (List.map_filter ParseAddr addrs) of
                None \<Rightarrow> None
              | Some a \<Rightarrow> map_option (Pair a) (lookupPort port)))"

section \<open>Asking for the public address\<close>

text \<open>
  A request is written up to three times; after each comes an answer, a timer, or the end of the context. The
  waiter is removed on every way out.
\<close>

datatype stun_wait = StunAnswer addrport | StunTimer | StunCancelled

fun stun_attempts :: "addrport \<Rightarrow> bytes \<Rightarrow> (env \<times> stun_wait) list \<Rightarrow> ('k, 'hs, 'cs) mesh \<Rightarrow> addrport option \<times> ('k, 'hs, 'cs) mesh" where
  "stun_attempts server packet [] m = (None, m)"
| "stun_attempts server packet ((env, w) # ws) m =
     (case write_udp env server packet m of
        (Some _, m) \<Rightarrow> (None, m)
      | (None, m) \<Rightarrow>
          (case w of
             StunAnswer a \<Rightarrow> (Some a, m)
           | StunTimer \<Rightarrow> stun_attempts server packet ws m
           | StunCancelled \<Rightarrow> (None, m)))"

definition queryStun ::
  "addrport option \<Rightarrow> bytes option \<Rightarrow> (env \<times> stun_wait) list \<Rightarrow> ('k, 'hs, 'cs) mesh \<Rightarrow> addrport option \<times> ('k, 'hs, 'cs) mesh" where
  "queryStun resolved drawn waits m =
     (case (resolved, drawn) of
        (Some server, Some tid) \<Rightarrow>
          let req = NewRequest tid
          in (case stun_attempts server (rq_Packet req) (take 3 waits) (m\<lparr>m_stunWaiters := store (rq_ID req) None (m_stunWaiters m)\<rparr>) of
                (r, m) \<Rightarrow> (r, m\<lparr>m_stunWaiters := remove (rq_ID req) (m_stunWaiters m)\<rparr>))
      | _ \<Rightarrow> (None, m))"

section \<open>Reading the socket\<close>

text \<open>Every read has a buffer for the largest datagram of the protocol. The loop ends with the first read that fails.\<close>

datatype socket_read = Datagram bytes addrport | ReadFailed

fun mesh_Run :: "('k, 'hs, 'cs) noise \<Rightarrow> (env \<times> socket_read) list \<Rightarrow> ('k, 'hs, 'cs) mesh \<Rightarrow> bool \<times> ('k, 'hs, 'cs) mesh" where
  "mesh_Run N [] m = (True, m)"
| "mesh_Run N ((env, Datagram packet from) # reads) m = mesh_Run N reads (handle N env (take MaxDatagramSize packet) from m)"
| "mesh_Run N ((env, ReadFailed) # reads) m = (False, m)"

section \<open>What they give\<close>

text \<open>Text without the characters that have a meaning in an address.\<close>

definition unmarked :: "string \<Rightarrow> bool" where
  "unmarked s \<longleftrightarrow> CHR '':'' \<notin> set s \<and> CHR ''['' \<notin> set s \<and> CHR '']'' \<notin> set s"

lemma after_last_append: "c \<in> set cs \<Longrightarrow> list_all (\<lambda>x. x \<notin> set cs) p \<Longrightarrow> after_last cs (h @ c # p) = p"
  by (simp add: after_last_def list_all_iff takeWhile_append)

lemma takeWhile_append_stop: "x \<notin> set xs \<Longrightarrow> takeWhile (\<lambda>c. c \<noteq> x) (xs @ x # ys) = xs"
  by (induction xs) auto

lemma SplitHostPort_plain:
  assumes "unmarked h" "unmarked p"
  shows "SplitHostPort (h @ CHR '':'' # p) = Some (h, p)"
proof -
  have "after_last '':'' (h @ CHR '':'' # p) = p" using assms(2) by (intro after_last_append) (auto simp: unmarked_def list_all_iff)
  moreover have "hd (h @ CHR '':'' # p) \<noteq> CHR ''[''" using assms(1) by (cases h) (auto simp: unmarked_def)
  ultimately show ?thesis using assms by (simp add: SplitHostPort_def Let_def unmarked_def)
qed

lemma SplitHostPort_brackets:
  assumes "CHR ''['' \<notin> set h" "CHR '']'' \<notin> set h" "unmarked p"
  shows "SplitHostPort (CHR ''['' # h @ CHR '']'' # CHR '':'' # p) = Some (h, p)"
proof -
  let ?s = "CHR ''['' # h @ CHR '']'' # CHR '':'' # p"
  have "after_last '':'' ((CHR ''['' # h @ [CHR '']'']) @ CHR '':'' # p) = p"
    using assms(3) by (intro after_last_append) (auto simp: unmarked_def list_all_iff)
  moreover have "takeWhile (\<lambda>c. c \<noteq> CHR '']'') ((CHR ''['' # h) @ CHR '']'' # CHR '':'' # p) = CHR ''['' # h"
    using assms(2) by (intro takeWhile_append_stop) auto
  ultimately show ?thesis using assms by (simp add: SplitHostPort_def Let_def unmarked_def)
qed

lemma SplitHostPort_none: "unmarked s \<Longrightarrow> SplitHostPort s = None"
  by (simp add: SplitHostPort_def unmarked_def)

text \<open>
The limit on attempts is one per address. However many ports a client connects from, the limiter keeps one account for
its address, of either kind.
\<close>

theorem limiter_counts_addresses:
  assumes "unmarked p" "unmarked p'"
  shows "unmarked h \<Longrightarrow> allow (clientIP (h @ CHR '':'' # p)) now l = allow (clientIP (h @ CHR '':'' # p')) now l"
    and "CHR ''['' \<notin> set h \<Longrightarrow> CHR '']'' \<notin> set h \<Longrightarrow>
      allow (clientIP (CHR ''['' # h @ CHR '']'' # CHR '':'' # p)) now l = allow (clientIP (CHR ''['' # h @ CHR '']'' # CHR '':'' # p')) now l"
  using assms by (simp_all add: clientIP_def SplitHostPort_plain SplitHostPort_brackets)

lemma cutPrefix_plain: "CHR '':'' \<in> set pre \<Longrightarrow> unmarked s \<Longrightarrow> cutPrefix s pre = (s, False)"
  by (metis cutPrefix_def in_set_takeD unmarked_def starts_with_def)

text \<open>
A server's list of STUN servers may name them with a scheme or without, and with a port or without: all of
these ask the same place, and the answer is an IPv4 address.
\<close>

theorem stun_names_agree:
  assumes "unmarked name" and "name \<noteq> ''stuns''"
  shows "resolveStun lookupHost lookupPort (''stun:'' @ name) = resolveStun lookupHost lookupPort name"
    and "resolveStun lookupHost lookupPort (''stuns:'' @ name) = resolveStun lookupHost lookupPort name"
    and "resolveStun lookupHost lookupPort (''stun:'' @ name @ '':3478'') = resolveStun lookupHost lookupPort name"
    and "resolveStun lookupHost lookupPort server = Some (a, port) \<Longrightarrow> is4 a"
proof -
  have none: "cutPrefix name ''stun:'' = (name, False)" "cutPrefix name ''stuns:'' = (name, False)"
    using assms by (simp_all add: cutPrefix_plain)
  have cut: "cutPrefix (pre @ x) pre = (x, True)" for pre x by (simp add: cutPrefix_def starts_with_def)
  have other: "cutPrefix (''stuns:'' @ x) ''stun:'' = (''stuns:'' @ x, False)" for x by (simp add: cutPrefix_def starts_with_def)
  have port: "cutPrefix (name @ '':3478'') ''stuns:'' = (name @ '':3478'', False)"
  proof -
    have "name = ''stuns''" if "take 6 (name @ '':3478'') = ''stuns:''"
    proof -
      have "name @ '':3478'' = ''stuns'' @ CHR '':'' # drop 6 (name @ '':3478'')"
        using that append_take_drop_id [of 6 "name @ '':3478''"] by simp
      then have "takeWhile (\<lambda>c. c \<noteq> CHR '':'') (name @ CHR '':'' # ''3478'') = ''stuns''" by simp
      then show ?thesis using assms(1) takeWhile_append_stop [of "CHR '':''" name "''3478''"] by (simp add: unmarked_def)
    qed
    then show ?thesis using assms(2) by (auto simp: cutPrefix_def starts_with_def eval_nat_numeral)
  qed
  have split: "SplitHostPort (name @ '':3478'') = Some (name, ''3478'')"
    using assms by (intro SplitHostPort_plain) (simp_all add: unmarked_def)
  show "resolveStun lookupHost lookupPort (''stun:'' @ name) = resolveStun lookupHost lookupPort name"
    unfolding resolveStun_def cut none by simp
  show "resolveStun lookupHost lookupPort (''stuns:'' @ name) = resolveStun lookupHost lookupPort name"
    unfolding resolveStun_def other none by (simp add: cut [of "''stuns:''", simplified] none)
  show "resolveStun lookupHost lookupPort (''stun:'' @ name @ '':3478'') = resolveStun lookupHost lookupPort name"
    unfolding resolveStun_def cut none by (simp add: port [simplified] split [simplified] none SplitHostPort_none [OF assms(1)])
  show "is4 a" if "resolveStun lookupHost lookupPort server = Some (a, port)"
    using that by (auto simp: resolveStun_def Let_def find_Some_iff split: option.splits prod.splits)
qed

lemma stun_attempts_out:
  "stun_attempts server packet ws m = (r, m') \<Longrightarrow>
     \<exists>k\<le>length ws. m' = m\<lparr>m_out := m_out m @ replicate k (server, packet)\<rparr> \<and> (r \<noteq> None \<longrightarrow> 0 < k)"
proof (induction ws arbitrary: m)
  case Nil
  then show ?case by (intro exI [of _ 0]) auto
next
  case (Cons ew ws)
  obtain env w where ew: "ew = (env, w)" by (cases ew)
  show ?case
  proof (cases "e_write env server packet")
    case False
    then show ?thesis using Cons.prems by (intro exI [of _ 0]) (auto simp: ew write_udp_def)
  next
    case True
    let ?m = "m\<lparr>m_out := m_out m @ [(server, packet)]\<rparr>"
    show ?thesis
    proof (cases w)
      case StunTimer
      then have "stun_attempts server packet ws ?m = (r, m')" using Cons.prems True by (simp add: ew write_udp_def)
      from Cons.IH [OF this] obtain k where "k \<le> length ws" "m' = ?m\<lparr>m_out := m_out ?m @ replicate k (server, packet)\<rparr>" by blast
      then show ?thesis by (intro exI [of _ "Suc k"]) simp
    qed (use Cons.prems True in \<open>auto simp: ew write_udp_def intro!: exI [of _ 1]\<close>)
  qed
qed

text \<open>
Asking for the public address is bounded and leaves nothing behind: at most three requests go out, all the same and
to the same server, at least one if there is an answer, and nothing else of the links changes.
\<close>

theorem stun_query_is_bounded:
  assumes "queryStun (Some server) (Some tid) waits m = (r, m')" and "lookup (m_stunWaiters m) (rq_ID (NewRequest tid)) = None"
  shows "\<exists>k\<le>3. m_out m' = m_out m @ replicate k (server, rq_Packet (NewRequest tid)) \<and> (r \<noteq> None \<longrightarrow> 0 < k) \<and>
    (\<forall>t. lookup (m_stunWaiters m') t = lookup (m_stunWaiters m) t) \<and>
    m'\<lparr>m_out := m_out m, m_stunWaiters := m_stunWaiters m\<rparr> = m"
proof -
  let ?req = "NewRequest tid" and ?m = "m\<lparr>m_stunWaiters := store (rq_ID (NewRequest tid)) None (m_stunWaiters m)\<rparr>"
  obtain m1 where a: "stun_attempts server (rq_Packet ?req) (take 3 waits) ?m = (r, m1)"
    and m': "m' = m1\<lparr>m_stunWaiters := remove (rq_ID ?req) (m_stunWaiters m1)\<rparr>"
    using assms(1) by (auto simp: queryStun_def Let_def split: prod.splits)
  from stun_attempts_out [OF a] obtain k where "k \<le> length (take 3 waits)"
    "m1 = ?m\<lparr>m_out := m_out ?m @ replicate k (server, rq_Packet ?req)\<rparr>" "r \<noteq> None \<longrightarrow> 0 < k" by blast
  then show ?thesis using assms(2) by (intro exI [of _ k]) (auto simp: m')
qed

text \<open>Reading keeps the links consistent, and stops for good with the first read that fails, although nobody asked it to.\<close>

lemma mesh_Run_inv: "mesh_inv m \<Longrightarrow> mesh_inv (snd (mesh_Run N reads m))"
  by (induction N reads m rule: mesh_Run.induct) (auto intro: mesh_step_inv step_handle)

lemma failed_read_ends_run: "mesh_Run N (reads @ (env, ReadFailed) # later) m = (False, snd (mesh_Run N reads m))"
  by (induction N reads m rule: mesh_Run.induct) auto

end
