(* ===== verification/Rolling_Log.thy ===== *)
theory Rolling_Log
  imports Prelude
begin

text \<open>
  The log files of the daemon: \<^verbatim>\<open>daemon/config/log.go\<close>. A log is a file that is appended to and the one
  generation kept behind it. Every call into the file system can fail, so each has its outcome as an
  argument. A handle that was closed stays closed, and everything done with it fails.
\<close>

record log_disk =
  ld_current :: "bytes option"
  ld_previous :: "bytes option"

record rolling_log =
  lg_limit :: nat
  lg_open :: bool
  lg_size :: nat

definition logLimit :: nat where "logLimit = 8 * 2 ^ 20"

text \<open>
  The file is made if it is not there; what is in it stays. It may not open, or open and not tell its size, which
  is given up as well but leaves the file that was made.
\<close>

datatype open_outcome = OpenFails | StatFails | Opens

definition openAppend :: "open_outcome \<Rightarrow> log_disk \<Rightarrow> nat option \<times> log_disk" where
  "openAppend f d =
     (if f = OpenFails then (None, d)
      else let content = (case ld_current d of None \<Rightarrow> [] | Some bs \<Rightarrow> bs)
           in (if f = StatFails then None else Some (length content), d\<lparr>ld_current := Some content\<rparr>))"

definition OpenRolling :: "bool \<Rightarrow> open_outcome \<Rightarrow> nat \<Rightarrow> log_disk \<Rightarrow> rolling_log option \<times> log_disk" where
  "OpenRolling dirOk f limit d =
     (if \<not> dirOk then (None, d)
      else case openAppend f d of
             (None, d) \<Rightarrow> (None, d)
           | (Some n, d) \<Rightarrow> (Some \<lparr>lg_limit = limit, lg_open = True, lg_size = n\<rparr>, d))"

text \<open>How closing, renaming and opening turn out.\<close>

record roll_outcome =
  ro_close :: bool
  ro_rename :: bool
  ro_open :: open_outcome

definition roll :: "roll_outcome \<Rightarrow> rolling_log \<times> log_disk \<Rightarrow> bool \<times> rolling_log \<times> log_disk" where
  "roll f s =
     (case s of (l, d) \<Rightarrow>
        if \<not> (lg_open l \<and> ro_close f) then (False, l\<lparr>lg_open := False\<rparr>, d)
        else if ld_current d \<noteq> None \<and> \<not> ro_rename f then (False, l\<lparr>lg_open := False\<rparr>, d)
        else
          let d = (case ld_current d of None \<Rightarrow> d | Some bs \<Rightarrow> d\<lparr>ld_previous := Some bs, ld_current := None\<rparr>)
          in case openAppend (ro_open f) d of
               (None, d) \<Rightarrow> (False, l\<lparr>lg_open := False\<rparr>, d)
             | (Some n, d) \<Rightarrow> (True, l\<lparr>lg_open := True, lg_size := n\<rparr>, d))"

text \<open>Of a record the first \<open>n\<close> bytes get written; anything less than all of it is an error.\<close>

definition append_to :: "bytes \<Rightarrow> log_disk \<Rightarrow> log_disk" where
  "append_to bs d = (case ld_current d of None \<Rightarrow> d | Some old \<Rightarrow> d\<lparr>ld_current := Some (old @ bs)\<rparr>)"

definition log_Write :: "roll_outcome \<Rightarrow> nat \<Rightarrow> bytes \<Rightarrow> rolling_log \<times> log_disk \<Rightarrow> bool \<times> rolling_log \<times> log_disk" where
  "log_Write f n entry s =
     (case (if lg_limit (fst s) < lg_size (fst s) + length entry then roll f s else (True, s)) of
        (False, s) \<Rightarrow> (False, s)
      | (True, l, d) \<Rightarrow>
          if \<not> lg_open l then (False, l, d)
          else (length entry \<le> n, l\<lparr>lg_size := lg_size l + length (take n entry)\<rparr>, append_to (take n entry) d))"

text \<open>Both files are removed as far as that works, and the log is opened again whatever happened.\<close>

record clear_outcome =
  co_close :: bool
  co_current :: bool
  co_previous :: bool
  co_open :: open_outcome

definition log_Clear :: "clear_outcome \<Rightarrow> rolling_log \<times> log_disk \<Rightarrow> bool \<times> rolling_log \<times> log_disk" where
  "log_Clear f s =
     (case s of (l, d) \<Rightarrow>
        if \<not> (lg_open l \<and> co_close f) then (False, l\<lparr>lg_open := False\<rparr>, d)
        else
          let removed = (ld_current d = None \<or> co_current f) \<and> (ld_previous d = None \<or> co_previous f);
              d = (if co_current f then d\<lparr>ld_current := None\<rparr> else d);
              d = (if co_previous f then d\<lparr>ld_previous := None\<rparr> else d)
          in case openAppend (co_open f) d of
               (None, d) \<Rightarrow> (False, l\<lparr>lg_open := False\<rparr>, d)
             | (Some n, d) \<Rightarrow> (removed, l\<lparr>lg_open := True, lg_size := n\<rparr>, d))"

definition log_Close :: "bool \<Rightarrow> rolling_log \<times> log_disk \<Rightarrow> bool \<times> rolling_log \<times> log_disk" where
  "log_Close ok s = (case s of (l, d) \<Rightarrow> (lg_open l \<and> ok, l\<lparr>lg_open := False\<rparr>, d))"

definition RemoveLog :: "bool \<Rightarrow> bool \<Rightarrow> log_disk \<Rightarrow> bool \<times> log_disk" where
  "RemoveLog current previous d =
     (if ld_current d \<noteq> None \<and> \<not> current then (False, d)
      else let d = d\<lparr>ld_current := None\<rparr>
           in if ld_previous d \<noteq> None \<and> \<not> previous then (False, d) else (True, d\<lparr>ld_previous := None\<rparr>))"

section \<open>Runs\<close>

datatype log_op = LogWrite roll_outcome nat bytes | LogClear clear_outcome

fun log_do :: "log_op \<Rightarrow> rolling_log \<times> log_disk \<Rightarrow> bool \<times> rolling_log \<times> log_disk" where
  "log_do (LogWrite f n entry) s = log_Write f n entry s"
| "log_do (LogClear f) s = log_Clear f s"

fun log_run :: "log_op list \<Rightarrow> rolling_log \<times> log_disk \<Rightarrow> bool list \<times> rolling_log \<times> log_disk" where
  "log_run [] s = ([], s)"
| "log_run (op # ops) s = (case log_do op s of (ok, s) \<Rightarrow> case log_run ops s of (oks, s) \<Rightarrow> (ok # oks, s))"

lemma log_run_length: "log_run ops s = (oks, s') \<Longrightarrow> length oks = length ops"
  by (induction ops arbitrary: s oks) (auto split: prod.splits)

fun op_bytes :: "log_op \<Rightarrow> nat" where
  "op_bytes (LogWrite f n entry) = length entry"
| "op_bytes (LogClear f) = 0"

section \<open>Its size\<close>

definition file_bytes :: "bytes option \<Rightarrow> nat" where
  "file_bytes f = (case f of None \<Rightarrow> 0 | Some bs \<Rightarrow> length bs)"

definition log_ok :: "rolling_log \<times> log_disk \<Rightarrow> bool" where
  "log_ok s \<longleftrightarrow> (lg_open (fst s) \<longrightarrow> ld_current (snd s) \<noteq> None \<and> lg_size (fst s) = file_bytes (ld_current (snd s))) \<and>
     file_bytes (ld_current (snd s)) \<le> lg_limit (fst s) \<and> file_bytes (ld_previous (snd s)) \<le> lg_limit (fst s)"

lemma openAppend_parts:
  "openAppend f d = (r, d') \<Longrightarrow>
     ld_previous d' = ld_previous d \<and> file_bytes (ld_current d') = file_bytes (ld_current d) \<and>
     (\<forall>n. r = Some n \<longrightarrow> ld_current d' \<noteq> None \<and> n = file_bytes (ld_current d))"
  by (auto simp: openAppend_def file_bytes_def Let_def split: if_splits option.splits)

lemma roll_ok:
  assumes "log_ok s" "roll f s = (ok, s')"
  shows "log_ok s' \<and> lg_limit (fst s') = lg_limit (fst s) \<and> (ok \<longrightarrow> lg_open (fst s') \<and> lg_size (fst s') = 0)"
proof -
  obtain l d where s: "s = (l, d)" by (cases s)
  let ?d = "case ld_current d of None \<Rightarrow> d | Some bs \<Rightarrow> d\<lparr>ld_previous := Some bs, ld_current := None\<rparr>"
  have d: "file_bytes (ld_current ?d) = 0" "file_bytes (ld_previous ?d) \<le> lg_limit l"
    using assms(1) by (auto simp: s log_ok_def file_bytes_def split: option.splits)
  obtain r d' where "openAppend (ro_open f) ?d = (r, d')" by fastforce
  note parts = openAppend_parts [OF this] this
  show ?thesis
    using assms d parts by (auto simp: s roll_def Let_def log_ok_def split: if_splits option.splits)
qed

lemma log_do_ok:
  assumes "log_ok s" "op_bytes op \<le> lg_limit (fst s)" "log_do op s = (ok, s')"
  shows "log_ok s' \<and> lg_limit (fst s') = lg_limit (fst s)"
proof (cases op)
  case (LogWrite f n entry)
  define mid where "mid = (if lg_limit (fst s) < lg_size (fst s) + length entry then roll f s else (True, s))"
  obtain ok1 l d where m: "mid = (ok1, l, d)" by (metis prod_cases3)
  have "log_ok (l, d)" "lg_limit l = lg_limit (fst s)" "ok1 \<longrightarrow> lg_open l \<longrightarrow> lg_size l + length entry \<le> lg_limit l"
    using roll_ok [OF assms(1), of f ok1 "(l, d)"] assms(1,2) m by (auto simp: mid_def LogWrite split: if_splits)
  moreover have "log_Write f n entry s = (if \<not> ok1 \<or> \<not> lg_open l then (False, l, d)
      else (length entry \<le> n, l\<lparr>lg_size := lg_size l + length (take n entry)\<rparr>, append_to (take n entry) d))"
    using m by (cases ok1) (simp_all add: log_Write_def mid_def [symmetric])
  ultimately show ?thesis
    using assms(3) by (auto simp: LogWrite log_ok_def append_to_def file_bytes_def split: if_splits option.splits)
next
  case (LogClear f)
  obtain l d where s: "s = (l, d)" by (cases s)
  let ?d = "(if co_previous f then (\<lambda>d. d\<lparr>ld_previous := None\<rparr>) else id) ((if co_current f then (\<lambda>d. d\<lparr>ld_current := None\<rparr>) else id) d)"
  have d: "file_bytes (ld_current ?d) \<le> lg_limit l" "file_bytes (ld_previous ?d) \<le> lg_limit l"
    using assms(1) by (auto simp: s log_ok_def file_bytes_def split: option.splits)
  obtain r d' where "openAppend (co_open f) ?d = (r, d')" by fastforce
  note parts = openAppend_parts [OF this] this
  show ?thesis
    using assms d parts by (auto simp: s LogClear log_Clear_def Let_def log_ok_def split: if_splits option.splits)
qed

text \<open>
C26: the logs cannot fill the disk. Whatever is written and cleared, and whatever the file system refuses to do on the
way, the log and the generation behind it stay within the limit each, as long as no single record is larger than it;
and while the log is open the size it goes by is the size of the file.
\<close>

theorem log_is_bounded:
  assumes "OpenRolling True f limit d = (Some l, d0)" and "file_bytes (ld_current d) \<le> limit" and "file_bytes (ld_previous d) \<le> limit"
    and "list_all (\<lambda>op. op_bytes op \<le> limit) ops" and "log_run ops (l, d0) = (oks, l', d')"
  shows "file_bytes (ld_current d') \<le> limit \<and> file_bytes (ld_previous d') \<le> limit \<and>
    (lg_open l' \<longrightarrow> lg_size l' = file_bytes (ld_current d'))"
proof -
  have run: "log_ok s' \<and> lg_limit (fst s') = lg_limit (fst s)"
    if "log_ok s" "list_all (\<lambda>op. op_bytes op \<le> lg_limit (fst s)) ops" "log_run ops s = (oks, s')" for s s' ops oks
    using that
  proof (induction ops arbitrary: s oks)
    case (Cons op ops)
    obtain ok s1 where one: "log_do op s = (ok, s1)" by (cases "log_do op s")
    then have "log_ok s1" "lg_limit (fst s1) = lg_limit (fst s)" using log_do_ok [OF Cons.prems(1) _ one] Cons.prems(2) by simp_all
    then show ?case using Cons.IH [of s1] Cons.prems one by (auto split: prod.splits)
  qed simp
  have "log_ok (l, d0)" "lg_limit l = limit"
    using assms(1-3) openAppend_parts [of f d] by (auto simp: OpenRolling_def log_ok_def split: prod.splits option.splits)
  then show ?thesis using run [of "(l, d0)" ops oks "(l', d')"] assms(4,5) by (auto simp: log_ok_def)
qed

section \<open>What is in it\<close>

text \<open>A file system that does what it is told.\<close>

definition all_well :: roll_outcome where
  "all_well = \<lparr>ro_close = True, ro_rename = True, ro_open = Opens\<rparr>"

definition keeps_latest :: "bytes list \<Rightarrow> rolling_log \<times> log_disk \<Rightarrow> bool" where
  "keeps_latest rs s \<longleftrightarrow> lg_open (fst s) \<and>
     (\<exists>a b c. rs = a @ b @ c \<and> ld_current (snd s) = Some (concat c) \<and> lg_size (fst s) = length (concat c) \<and>
        (ld_previous (snd s) = Some (concat b) \<or> ld_previous (snd s) = None \<and> a = [] \<and> b = []))"

lemma log_Write_latest:
  assumes "keeps_latest rs s"
  shows "\<exists>s'. log_Write all_well (length entry) entry s = (True, s') \<and> keeps_latest (rs @ [entry]) s'"
proof -
  obtain l d where s: "s = (l, d)" by (cases s)
  obtain a b c where abc: "rs = a @ b @ c" "ld_current d = Some (concat c)" "lg_size l = length (concat c)" "lg_open l"
    "ld_previous d = Some (concat b) \<or> ld_previous d = None \<and> a = [] \<and> b = []"
    using assms by (auto simp: keeps_latest_def s)
  show ?thesis
  proof (cases "lg_limit l < lg_size l + length entry")
    case True
    then have "log_Write all_well (length entry) entry s =
        (True, l\<lparr>lg_open := True, lg_size := length entry\<rparr>, d\<lparr>ld_previous := Some (concat c), ld_current := Some entry\<rparr>)"
      using abc by (simp add: s log_Write_def roll_def openAppend_def all_well_def append_to_def)
    moreover have "keeps_latest (rs @ [entry])
        (l\<lparr>lg_open := True, lg_size := length entry\<rparr>, d\<lparr>ld_previous := Some (concat c), ld_current := Some entry\<rparr>)"
      unfolding keeps_latest_def using abc by (intro conjI exI [of _ "a @ b"] exI [of _ c] exI [of _ "[entry]"]) simp_all
    ultimately show ?thesis by blast
  next
    case False
    then have "log_Write all_well (length entry) entry s =
        (True, l\<lparr>lg_size := length (concat c) + length entry\<rparr>, d\<lparr>ld_current := Some (concat c @ entry)\<rparr>)"
      using abc by (simp add: s log_Write_def append_to_def)
    moreover have "keeps_latest (rs @ [entry]) (l\<lparr>lg_size := length (concat c) + length entry\<rparr>, d\<lparr>ld_current := Some (concat c @ entry)\<rparr>)"
      unfolding keeps_latest_def using abc by (intro conjI exI [of _ a] exI [of _ b] exI [of _ "c @ [entry]"]) simp_all
    ultimately show ?thesis by blast
  qed
qed


section \<open>When it ends\<close>

lemma closed_log: "\<not> lg_open (fst s) \<Longrightarrow> log_do op s = (False, s)"
  by (cases op; cases s) (auto simp: log_Write_def roll_def log_Clear_def)

text \<open>
One failed roll ends the log. When the file behind the log cannot be replaced, say because something else has it
open, the log is left with a handle that is closed; from then on every record is lost and clearing the log fails as
well, whether or not the file system works again.
\<close>

theorem failed_roll_ends_the_log:
  assumes "lg_limit l < lg_size l + length entry" and "ld_current d = Some bs" and "\<not> ro_rename f" and "log_Write f n entry (l, d) = (ok, s)"
  shows "\<not> ok \<and> snd s = d \<and> (\<forall>ops. log_run ops s = (replicate (length ops) False, s))"
proof -
  have "\<not> ok" "snd s = d" "\<not> lg_open (fst s)" using assms by (auto simp: log_Write_def roll_def split: if_splits)
  moreover have "log_run ops s = (replicate (length ops) False, s)" for ops
    by (induction ops) (simp_all add: closed_log [OF \<open>\<not> lg_open (fst s)\<close>])
  ultimately show ?thesis by blast
qed

section \<open>A small log\<close>

definition toy_log :: rolling_log where
  "toy_log = \<lparr>lg_limit = 3, lg_open = True, lg_size = 0\<rparr>"

theorem log_is_bounded_witness:
  "let (oks, l', d') = log_run [LogWrite all_well 2 [1, 2], LogWrite all_well 2 [3, 4]] (toy_log, \<lparr>ld_current = Some [], ld_previous = None\<rparr>)
   in file_bytes (ld_current d') \<le> 3 \<and> file_bytes (ld_previous d') \<le> 3"
proof -
  let ?ops = "[LogWrite all_well 2 [1, 2], LogWrite all_well 2 [3, 4]]" and ?d = "\<lparr>ld_current = Some [], ld_previous = None\<rparr>"
  have opened: "OpenRolling True Opens 3 ?d = (Some toy_log, ?d)" by (simp add: OpenRolling_def openAppend_def toy_log_def)
  obtain oks l' d' where run: "log_run ?ops (toy_log, ?d) = (oks, l', d')" by (metis prod_cases3)
  show ?thesis using log_is_bounded [OF opened _ _ _ run] unfolding run by (simp add: file_bytes_def)
qed


theorem failed_roll_ends_the_log_witness:
  "let (ok, s) = log_Write \<lparr>ro_close = True, ro_rename = False, ro_open = Opens\<rparr> 4 [1, 2, 3, 4] (toy_log, \<lparr>ld_current = Some [], ld_previous = None\<rparr>)
   in log_run [LogWrite all_well 1 [1], LogClear \<lparr>co_close = True, co_current = True, co_previous = True, co_open = Opens\<rparr>] s = ([False, False], s)"
proof -
  let ?f = "\<lparr>ro_close = True, ro_rename = False, ro_open = Opens\<rparr>" and ?d = "\<lparr>ld_current = Some [], ld_previous = None\<rparr>"
  obtain ok s where run: "log_Write ?f 4 [1, 2, 3, 4] (toy_log, ?d) = (ok, s)" by (metis surj_pair)
  have "\<forall>ops. log_run ops s = (replicate (length ops) False, s)"
    using failed_roll_ends_the_log [OF _ _ _ run] by (simp add: toy_log_def)
  then show ?thesis unfolding run by (simp add: numeral_2_eq_2 del: log_run.simps)
qed

end
