(* ===== verification/Service.thy ===== *)
theory Service
  imports Prelude
begin

text \<open>
  The daemon as a service of Windows: \<^verbatim>\<open>daemon/service/service_windows.go\<close>. The service manager is a machine
  with at most one registration under the program's name; what it refuses is an argument of each operation. The
  handler that runs the daemon is a function of what reaches it, in order.
\<close>

section \<open>The registration\<close>

datatype svc_state = SvcStopped | SvcStartPending | SvcStopPending | SvcRunning | SvcContinuePending | SvcPausePending | SvcPaused

datatype State = StateAbsent | StateStopped | StateRunning | StatePending

record registration =
  reg_exe :: string
  reg_manual :: bool
  reg_account :: string
  reg_dacl :: "string option"

definition accessControl :: string where
  "accessControl =
     ''D:(A;;CCDCLCSWRPWPDTLOCRSDRCWDWO;;;SY)(A;;CCDCLCSWRPWPDTLOCRSDRCWDWO;;;BA)(A;;CCLCSWRPWPLORC;;;IU)''"

datatype svc_error = NoExecutable | NoManager | AlreadyInstalled | CreateRefused | AclRefused | NotOpened | NoSuchService
  | QueryFailed | StopRefused | StartRefused | NotInTime | AdapterStays | DeleteRefused

record machine =
  m_service :: "registration option"
  m_adapter :: bool

text \<open>What the manager refuses.\<close>

record scm_faults =
  sf_exe :: bool
  sf_manager :: bool
  sf_open :: bool
  sf_create :: bool
  sf_acl :: bool
  sf_delete :: bool
  sf_adapter_open :: bool
  sf_adapter :: bool

definition delete_service :: "scm_faults \<Rightarrow> machine \<Rightarrow> bool \<times> machine" where
  "delete_service f m = (if sf_delete f then (False, m) else (True, m\<lparr>m_service := None\<rparr>))"

definition applyAccessControl :: "scm_faults \<Rightarrow> machine \<Rightarrow> bool \<times> machine" where
  "applyAccessControl f m =
     (if sf_acl f then (False, m)
      else (True, m\<lparr>m_service := map_option (\<lambda>r. r\<lparr>reg_dacl := Some accessControl\<rparr>) (m_service m)\<rparr>))"

text \<open>The manager refuses to create what is already there, which happens when it could not be opened.\<close>

definition Install :: "scm_faults \<Rightarrow> string \<Rightarrow> machine \<Rightarrow> (svc_error + unit) \<times> machine" where
  "Install f exe m =
     (if sf_exe f then (Inl NoExecutable, m)
      else if sf_manager f then (Inl NoManager, m)
      else if m_service m \<noteq> None \<and> \<not> sf_open f then (Inl AlreadyInstalled, m)
      else if m_service m \<noteq> None \<or> sf_create f then (Inl CreateRefused, m)
      else
        let m = m\<lparr>m_service := Some \<lparr>reg_exe = exe, reg_manual = True, reg_account = ''LocalSystem'', reg_dacl = None\<rparr>\<rparr>
        in case applyAccessControl f m of
             (False, m) \<Rightarrow> (Inl AclRefused, snd (delete_service f m))
           | (True, m) \<Rightarrow> (Inr (), m))"

section \<open>Waiting\<close>

text \<open>
  The state is asked for until it is the one wanted or half a minute has gone by. The answer to the \<open>i\<close>-th question
  is \<open>query i\<close>, with None when it cannot be asked, and \<open>spent i\<close> is what it and the sleep after it take on top of the
  300 milliseconds of the sleep.
\<close>

function await :: "(nat \<Rightarrow> svc_state option) \<Rightarrow> (nat \<Rightarrow> nat) \<Rightarrow> svc_state \<Rightarrow> nat \<Rightarrow> nat \<Rightarrow> svc_error + unit" where
  "await query spent want i now =
     (if now < 30000 then
        (case query i of
           None \<Rightarrow> Inl QueryFailed
         | Some st \<Rightarrow> if st = want then Inr () else await query spent want (Suc i) (now + spent i + 300))
      else Inl NotInTime)"
  by pat_completeness auto

termination await
  by (relation "measure (\<lambda>(query, spent, want, i, now). 30000 - now)") auto

declare await.simps [simp del]

definition stop_service :: "svc_state option \<Rightarrow> bool \<Rightarrow> (nat \<Rightarrow> svc_state option) \<Rightarrow> (nat \<Rightarrow> nat) \<Rightarrow> svc_error + unit" where
  "stop_service first accepted query spent =
     (case first of
        None \<Rightarrow> Inl QueryFailed
      | Some st \<Rightarrow>
          if st = SvcStopped then Inr ()
          else if \<not> accepted then Inl StopRefused
          else await query spent SvcStopped 0 0)"

text \<open>An adapter that cannot be opened is taken for one that is not there.\<close>

definition removeAdapter :: "scm_faults \<Rightarrow> machine \<Rightarrow> (svc_error + unit) \<times> machine" where
  "removeAdapter f m =
     (if \<not> m_adapter m \<or> sf_adapter_open f then (Inr (), m)
      else if sf_adapter f then (Inl AdapterStays, m) else (Inr (), m\<lparr>m_adapter := False\<rparr>))"

definition Uninstall :: "scm_faults \<Rightarrow> svc_error + unit \<Rightarrow> machine \<Rightarrow> (svc_error + unit) \<times> machine" where
  "Uninstall f stopped m =
     (if sf_manager f then (Inl NoManager, m)
      else if m_service m = None \<or> sf_open f then removeAdapter f m
      else case stopped of
             Inl e \<Rightarrow> (Inl e, m)
           | Inr _ \<Rightarrow>
               (case removeAdapter f m of
                  (Inl e, m) \<Rightarrow> (Inl e, m)
                | (Inr _, m) \<Rightarrow> (case delete_service f m of (False, m) \<Rightarrow> (Inl DeleteRefused, m) | (True, m) \<Rightarrow> (Inr (), m))))"

text \<open>Opening with only the rights that are needed.\<close>

definition open_service :: "scm_faults \<Rightarrow> machine \<Rightarrow> svc_error + unit" where
  "open_service f m =
     (if sf_manager f then Inl NoManager
      else if m_service m = None then Inl NoSuchService
      else if sf_open f then Inl NotOpened else Inr ())"

definition Start :: "scm_faults \<Rightarrow> svc_state option \<Rightarrow> bool \<Rightarrow> (nat \<Rightarrow> svc_state option) \<Rightarrow> (nat \<Rightarrow> nat) \<Rightarrow> machine \<Rightarrow> svc_error + unit" where
  "Start f first accepted query spent m =
     (case open_service f m of
        Inl e \<Rightarrow> Inl e
      | Inr _ \<Rightarrow>
          if first = Some SvcRunning then Inr ()
          else if \<not> accepted then Inl StartRefused
          else await query spent SvcRunning 0 0)"

definition Stop :: "scm_faults \<Rightarrow> svc_state option \<Rightarrow> bool \<Rightarrow> (nat \<Rightarrow> svc_state option) \<Rightarrow> (nat \<Rightarrow> nat) \<Rightarrow> machine \<Rightarrow> svc_error + unit" where
  "Stop f first accepted query spent m =
     (case open_service f m of Inl e \<Rightarrow> Inl e | Inr _ \<Rightarrow> stop_service first accepted query spent)"

definition Status :: "scm_faults \<Rightarrow> svc_state option \<Rightarrow> machine \<Rightarrow> svc_error + State" where
  "Status f query m =
     (case open_service f m of
        Inl e \<Rightarrow> if e = NoSuchService then Inr StateAbsent else Inl e
      | Inr _ \<Rightarrow>
          (case query of
             None \<Rightarrow> Inl QueryFailed
           | Some st \<Rightarrow> Inr (if st = SvcRunning then StateRunning else if st = SvcStopped then StateStopped else StatePending)))"

text \<open>The subcommands of the daemon's program, with their exit codes; \<^verbatim>\<open>main\<close> passes at least one argument.\<close>

definition serviceCommand ::
  "scm_faults \<Rightarrow> string \<Rightarrow> svc_state option \<Rightarrow> bool \<Rightarrow> (nat \<Rightarrow> svc_state option) \<Rightarrow> (nat \<Rightarrow> nat) \<Rightarrow> string \<Rightarrow> string list \<Rightarrow> machine \<Rightarrow> nat \<times> machine" where
  "serviceCommand f exe first accepted query spent arg args m =
     (if arg \<noteq> ''service'' \<or> length args \<noteq> 1 then (2, m)
      else
        let code = (\<lambda>r. case r of Inl _ \<Rightarrow> 1 | Inr _ \<Rightarrow> 0)
        in if hd args = ''install'' then map_prod code id (Install f exe m)
           else if hd args = ''uninstall'' then map_prod code id (Uninstall f (stop_service first accepted query spent) m)
           else if hd args = ''start'' then (code (Start f first accepted query spent m), m)
           else if hd args = ''stop'' then (code (Stop f first accepted query spent m), m)
           else if hd args = ''status'' then (case Status f first m of Inl _ \<Rightarrow> 1 | Inr _ \<Rightarrow> 0, m)
           else (2, m))"

section \<open>The handler\<close>

text \<open>
  What reaches \<^verbatim>\<open>Execute\<close>: commands of the manager, and the end of the daemon with whether it failed. It reports
  states to the manager, with whether it accepts being stopped, may cancel the daemon's context, and returns an exit code. A
  run that is cut off has not returned: its code is None.
\<close>

datatype svc_event = Interrogate "svc_state \<times> bool" | StopCommand | ShutdownCommand | OtherCommand nat | WorkEnds bool

record execution =
  ex_reported :: "(svc_state \<times> bool) list"
  ex_cancelled :: bool
  ex_code :: "nat option"

definition exit_code :: "bool \<Rightarrow> nat" where
  "exit_code failed = (if failed then 1 else 0)"

text \<open>After a stop only the end of the daemon is waited for; commands stay in their channel.\<close>

fun wait_for_work :: "svc_event list \<Rightarrow> nat option" where
  "wait_for_work [] = None"
| "wait_for_work (WorkEnds failed # es) = Some (exit_code failed)"
| "wait_for_work (e # es) = wait_for_work es"

fun serve_requests :: "svc_event list \<Rightarrow> execution \<Rightarrow> execution" where
  "serve_requests [] x = x"
| "serve_requests (Interrogate st # es) x = serve_requests es (x\<lparr>ex_reported := ex_reported x @ [st]\<rparr>)"
| "serve_requests (OtherCommand n # es) x = serve_requests es x"
| "serve_requests (WorkEnds failed # es) x =
     x\<lparr>ex_reported := ex_reported x @ [(SvcStopPending, False)], ex_code := Some (exit_code failed), ex_cancelled := True\<rparr>"
| "serve_requests (StopCommand # es) x =
     x\<lparr>ex_reported := ex_reported x @ [(SvcStopPending, False)], ex_cancelled := True, ex_code := wait_for_work es\<rparr>"
| "serve_requests (ShutdownCommand # es) x =
     x\<lparr>ex_reported := ex_reported x @ [(SvcStopPending, False)], ex_cancelled := True, ex_code := wait_for_work es\<rparr>"

definition Execute :: "svc_event list \<Rightarrow> execution" where
  "Execute es =
     serve_requests es \<lparr>ex_reported = [(SvcStartPending, False), (SvcRunning, True)], ex_cancelled = False, ex_code = None\<rparr>"

section \<open>What holds\<close>

text \<open>
Installing is all or nothing. It succeeds with a service that starts on demand and that the people at the machine
may start and stop, or it fails and leaves the machine as it was; that needs the service manager to delete what it has just created, and
when it refuses, a service stays behind that only administrators can stop.
\<close>

theorem install_is_all_or_nothing:
  assumes "Install f exe m = (r, m')"
  shows "(case r of
       Inr _ \<Rightarrow> m_service m = None \<and> m_adapter m' = m_adapter m \<and>
         m_service m' = Some \<lparr>reg_exe = exe, reg_manual = True, reg_account = ''LocalSystem'', reg_dacl = Some accessControl\<rparr>
     | Inl e \<Rightarrow> m' = m \<or> e = AclRefused \<and> sf_delete f \<and> map_option reg_dacl (m_service m') = Some None)"
proof -
  have "m_service m = None \<Longrightarrow> m\<lparr>m_service := None\<rparr> = m" by (cases m) simp
  then show ?thesis
    using assms by (auto simp: Install_def Let_def applyAccessControl_def delete_service_def split: if_splits)
qed

text \<open>
What uninstalling leaves. When it succeeds with a service manager that could open the service, the service is gone, and
the adapter with it unless it could not even be opened. When it fails, the service is still registered, so it can be asked to uninstall again; and the
service is never taken away while the adapter stays.
\<close>

theorem uninstall_can_be_repeated:
  assumes "Uninstall f stopped m = (r, m')" and "m_service m \<noteq> None" and "\<not> sf_open f"
  shows "case r of Inr _ \<Rightarrow> m_service m' = None \<and> (m_adapter m' \<longrightarrow> sf_adapter_open f) \<and> stopped = Inr () | Inl e \<Rightarrow> m_service m' = m_service m"
  using assms by (auto simp: Uninstall_def removeAdapter_def delete_service_def split: if_splits sum.splits)

text \<open>The exit code tells whether it worked: the installer goes by it.\<close>

lemma install_command_code:
  assumes "serviceCommand f exe first accepted query spent ''service'' [''install''] m = (code, m')"
  shows "code = 0 \<longleftrightarrow> (\<exists>m''. Install f exe m = (Inr (), m''))"
  using assms by (cases "Install f exe m") (auto simp: serviceCommand_def split: sum.splits)

lemma uninstall_command_clears:
  assumes "serviceCommand f exe first accepted query spent ''service'' [''uninstall''] m = (0, m')" "\<not> sf_open f"
  shows "m_service m' = None \<and> (m_adapter m' \<longrightarrow> sf_adapter_open f)"
  using assms
  by (auto simp: serviceCommand_def Uninstall_def removeAdapter_def delete_service_def split: sum.splits if_splits)

text \<open>The questions that are asked while waiting.\<close>

fun clock :: "(nat \<Rightarrow> nat) \<Rightarrow> nat \<Rightarrow> nat" where
  "clock spent 0 = 0"
| "clock spent (Suc i) = clock spent i + spent i + 300"

lemma clock_bound: "300 * i \<le> clock spent i"
  by (induction i) auto

lemma await_from:
  "await query spent want i (clock spent i) = Inr () \<longleftrightarrow>
     (\<exists>k\<ge>i. clock spent k < 30000 \<and> query k = Some want \<and> (\<forall>j. i \<le> j \<and> j < k \<longrightarrow> query j \<noteq> None))"
proof (induction "30000 - clock spent i" arbitrary: i rule: less_induct)
  case less
  note step = await.simps [of query spent want i "clock spent i"]
  have later: "clock spent i \<le> clock spent k" if "i \<le> k" for k using that by (induction rule: dec_induct) auto
  show ?case
  proof (cases "clock spent i < 30000 \<and> query i \<noteq> None \<and> query i \<noteq> Some want")
    case True
    then have "await query spent want i (clock spent i) = await query spent want (Suc i) (clock spent (Suc i))"
      by (subst step) (auto simp: algebra_simps)
    also have "\<dots> = Inr () \<longleftrightarrow>
        (\<exists>k\<ge>Suc i. clock spent k < 30000 \<and> query k = Some want \<and> (\<forall>j. Suc i \<le> j \<and> j < k \<longrightarrow> query j \<noteq> None))"
      using True by (intro less) (simp, linarith)
    also have "\<dots> \<longleftrightarrow> (\<exists>k\<ge>i. clock spent k < 30000 \<and> query k = Some want \<and> (\<forall>j. i \<le> j \<and> j < k \<longrightarrow> query j \<noteq> None))"
      using True by (intro iff_exI) (auto simp: Suc_le_eq order_le_less [of i])
    finally show ?thesis .
  next
    case False
    then show ?thesis using later by (subst step) (force dest: le_neq_implies_less)
  qed
qed

text \<open>
C27: waiting for the service ends, and tells the truth. It succeeds exactly when one of the questions asked within half a
minute was answered with the state wanted and none before it failed; and however quickly the answers come, at most a hundred
questions are asked.
\<close>

theorem await_is_bounded:
  "(await query spent want 0 0 = Inr () \<longleftrightarrow>
      (\<exists>k<100. clock spent k < 30000 \<and> query k = Some want \<and> (\<forall>j<k. query j \<noteq> None))) \<and>
   (\<forall>query'. (\<forall>k<100. query' k = query k) \<longrightarrow> await query' spent want 0 0 = await query spent want 0 0)"
proof -
  have early: "k < 100" if "clock spent k < 30000" for k using clock_bound [of k spent] that by simp
  have "await query' spent want i (clock spent i) = await query spent want i (clock spent i)"
    if "\<forall>k<100. query' k = query k" for query' i
    using that
  proof (induction "30000 - clock spent i" arbitrary: i rule: less_induct)
    case less
    show ?case
    proof (cases "clock spent i < 30000")
      case True
      moreover have "await query' spent want (Suc i) (clock spent (Suc i)) = await query spent want (Suc i) (clock spent (Suc i))"
        using less.prems True by (intro less.hyps) auto
      moreover have "query' i = query i" using less.prems early [OF True] by simp
      ultimately show ?thesis
        by (subst await.simps, subst (2) await.simps) (simp add: algebra_simps split: option.split)
    qed (subst await.simps, subst (2) await.simps, simp)
  qed
  note same = this [of _ 0, simplified]
  have "await query spent want 0 0 = Inr () \<longleftrightarrow> (\<exists>k. clock spent k < 30000 \<and> query k = Some want \<and> (\<forall>j<k. query j \<noteq> None))"
    using await_from [of query spent want 0] by simp
  then show ?thesis using early same by metis
qed

text \<open>How the daemon ended, if it did.\<close>

fun work_ends :: "svc_event list \<Rightarrow> bool list" where
  "work_ends [] = []"
| "work_ends (WorkEnds failed # es) = failed # work_ends es"
| "work_ends (e # es) = work_ends es"

definition work_code :: "svc_event list \<Rightarrow> nat option" where
  "work_code es = (case work_ends es of [] \<Rightarrow> None | failed # _ \<Rightarrow> Some (exit_code failed))"

lemma wait_for_work_ends: "wait_for_work es = work_code es"
  by (induction es rule: wait_for_work.induct) (simp_all add: work_code_def)

definition ends_service :: "svc_event \<Rightarrow> bool" where
  "ends_service e \<longleftrightarrow> e \<in> {StopCommand, ShutdownCommand, WorkEnds True, WorkEnds False}"

lemma serve_requests_ends:
  "\<not> ex_cancelled x \<Longrightarrow> ex_cancelled (serve_requests es x) \<longleftrightarrow> list_ex ends_service es"
  "ex_code x = None \<Longrightarrow> ex_code (serve_requests es x) = work_code es"
  by (induction es x rule: serve_requests.induct) (auto simp: ends_service_def work_code_def wait_for_work_ends)

lemma serve_requests_reports:
  "ex_reported (serve_requests es x) =
     ex_reported x @ [st. Interrogate st \<leftarrow> takeWhile (\<lambda>e. \<not> ends_service e) es] @
     (if list_ex ends_service es then [(SvcStopPending, False)] else [])"
  by (induction es x rule: serve_requests.induct) (simp_all add: ends_service_def)

text \<open>
The service is stopped only once the daemon is. The handler reports that it is starting, that it runs and can be stopped, and from
then on answers what it is asked, until it is told to stop or the daemon ends by itself: then it reports once that it is stopping, and cancels
the daemon if it still runs. It returns when the daemon has ended and not before, whatever it is told meanwhile, with a code that says whether the daemon failed.
\<close>

theorem service_outlives_daemon:
  "ex_reported (Execute es) =
     [(SvcStartPending, False), (SvcRunning, True)] @ [st. Interrogate st \<leftarrow> takeWhile (\<lambda>e. \<not> ends_service e) es] @
     (if list_ex ends_service es then [(SvcStopPending, False)] else []) \<and>
   ex_cancelled (Execute es) = list_ex ends_service es \<and>
   ex_code (Execute es) = (case work_ends es of [] \<Rightarrow> None | failed # _ \<Rightarrow> Some (if failed then 1 else 0))"
  by (simp add: Execute_def serve_requests_ends serve_requests_reports work_code_def exit_code_def split: list.split)

section \<open>A machine\<close>

definition no_faults :: scm_faults where
  "no_faults = \<lparr>sf_exe = False, sf_manager = False, sf_open = False, sf_create = False, sf_acl = False, sf_delete = False,
     sf_adapter_open = False, sf_adapter = False\<rparr>"

theorem install_is_all_or_nothing_witness:
  "\<exists>m'. Install (no_faults\<lparr>sf_acl := True\<rparr>) ''d.exe'' \<lparr>m_service = None, m_adapter = False\<rparr> = (Inl AclRefused, m') \<and>
    m' = \<lparr>m_service = None, m_adapter = False\<rparr>"
proof -
  have run: "Install (no_faults\<lparr>sf_acl := True\<rparr>) ''d.exe'' \<lparr>m_service = None, m_adapter = False\<rparr> =
      (Inl AclRefused, \<lparr>m_service = None, m_adapter = False\<rparr>)"
    by (simp add: Install_def no_faults_def applyAccessControl_def delete_service_def)
  show ?thesis using install_is_all_or_nothing [OF run] run by (simp add: no_faults_def)
qed

theorem uninstall_can_be_repeated_witness:
  "let m = \<lparr>m_service = Some \<lparr>reg_exe = ''d.exe'', reg_manual = True, reg_account = ''LocalSystem'', reg_dacl = Some accessControl\<rparr>, m_adapter = True\<rparr>;
       (r, m') = Uninstall (no_faults\<lparr>sf_adapter := True\<rparr>) (Inr ()) m
   in r = Inl AdapterStays \<and> m_service m' = m_service m"
proof -
  let ?m = "\<lparr>m_service = Some \<lparr>reg_exe = ''d.exe'', reg_manual = True, reg_account = ''LocalSystem'', reg_dacl = Some accessControl\<rparr>, m_adapter = True\<rparr>"
  have run: "Uninstall (no_faults\<lparr>sf_adapter := True\<rparr>) (Inr ()) ?m = (Inl AdapterStays, ?m)"
    by (simp add: Uninstall_def removeAdapter_def no_faults_def)
  show ?thesis using uninstall_can_be_repeated [OF run] run by (simp add: no_faults_def)
qed

theorem await_is_bounded_witness:
  "await (\<lambda>k. if k = 2 then Some SvcStopped else Some SvcStopPending) (\<lambda>_. 10) SvcStopped 0 0 = Inr ()"
proof -
  let ?q = "\<lambda>k. if k = 2 then Some SvcStopped else Some SvcStopPending"
  have "2 < (100 :: nat) \<and> clock (\<lambda>_. 10) 2 < 30000 \<and> ?q 2 = Some SvcStopped \<and> (\<forall>j<2. ?q j \<noteq> None)"
    by (simp add: numeral_2_eq_2)
  then show ?thesis using await_is_bounded [of ?q "\<lambda>_. 10" SvcStopped] by blast
qed

end
