(* ===== verification/Daemon.thy ===== *)
theory Daemon
  imports Core_Props Rolling_Log Service
begin

text \<open>
  The daemon as a process: its settings and directories (\<^verbatim>\<open>daemon/config/config.go\<close>), the logs it owns, and the
  program that puts it together and takes it down (\<^verbatim>\<open>daemon/cmd/192168-service/main.go\<close>, \<^verbatim>\<open>Core.Close\<close>). Joining the parts of a
  path is the operating system's, the parameter \<open>join\<close>; variables that are not set read as empty.
\<close>

section \<open>Settings\<close>

definition DefaultServerURL :: string where "DefaultServerURL = ''https://192168.lol''"

definition envOr :: "(string \<Rightarrow> string) \<Rightarrow> string \<Rightarrow> string \<Rightarrow> string" where
  "envOr getenv key fallback = (if getenv key \<noteq> [] then getenv key else fallback)"

text \<open>The user's directory can fail to be found.\<close>

definition defaultDataDir :: "(string list \<Rightarrow> string) \<Rightarrow> (string \<Rightarrow> string) \<Rightarrow> string option \<Rightarrow> bool \<Rightarrow> string option" where
  "defaultDataDir join getenv userConfigDir asService =
     (if asService then
        (if getenv ''ProgramData'' = [] then None else Some (join [getenv ''ProgramData'', ''192168'']))
      else map_option (\<lambda>base. join [base, ''192168'']) userConfigDir)"

definition DataDir :: "(string list \<Rightarrow> string) \<Rightarrow> (string \<Rightarrow> string) \<Rightarrow> string option \<Rightarrow> bool \<Rightarrow> string option" where
  "DataDir join getenv userConfigDir asService =
     (if getenv ''NET192168_DATA_DIR'' \<noteq> [] then Some (getenv ''NET192168_DATA_DIR'')
      else defaultDataDir join getenv userConfigDir asService)"

record daemon_config =
  dc_ServerURL :: string
  dc_DataDir :: string

definition daemon_Load ::
  "(string \<Rightarrow> url option) \<Rightarrow> (string list \<Rightarrow> string) \<Rightarrow> (string \<Rightarrow> string) \<Rightarrow> string option \<Rightarrow> bool \<Rightarrow> daemon_config option" where
  "daemon_Load parse join getenv userConfigDir asService =
     (case DataDir join getenv userConfigDir asService of
        None \<Rightarrow> None
      | Some dir \<Rightarrow>
          let cfg = \<lparr>dc_ServerURL = TrimRight (envOr getenv ''NET192168_SERVER_URL'' DefaultServerURL) ''/'', dc_DataDir = dir\<rparr>
          in if ValidateServerURL parse (dc_ServerURL cfg) \<noteq> None then None else Some cfg)"

datatype log_level = LevelDebug | LevelInfo | LevelWarn | LevelError

definition LogLevel :: "(string \<Rightarrow> string) \<Rightarrow> log_level" where
  "LogLevel getenv =
     (let level = map lower_char (getenv ''NET192168_LOG_LEVEL'')
      in if level = ''debug'' then LevelDebug
         else if level = ''warn'' then LevelWarn
         else if level = ''error'' then LevelError else LevelInfo)"

section \<open>Logs\<close>

definition LogFile :: "(string list \<Rightarrow> string) \<Rightarrow> string \<Rightarrow> string" where
  "LogFile join dataDir = join [dataDir, ''logs'', ''daemon.log'']"

definition PacketLogFile :: "(string list \<Rightarrow> string) \<Rightarrow> string \<Rightarrow> string" where
  "PacketLogFile join dataDir = join [dataDir, ''logs'', ''packets.log'']"

text \<open>A disk has a log under every path. Only a service logs to a file.\<close>

definition OpenLog :: "(string list \<Rightarrow> string) \<Rightarrow> bool \<Rightarrow> open_outcome \<Rightarrow> string \<Rightarrow> (string \<Rightarrow> log_disk) \<Rightarrow> rolling_log option \<times> (string \<Rightarrow> log_disk)" where
  "OpenLog join dirOk f dataDir disk =
     (case OpenRolling dirOk f logLimit (disk (LogFile join dataDir)) of
        (l, d) \<Rightarrow> (l, disk(LogFile join dataDir := d)))"

definition openLogger ::
  "(string list \<Rightarrow> string) \<Rightarrow> (string \<Rightarrow> string) \<Rightarrow> string option \<Rightarrow> bool \<Rightarrow> open_outcome \<Rightarrow> bool \<Rightarrow> (string \<Rightarrow> log_disk) \<Rightarrow>
     rolling_log option option \<times> (string \<Rightarrow> log_disk)" where
  "openLogger join getenv userConfigDir dirOk f asService disk =
     (if \<not> asService then (Some None, disk)
      else case DataDir join getenv userConfigDir asService of
             None \<Rightarrow> (None, disk)
           | Some dir \<Rightarrow>
               (case OpenLog join dirOk f dir disk of
                  (None, disk) \<Rightarrow> (None, disk)
                | (Some l, disk) \<Rightarrow> (Some (Some l), disk)))"

text \<open>The packet log is cleared through the file that is open, or else removed.\<close>

definition recorder_Clear :: "clear_outcome \<Rightarrow> rolling_log option \<Rightarrow> log_disk \<Rightarrow> bool \<times> rolling_log option \<times> log_disk" where
  "recorder_Clear f l d =
     (case l of
        Some l \<Rightarrow> (case log_Clear f (l, d) of (ok, l, d) \<Rightarrow> (ok, Some l, d))
      | None \<Rightarrow> (case RemoveLog (co_current f) (co_previous f) d of (ok, d) \<Rightarrow> (ok, None, d)))"

text \<open>Both logs at once, as a client asks for it; the answer is that of \<open>ClearLogs\<close>.\<close>

definition clear_both ::
  "clear_outcome \<Rightarrow> clear_outcome \<Rightarrow> (rolling_log \<times> log_disk) option \<Rightarrow> rolling_log option \<times> log_disk \<Rightarrow>
     string list option \<times> (rolling_log \<times> log_disk) option \<times> rolling_log option \<times> log_disk" where
  "clear_both f g main packets =
     (case map_option (log_Clear f) main of
        Some (False, main) \<Rightarrow> (ClearLogs (Some False) False, Some main, packets)
      | cleared \<Rightarrow>
          (case recorder_Clear g (fst packets) (snd packets) of
             (ok, packets) \<Rightarrow> (ClearLogs (map_option fst cleared) ok, map_option snd cleared, packets)))"

definition log_empty :: "log_disk \<Rightarrow> bool" where
  "log_empty d \<longleftrightarrow> file_bytes (ld_current d) = 0 \<and> ld_previous d = None"

lemma log_Clear_empties: "log_Clear f s = (True, s') \<Longrightarrow> log_empty (snd s') \<and> lg_open (fst s') \<and> lg_size (fst s') = 0"
  by (auto simp: log_Clear_def Let_def openAppend_def log_empty_def file_bytes_def split: if_splits option.splits prod.splits)

lemma recorder_Clear_empties: "recorder_Clear f l d = (True, l', d') \<Longrightarrow> log_empty d' \<and> (l' = None \<longleftrightarrow> l = None)"
  using log_Clear_empties
  by (fastforce simp: recorder_Clear_def RemoveLog_def Let_def log_empty_def file_bytes_def split: if_splits option.splits prod.splits)

text \<open>
A log that is said to be cleared is empty. When clearing the logs succeeds, the daemon's own log if there is one
and the packet log are empty and nothing is left behind them, whether the packet log is on or not, and the ones that were open still are; exactly those are named.
\<close>

theorem cleared_logs_are_empty:
  assumes "clear_both f g main packets = (Some names, main', packets')"
  shows "(\<forall>s. main' = Some s \<longrightarrow> log_empty (snd s) \<and> lg_open (fst s)) \<and> log_empty (snd packets') \<and>
    (main' = None \<longleftrightarrow> main = None) \<and> (fst packets' = None \<longleftrightarrow> fst packets = None) \<and>
    names = (if main = None then [] else [''daemon.log'']) @ [''packets.log'']"
proof -
  obtain ok p where p: "recorder_Clear g (fst packets) (snd packets) = (ok, p)" by (cases "recorder_Clear g (fst packets) (snd packets)")
  show ?thesis
  proof (cases main)
    case None
    then show ?thesis
      using assms p recorder_Clear_empties [of g "fst packets" "snd packets" "fst p" "snd p"]
      by (auto simp: clear_both_def ClearLogs_def split: if_splits)
  next
    case (Some s)
    obtain ok1 s1 where m: "log_Clear f s = (ok1, s1)" by (cases "log_Clear f s")
    show ?thesis
      using assms p m Some recorder_Clear_empties [of g "fst packets" "snd packets" "fst p" "snd p"] log_Clear_empties [of f s s1]
      by (cases ok1) (auto simp: clear_both_def ClearLogs_def split: if_splits)
  qed
qed

section \<open>The process\<close>

text \<open>Closing the core: every context is derived from the one that is cancelled.\<close>

definition Core_Close :: "unit answers \<Rightarrow> ('hs, 'cs) core \<Rightarrow> ('hs, 'cs) core" where
  "Core_Close D c =
     (let c = Disconnect D c;
          c = c\<lparr>c_cancelled := [0..<c_contexts c] @ c_cancelled c\<rparr>
      in c\<lparr>c_packets := snd (SetEnabled False False (c_packets c))\<rparr>)"

datatype run_error = InvalidConfiguration | NoDeviceIdentity | CannotStart | NoControlChannel | ControlChannelFailed

text \<open>
  What the process finds: its environment, the identity and the settings under a directory, whether the packet log and
  the control channel open. What happens while it serves is \<open>serve\<close>, which tells whether the channel failed.
\<close>

definition daemon_run ::
  "daemon_config option \<Rightarrow> (string \<Rightarrow> identity_error + identity) \<Rightarrow> (string \<Rightarrow> settings_file) \<Rightarrow> bool \<Rightarrow> bool \<Rightarrow>
     (('hs, 'cs) core \<Rightarrow> bool \<times> ('hs, 'cs) core) \<Rightarrow> unit answers \<Rightarrow> run_error option \<times> ('hs, 'cs) core option" where
  "daemon_run config load stored openable listening serve D =
     (case config of
        None \<Rightarrow> (Some InvalidConfiguration, None)
      | Some cfg \<Rightarrow>
          (case load (dc_DataDir cfg) of
             Inl _ \<Rightarrow> (Some NoDeviceIdentity, None)
           | Inr i \<Rightarrow>
               (case loadSettings (stored (dc_DataDir cfg)) (dc_ServerURL cfg) of
                  None \<Rightarrow> (Some CannotStart, None)
                | Some s \<Rightarrow>
                    let c = NewCore i s (dc_ServerURL cfg) openable
                    in if \<not> listening then (Some NoControlChannel, Some (Core_Close D c))
                       else case serve c of
                              (failed, c) \<Rightarrow> (if failed then Some ControlChannelFailed else None, Some (Core_Close D c)))))"

text \<open>
  Saving the settings: the file is opened, which empties it, and written. A write that does not get to its end, because
  it fails or the machine stops, leaves a piece of it.
\<close>

datatype write_outcome = NotOpened_file | Partly | Whole_file

definition settings_save :: "write_outcome \<Rightarrow> settings \<Rightarrow> settings_file \<Rightarrow> bool \<times> settings_file" where
  "settings_save f s old =
     (case f of
        NotOpened_file \<Rightarrow> (False, old)
      | Partly \<Rightarrow> (False, MalformedSettings)
      | Whole_file \<Rightarrow> (True, StoredSettings (Some (set_ServerURL s)) (Some (set_LanDiscovery s)) (Some (set_PacketLog s))))"

text \<open>Every core that serving can end with.\<close>

definition serves :: "(('hs, 'cs) core \<Rightarrow> bool \<times> ('hs, 'cs) core) \<Rightarrow> bool" where
  "serves serve \<longleftrightarrow> (\<forall>c. core_step\<^sup>*\<^sup>* c (snd (serve c)))"

lemma Core_Close_clean:
  assumes inv: "core_inv c"
  shows "c_session (Core_Close D c) = None \<and> c_peers (Core_Close D c) = [] \<and> (\<forall>x. \<not> live x (Core_Close D c)) \<and>
    {..<length (c_meshes (Core_Close D c))} \<subseteq> set (c_closedMeshes (Core_Close D c)) \<and> \<not> r_on (c_packets (Core_Close D c)) \<and>
    (c_session c \<noteq> None \<longrightarrow> c_device (Core_Close D c) = None \<and> set_option (c_device c) \<subseteq> set (c_closedDevices (Core_Close D c)))"
proof -
  have gone: "core_inv (Disconnect D c)" "c_session (Disconnect D c) = None" by (simp_all add: Disconnect_inv inv Disconnect_session)
  have device: "c_device (Disconnect D c) = None \<and> set_option (c_device c) \<subseteq> set (c_closedDevices (Disconnect D c))"
    if s: "c_session c = Some s" for s
  proof -
    obtain c1 where "Disconnect D c = finishDisconnect s [] c1" "c_device c1 = c_device c" using Disconnect_Some [OF s] .
    then show ?thesis using finish_parts [where s = s and reason = "[]" and c = c1] by simp
  qed
  show ?thesis
    using gone device
    by (auto simp: Core_Close_def Let_def core_inv_def shown_ok_def contexts_ok_def sockets_ok_def live_def SetEnabled_def)
qed


text \<open>What the process talks to first is an address that was checked, or one that was saved, which is not checked again.\<close>

lemma first_server:
  assumes "daemon_Load parse join getenv dir asService = Some cfg" "loadSettings file0 (dc_ServerURL cfg) = Some s"
  shows "ValidateServerURL parse (set_ServerURL s) = None \<or> (\<exists>url lan packets. file0 = StoredSettings (Some url) lan packets \<and> set_ServerURL s = url)"
  using assms by (auto simp: daemon_Load_def loadSettings_def Let_def split: option.splits if_splits settings_file.splits)

text \<open>
Settings that were saved are read back as they were; a save that stops half way leaves a daemon that does not start
again, whatever else is in order.
\<close>

lemma settings_survive:
  "settings_save f s old = (True, new) \<Longrightarrow> loadSettings new defaultServer = Some s"
  "settings_save Partly s old = (ok, new) \<Longrightarrow> load (dc_DataDir cfg) = Inr i \<Longrightarrow>
     daemon_run (Some cfg) load (\<lambda>_. new) openable listening serve D = (Some CannotStart, None)"
  by (auto simp: settings_save_def loadSettings_def daemon_run_def Let_def split: write_outcome.splits)

theorem cleared_logs_are_empty_witness:
  "let all = \<lparr>co_close = True, co_current = True, co_previous = True, co_open = Opens\<rparr>;
       (names, main', packets') = clear_both all all (Some (toy_log, \<lparr>ld_current = Some [1], ld_previous = Some [2]\<rparr>)) (None, \<lparr>ld_current = Some [3], ld_previous = None\<rparr>)
   in names = Some [''daemon.log'', ''packets.log''] \<and> log_empty (snd packets')"
proof -
  let ?all = "\<lparr>co_close = True, co_current = True, co_previous = True, co_open = Opens\<rparr>"
  have run: "clear_both ?all ?all (Some (toy_log, \<lparr>ld_current = Some [1], ld_previous = Some [2]\<rparr>)) (None, \<lparr>ld_current = Some [3], ld_previous = None\<rparr>) =
      (Some [''daemon.log'', ''packets.log''], Some (toy_log, \<lparr>ld_current = Some [], ld_previous = None\<rparr>), None, \<lparr>ld_current = None, ld_previous = None\<rparr>)"
    by (simp add: clear_both_def log_Clear_def toy_log_def openAppend_def recorder_Clear_def RemoveLog_def ClearLogs_def)
  show ?thesis using cleared_logs_are_empty [OF run] run by simp
qed


end
