(* ===== verification/Migrate.thy ===== *)
theory Migrate
  imports Go_Text
begin

text \<open>
  Opening the database of the server: \<^verbatim>\<open>server/storage/storage.go\<close>. The schema is brought up to date by the
  migrations the database has not seen, each in a transaction with the number it leaves behind. The contents of the
  database are of any type \<open>'s\<close>, what SQLite makes of a statement is the parameter \<open>exec\<close>, and every call that can
  fail has its outcome as an argument. A transaction that is not committed leaves nothing.
\<close>

section \<open>The migrations\<close>

text \<open>\<open>%04d_\<close>\<close>

definition version_prefix :: "nat \<Rightarrow> string" where
  "version_prefix n = replicate (4 - length (dec n)) (CHR ''0'') @ dec n @ ''_''"

datatype open_error = NotOpenable | BadName nat | NoVersionTable | NoVersion | NoFirstVersion | MigrationUnread string | NoTransaction string
  | MigrationFailed string | VersionUnrecorded string | CommitFailed string | PragmaFailed string | CheckFailed | BrokenReferences
  | NoForeignKeys

fun misnamed :: "nat \<Rightarrow> string list \<Rightarrow> nat option" where
  "misnamed i [] = None"
| "misnamed i (name # names) = (if starts_with (version_prefix (Suc i)) name then misnamed (Suc i) names else Some (Suc i))"

definition migrationFiles :: "(string \<times> string) list \<Rightarrow> open_error + (string \<times> string) list" where
  "migrationFiles files = (case misnamed 0 (map fst files) of None \<Rightarrow> Inr files | Some i \<Rightarrow> Inl (BadName i))"

section \<open>Running them\<close>

text \<open>The table of the version, with its rows, and everything else.\<close>

record 's database =
  sdb_version :: "nat list option"
  sdb_contents :: 's

datatype migration_fault = NoFault | ReadFault | BeginFault | ExecFault | RecordFault | CommitFault

definition apply_migration ::
  "(string \<Rightarrow> 's \<Rightarrow> 's option) \<Rightarrow> migration_fault \<Rightarrow> nat \<Rightarrow> string \<times> string \<Rightarrow> 's database \<Rightarrow> (open_error + unit) \<times> 's database" where
  "apply_migration exec fault i file d =
     (case file of (name, statement) \<Rightarrow>
        if fault = ReadFault then (Inl (MigrationUnread name), d)
        else if fault = BeginFault then (Inl (NoTransaction name), d)
        else case (if fault = ExecFault then None else exec statement (sdb_contents d)) of
          None \<Rightarrow> (Inl (MigrationFailed name), d)
        | Some contents \<Rightarrow>
            if fault = RecordFault then (Inl (VersionUnrecorded name), d)
            else if fault = CommitFault then (Inl (CommitFailed name), d)
            else (Inr (), d\<lparr>sdb_contents := contents, sdb_version := map_option (map (\<lambda>_. Suc i)) (sdb_version d)\<rparr>))"

text \<open>The loop over the files from the first that has not been applied.\<close>

fun apply_migrations ::
  "(string \<Rightarrow> 's \<Rightarrow> 's option) \<Rightarrow> (nat \<Rightarrow> migration_fault) \<Rightarrow> nat \<Rightarrow> (string \<times> string) list \<Rightarrow> 's database \<Rightarrow> (open_error + unit) \<times> 's database" where
  "apply_migrations exec fault i [] d = (Inr (), d)"
| "apply_migrations exec fault i (file # files) d =
     (case apply_migration exec (fault i) i file d of
        (Inl e, d) \<Rightarrow> (Inl e, d)
      | (Inr _, d) \<Rightarrow> apply_migrations exec fault (Suc i) files d)"

record open_faults =
  of_open :: bool
  of_pragma :: "string \<Rightarrow> bool"
  of_create :: bool
  of_select :: bool
  of_insert :: bool
  of_migration :: "nat \<Rightarrow> migration_fault"
  of_check :: bool

definition read_version :: "open_faults \<Rightarrow> 's database \<Rightarrow> (open_error + nat) \<times> 's database" where
  "read_version f d =
     (if of_create f then (Inl NoVersionTable, d)
      else
        let rows = (case sdb_version d of None \<Rightarrow> [] | Some rows \<Rightarrow> rows);
            d = d\<lparr>sdb_version := Some rows\<rparr>
        in if of_select f then (Inl NoVersion, d)
           else case rows of
             v # _ \<Rightarrow> (Inr v, d)
           | [] \<Rightarrow> if of_insert f then (Inl NoFirstVersion, d) else (Inr 0, d\<lparr>sdb_version := Some [0]\<rparr>))"

definition migrate ::
  "(string \<Rightarrow> 's \<Rightarrow> 's option) \<Rightarrow> open_faults \<Rightarrow> (string \<times> string) list \<Rightarrow> 's database \<Rightarrow> (open_error + unit) \<times> 's database" where
  "migrate exec f files d =
     (case migrationFiles files of
        Inl e \<Rightarrow> (Inl e, d)
      | Inr files \<Rightarrow>
          (case read_version f d of
             (Inl e, d) \<Rightarrow> (Inl e, d)
           | (Inr applied, d) \<Rightarrow> apply_migrations exec (of_migration f) applied (drop applied files) d))"

text \<open>The rows that point at nothing are what the parameter \<open>broken\<close> finds.\<close>

definition checkForeignKeys :: "('s \<Rightarrow> bool) \<Rightarrow> bool \<Rightarrow> 's database \<Rightarrow> open_error option" where
  "checkForeignKeys broken failed d =
     (if failed then Some CheckFailed else if broken (sdb_contents d) then Some BrokenReferences else None)"

record server_store =
  ss_dsn :: string
  ss_foreign_keys :: bool

definition open_store ::
  "(string \<Rightarrow> 's \<Rightarrow> 's option) \<Rightarrow> ('s \<Rightarrow> bool) \<Rightarrow> open_faults \<Rightarrow> (string \<times> string) list \<Rightarrow> string \<Rightarrow> 's database \<Rightarrow>
     (open_error + server_store) \<times> 's database" where
  "open_store exec broken f files dsn d =
     (let dsn = (if dsn = '''' then ''192168.db'' else dsn) in
      if of_open f then (Inl NotOpenable, d)
      else case find (of_pragma f) [''PRAGMA journal_mode = WAL'', ''PRAGMA busy_timeout = 5000''] of
        Some pragma \<Rightarrow> (Inl (PragmaFailed pragma), d)
      | None \<Rightarrow>
          (case migrate exec f files d of
             (Inl e, d) \<Rightarrow> (Inl e, d)
           | (Inr _, d) \<Rightarrow>
               (case checkForeignKeys broken (of_check f) d of
                  Some e \<Rightarrow> (Inl e, d)
                | None \<Rightarrow>
                    if of_pragma f ''PRAGMA foreign_keys = ON'' then (Inl NoForeignKeys, d)
                    else (Inr \<lparr>ss_dsn = dsn, ss_foreign_keys = True\<rparr>, d))))"

section \<open>Once and in order\<close>

text \<open>What the first migrations make of the contents, one after the other.\<close>

fun run_all :: "(string \<Rightarrow> 's \<Rightarrow> 's option) \<Rightarrow> (string \<times> string) list \<Rightarrow> 's \<Rightarrow> 's option" where
  "run_all exec [] s = Some s"
| "run_all exec (file # files) s = Option.bind (exec (snd file) s) (run_all exec files)"

lemma run_all_append: "run_all exec (xs @ ys) s = Option.bind (run_all exec xs s) (run_all exec ys)"
  by (induction xs arbitrary: s) (auto split: Option.bind_split)

definition db_version :: "'s database \<Rightarrow> nat" where
  "db_version d = (case sdb_version d of Some (v # _) \<Rightarrow> v | _ \<Rightarrow> 0)"

text \<open>The contents are those of a database that was new once and has seen the first \<open>db_version\<close> migrations.\<close>

definition schema_ok :: "(string \<Rightarrow> 's \<Rightarrow> 's option) \<Rightarrow> (string \<times> string) list \<Rightarrow> 's \<Rightarrow> 's database \<Rightarrow> bool" where
  "schema_ok exec files s0 d \<longleftrightarrow> db_version d \<le> length files \<and>
     run_all exec (take (db_version d) files) s0 = Some (sdb_contents d) \<and>
     (\<forall>rows. sdb_version d = Some rows \<longrightarrow> length rows \<le> 1)"

lemma apply_migration_ok:
  assumes "schema_ok exec all s0 d" "apply_migration exec fault i (all ! i) d = (r, d')" "i < length all"
    "db_version d = i" "sdb_version d = Some rows" "rows \<noteq> []"
  shows "case r of Inl e \<Rightarrow> d' = d | Inr _ \<Rightarrow> schema_ok exec all s0 d' \<and> db_version d' = Suc i \<and> sdb_version d' = Some [Suc i]"
proof -
  obtain name statement where entry: "all ! i = (name, statement)" by (cases "all ! i")
  have "rows = [i]" using assms(1,4,5,6) by (cases rows) (auto simp: schema_ok_def db_version_def)
  moreover have "run_all exec (take (Suc i) all) s0 = exec statement (sdb_contents d)"
    using assms(1,3,4) entry by (simp add: schema_ok_def take_Suc_conv_app_nth run_all_append) (cases "exec statement (sdb_contents d)"; simp)
  ultimately show ?thesis
    using assms by (auto simp: apply_migration_def entry schema_ok_def db_version_def split: if_splits option.splits)
qed

lemma apply_migrations_ok:
  "schema_ok exec all s0 d \<Longrightarrow> apply_migrations exec fault i (drop i (take k all)) d = (r, d') \<Longrightarrow>
     db_version d = i \<Longrightarrow> sdb_version d = Some rows \<Longrightarrow> rows \<noteq> [] \<Longrightarrow>
     schema_ok exec all s0 d' \<and> i \<le> db_version d' \<and> (r = Inr () \<longrightarrow> db_version d' = max i (length (take k all)))"
proof (induction "drop i (take k all)" arbitrary: i d rows)
  case Nil
  then have "(r, d') = (Inr (), d)" "length (take k all) \<le> i" by (metis apply_migrations.simps(1), metis drop_eq_Nil)
  then show ?case using Nil by simp
next
  case (Cons first rest)
  have i: "i < length (take k all)" using Cons.hyps(2) by (metis drop_all list.distinct(1) not_le)
  then have split: "drop i (take k all) = all ! i # drop (Suc i) (take k all)" by (simp add: Cons_nth_drop_Suc [symmetric])
  obtain r1 d1 where one: "apply_migration exec (fault i) i (all ! i) d = (r1, d1)" by fastforce
  note step = apply_migration_ok [OF Cons.prems(1) one _ Cons.prems(3,4,5)]
  show ?case
  proof (cases r1)
    case (Inl e)
    then show ?thesis using step i Cons.prems one split by auto
  next
    case (Inr u)
    then have "schema_ok exec all s0 d1" "db_version d1 = Suc i" "sdb_version d1 = Some [Suc i]" using step i by auto
    from Cons.hyps(1) [OF _ this(1) _ this(2,3)] show ?thesis using Cons.hyps(2) Cons.prems(2) split one Inr i by auto
  qed
qed

lemma migrate_ok:
  assumes "schema_ok exec all s0 d" "migrate exec f (take k all) d = (r, d')"
  shows "schema_ok exec all s0 d' \<and> db_version d \<le> db_version d' \<and>
    (r = Inr () \<longrightarrow> db_version d' = max (db_version d) (length (take k all)))"
proof (cases "misnamed 0 (map fst (take k all))")
  case None
  obtain r1 d1 where v: "read_version f d = (r1, d1)" by (cases "read_version f d")
  have ok: "schema_ok exec all s0 d1" "db_version d1 = db_version d"
    "\<forall>n. r1 = Inr n \<longrightarrow> n = db_version d \<and> (\<exists>rows. sdb_version d1 = Some rows \<and> rows \<noteq> [])"
    using assms(1) v by (auto simp: read_version_def Let_def schema_ok_def db_version_def split: if_splits option.splits list.splits)
  show ?thesis
  proof (cases r1)
    case (Inl e)
    then show ?thesis using ok assms(2) None v by (auto simp: migrate_def migrationFiles_def)
  next
    case (Inr n)
    then show ?thesis
      using ok assms(2) None v apply_migrations_ok [OF ok(1), of "of_migration f" n k r d'] by (auto simp: migrate_def migrationFiles_def)
  qed
qed (use assms in \<open>auto simp: migrate_def migrationFiles_def\<close>)

lemma open_store_ok:
  assumes "schema_ok exec all s0 d" "open_store exec broken f (take k all) dsn d = (r, d')"
  shows "schema_ok exec all s0 d' \<and> db_version d \<le> db_version d' \<and>
    (\<forall>s. r = Inr s \<longrightarrow> length (take k all) \<le> db_version d' \<and> \<not> broken (sdb_contents d') \<and> ss_foreign_keys s)"
proof -
  obtain r1 d1 where m: "migrate exec f (take k all) d = (r1, d1)" by (cases "migrate exec f (take k all) d")
  show ?thesis
    using migrate_ok [OF assms(1) m] assms m
    by (auto simp: open_store_def Let_def checkForeignKeys_def split: option.splits if_splits sum.splits)
qed

text \<open>One start of the server after the other, each with the first \<open>k\<close> migrations of those there will ever be.\<close>

fun server_starts ::
  "(string \<Rightarrow> 's \<Rightarrow> 's option) \<Rightarrow> ('s \<Rightarrow> bool) \<Rightarrow> (string \<times> string) list \<Rightarrow> (nat \<times> open_faults) list \<Rightarrow> 's database \<Rightarrow> 's database" where
  "server_starts exec broken all [] d = d"
| "server_starts exec broken all ((k, f) # starts) d = server_starts exec broken all starts (snd (open_store exec broken f (take k all) '''' d))"

lemma server_starts_ok:
  "schema_ok exec all s0 d \<Longrightarrow> schema_ok exec all s0 (server_starts exec broken all starts d)"
proof (induction starts arbitrary: d)
  case (Cons start starts)
  obtain k f where start: "start = (k, f)" by (cases start)
  show ?case using Cons.IH open_store_ok [OF Cons.prems prod.collapse [symmetric]] by (simp add: start)
qed simp

text \<open>
C23: every migration runs once and in order. However often the server is started on a database that was new once, with
newer releases and older ones, and wherever each start fails, the contents are those the first migrations make one after
the other, as many as the recorded version says. A start that succeeds leaves all the migrations of its release applied, no reference
that points at nothing, and the foreign keys on.
\<close>

theorem migrations_run_once:
  assumes "d = server_starts exec broken all starts \<lparr>sdb_version = None, sdb_contents = s0\<rparr>"
    and "open_store exec broken f (take k all) dsn d = (r, d')"
  shows "run_all exec (take (db_version d') all) s0 = Some (sdb_contents d') \<and> db_version d \<le> db_version d' \<and>
    (\<forall>s. r = Inr s \<longrightarrow> min k (length all) \<le> db_version d' \<and> \<not> broken (sdb_contents d') \<and> ss_foreign_keys s)"
proof -
  have "schema_ok exec all s0 \<lparr>sdb_version = None, sdb_contents = s0\<rparr>" by (simp add: schema_ok_def db_version_def)
  from open_store_ok [OF server_starts_ok [OF this] assms(2) [unfolded assms(1)]] show ?thesis
    using assms(1) by (simp add: schema_ok_def min.commute)
qed

text \<open>The names of the migrations that are shipped, in the order their directory is read, pass the check.\<close>

definition migration_names :: "string list" where
  "migration_names =
    [''0001_devices.sql'',
     ''0002_device_tokens.sql'',
     ''0003_device_tokens_by_device.sql'',
     ''0004_register_nonces.sql'',
     ''0005_groups.sql'',
     ''0006_memberships.sql'',
     ''0007_sessions.sql'',
     ''0008_membership_role.sql'',
     ''0009_membership_banned_at.sql'',
     ''0010_owners_of_older_groups.sql'',
     ''0011_membership_virtual_ip.sql'',
     ''0012_membership_address_unique.sql'',
     ''0013_drop_sessions.sql'',
     ''0014_sessions_without_an_address.sql'',
     ''0015_group_icon.sql'',
     ''0016_group_color.sql'',
     ''0017_device_nickname.sql'',
     ''0018_group_invite_code.sql'',
     ''0019_groups_without_passwords.sql'']"

lemma shipped_migrations_named: "map fst files = migration_names \<Longrightarrow> migrationFiles files = Inr files"
proof -
  have "misnamed 0 migration_names = None" by code_simp
  then show "map fst files = migration_names \<Longrightarrow> migrationFiles files = Inr files" by (simp add: migrationFiles_def)
qed

definition no_open_faults :: open_faults where
  "no_open_faults = \<lparr>of_open = False, of_pragma = \<lambda>_. False, of_create = False, of_select = False, of_insert = False,
     of_migration = \<lambda>_. NoFault, of_check = False\<rparr>"

text \<open>A database that is the list of the statements it has seen, and a first start that fails at the second migration.\<close>

definition toy_migrations :: "(string \<times> string) list" where
  "toy_migrations = [(''0001_a.sql'', ''a''), (''0002_b.sql'', ''b'')]"

definition toy_exec :: "string \<Rightarrow> string list \<Rightarrow> string list option" where
  "toy_exec statement seen = Some (seen @ [statement])"

theorem migrations_run_once_witness:
  "\<exists>d d'. d = server_starts toy_exec (\<lambda>_. False) toy_migrations [(2, no_open_faults\<lparr>of_migration := (\<lambda>i. if i = 1 then CommitFault else NoFault)\<rparr>)]
        \<lparr>sdb_version = None, sdb_contents = []\<rparr> \<and> sdb_contents d = [''a''] \<and>
     open_store toy_exec (\<lambda>_. False) no_open_faults (take 2 toy_migrations) '''' d = (Inr \<lparr>ss_dsn = ''192168.db'', ss_foreign_keys = True\<rparr>, d') \<and>
     db_version d' = 2 \<and> run_all toy_exec (take 2 toy_migrations) [] = Some (sdb_contents d')"
proof -
  let ?f = "no_open_faults\<lparr>of_migration := (\<lambda>i. if i = 1 then CommitFault else NoFault)\<rparr>"
  let ?d = "\<lparr>sdb_version = Some [1], sdb_contents = [''a'']\<rparr> :: string list database"
  let ?d' = "\<lparr>sdb_version = Some [2], sdb_contents = [''a'', ''b'']\<rparr> :: string list database"
  have names: "migrationFiles toy_migrations = Inr toy_migrations" by code_simp
  have two: "take 2 toy_migrations = toy_migrations" by (simp add: toy_migrations_def)
  note defs = two open_store_def migrate_def names read_version_def checkForeignKeys_def
    no_open_faults_def toy_exec_def
  have first: "?d = server_starts toy_exec (\<lambda>_. False) toy_migrations [(2, ?f)] \<lparr>sdb_version = None, sdb_contents = []\<rparr>"
    by (simp add: defs) (simp add: toy_migrations_def apply_migration_def toy_exec_def checkForeignKeys_def)
  have again: "open_store toy_exec (\<lambda>_. False) no_open_faults (take 2 toy_migrations) '''' ?d =
      (Inr \<lparr>ss_dsn = ''192168.db'', ss_foreign_keys = True\<rparr>, ?d')"
    by (simp add: defs) (simp add: toy_migrations_def apply_migration_def toy_exec_def checkForeignKeys_def)
  have version: "db_version ?d' = 2" by (simp add: db_version_def)
  then have ran: "run_all toy_exec (take 2 toy_migrations) [] = Some (sdb_contents ?d')"
    using migrations_run_once [OF first again] by simp
  show ?thesis by (rule exI [of _ ?d], rule exI [of _ ?d'], intro conjI, rule first, simp, rule again, rule version, rule ran)
qed

end
