(* ===== verification/Spec2Isabelle.thy ===== *)
theory Spec2Isabelle
  imports Onboarding Ipc_Clients Event_Channel Sockets Daemon Migrate
begin

text \<open>
  192168: a virtual LAN for playing games together. A coordination server (\<^verbatim>\<open>server/\<close>) keeps devices, groups and
  sessions and hands out addresses; on every machine a daemon (\<^verbatim>\<open>daemon/\<close>) connects to a group, opens encrypted
  links to the other machines in it and carries the packets of a network adapter over them; a desktop client
  talks to the daemon over a pipe. The packets on the wire and the messages of all three are \<^verbatim>\<open>protocol/\<close>.

  \<^bold>\<open>The theories\<close>, in the order the code builds on itself:

  \<^item> \<open>Prelude\<close>: bytes and big-endian numbers as words, addresses, Go maps as association lists with distinct keys, and
    the locale \<open>invariant_system\<close>, from which every invariant of a step relation below is taken.
    \<open>Go_Text\<close>: what the sources use of Go's packages for text, numbers and addresses.
  \<^item> \<open>Transport\<close> (\<^verbatim>\<open>protocol/transport\<close>): the envelope and every payload, byte for byte, with the decoders and the round
    trips. \<open>Replay\<close> (\<^verbatim>\<open>protocol/session/replay.go\<close>): the sliding window on 64-bit words, refined to the set of
    counters seen. \<open>Session\<close> (\<^verbatim>\<open>session.go\<close>): handshake and sealing over the Noise library, which is a record of
    functions with its documented behaviour as named hypotheses.
  \<^item> \<open>Peer\<close> (\<^verbatim>\<open>daemon/mesh/peer.go\<close>): one link. \<open>Stun\<close> (\<^verbatim>\<open>daemon/stun\<close>) and \<open>Netlog\<close> (\<^verbatim>\<open>daemon/netlog\<close>). \<open>Mesh\<close>
    (\<^verbatim>\<open>mesh.go\<close>, \<^verbatim>\<open>handle.go\<close>): the socket, all links and their indexes, with links in a heap because the code shares
    them; \<open>Mesh_Inv\<close> its invariant, \<open>Mesh_Props\<close> what reaches the adapter and how packets are relayed, \<open>Mesh_Links\<close> when
    a link is given up. \<open>Pump\<close> (\<^verbatim>\<open>daemon/core/pump.go\<close>): between adapter and mesh.
  \<^item> \<open>Invite\<close> (\<^verbatim>\<open>protocol/invite\<close>), \<open>Auth\<close> (\<^verbatim>\<open>protocol/auth\<close>), \<open>Storage\<close> (\<^verbatim>\<open>server/storage\<close>): the tables as lists of rows
    with every query and transaction; \<open>Storage_Addr\<close> the choice of an address against a reference, \<open>Storage_Inv\<close> and
    \<open>Storage_Props\<close> the constraints of the schema and what transactions do, \<open>Storage_Owner\<close> who may manage a group.
    \<open>Hub\<close> (\<^verbatim>\<open>server/realtime\<close>): subscriptions and their bounded queues. \<open>Api\<close>, \<open>Api_Props\<close> (\<^verbatim>\<open>server/api\<close>): the handlers on
    decoded requests, the rate limiter, the expiry loop.
  \<^item> \<open>Control\<close> (\<^verbatim>\<open>daemon/control\<close>, \<^verbatim>\<open>server/config\<close>, the routes of \<^verbatim>\<open>server/api/router.go\<close>): every request of the daemon
    and the endpoint it reaches, discovery, the realtime channel. \<open>Identity\<close> (\<^verbatim>\<open>daemon/identity\<close>): keys and token on disk.
  \<^item> \<open>Core_State\<close>, \<open>Core_Links\<close>, \<open>Core_Connect\<close>, \<open>Core\<close> (\<^verbatim>\<open>daemon/core\<close>): the state of the daemon, its line to the server, its
    peers, connecting and leaving, and the operations of the desktop client; \<open>Core_Inv\<close> its invariant over all
    interleavings of them, \<open>Core_Props\<close> what a user can rely on. \<open>Ipc\<close>, \<open>Ipc_Clients\<close> (\<^verbatim>\<open>daemon/ipcserver\<close>, \<^verbatim>\<open>protocol/ipc\<close>):
    requests, answers and the fan-out of events to the clients of the pipe.
  \<^item> \<open>Event_Channel\<close>: the server's hub and the loop of a realtime connection, the connection, and the daemon's reader
    and core as one system. \<open>Sockets\<close>: host names, ports, the requests for the public address, the loop that reads the socket.
  \<^item> \<open>Adapter\<close> (\<^verbatim>\<open>daemon/tun\<close>): the adapter and its lock, the contest for the multicast route over the tables of the
    system, the firewall rules. \<open>Rolling_Log\<close> (\<^verbatim>\<open>daemon/config/log.go\<close>), \<open>Service\<close> (\<^verbatim>\<open>daemon/service\<close>): the registration, the
    bounded wait, the handler. \<open>Daemon\<close> (\<^verbatim>\<open>daemon/config\<close>, \<^verbatim>\<open>daemon/cmd\<close>): settings, logs, and the process from its start to its
    end. \<open>Migrate\<close> (\<^verbatim>\<open>server/storage/storage.go\<close>): opening the database and bringing its schema up to date.
  \<^item> \<open>Onboarding\<close> and this theory: from creating a group over its invite link to an address on a friend's adapter.

  \<^bold>\<open>How the code is modelled.\<close> A struct is a record, an error a value, a Go map an association list whose order is the
  one Go happens to visit; 16, 32 and 64 bit numbers are words and wrap. What other code answers is an argument: the
  clock, random bytes, the disk, HTTP, STUN, Windows, Noise, Ed25519. A goroutine is a task that runs once or a loop
  whose turns are steps; \<open>mesh_step\<close>, \<open>store_step\<close>, \<open>hub_step\<close>, \<open>core_step\<close>, \<open>conn_step\<close>, \<open>ipc_step\<close>,
  \<open>tun_step\<close> and \<open>channel_step\<close> interleave them.
  A transaction of the store is atomic, a handler of the API is one too, except where its two transactions are looked
  at separately. An operation of the core is a step of \<open>core_step\<close>; the critical sections of \<open>Connect\<close> and
  \<open>Disconnect\<close> are definitions of their own, and what can come between them is proved in \<open>Core_Props\<close>.

  \<^bold>\<open>Bounds.\<close> Every function is total and none has fuel: loops recurse on their input or have a measure, and \<open>TrimSpace\<close>
  repeats its round once for every byte, which is enough because each round that changes anything drops one.

  \<^bold>\<open>What the theorems show.\<close> Of the links: only authentic packets reach the adapter, once, sessions are opened only with
  members, data arrives directly and through a relay, the indexes agree, and a link nobody answers is given up. Of the
  server: the tables stay well formed, addresses are unique and reused, only an owner manages, who was removed stays
  out, registrations cannot be replayed, attempts are bounded in every window, codes go to owners only. Of the daemon:
  its state fits the connection in every interleaving, a disconnect leaves nothing, an outage costs nothing, a refused
  token is replaced, the identity survives a crash while it is saved, the client finds every endpoint, every request
  is answered and clients hear every event in order; what happens in a group is handled by its members in the order
  it happened; the multicast route is won and given back; logs stay within their limit and keep the latest records; the
  process takes everything down before it ends; and every migration runs once, in order. And where the code does not do what it means to, that.

  \<^bold>\<open>Not modelled.\<close> The text of JSON, HTTP and the WebSocket, and what a migration's SQL does to the tables, which belong to
  libraries; log lines; the access rights of the log directory, the pipe and the protected secrets, which are calls into
  Windows with nothing computed around them; the two \<^verbatim>\<open>main\<close> functions, which call what is modelled one after the other;
  the stubs for other systems; and the desktop client, which is not Go.
\<close>

section \<open>From an invite link to an address on the adapter\<close>

text \<open>
C1: an invite works end to end. Once a device has created a group, the link built from the code in its answer lets
another registered device in, as long as the limiter admits the attempt and the new id is unused: the friend joins
the same group as an ordinary member, is not told the code, and both clients can put their addresses on their
adapters, which are different.
\<close>

theorem invited_friend_gets_online:
  assumes inv: "store_inv (sv_db sv)" and good: "good_draws draws"
    and create: "handleCreateGroup req idRaw draws memRaw now owner sv = (r, sv1)" "rp_status r = 201"
    and friend: "dev_id friend \<noteq> dev_id owner" "dev_id friend \<in> dev_id ` set (db_devices (sv_db sv))"
    and base: "base \<noteq> []" "plain (hd base)"
    and attempt: "fst (allow client t (sv_joins sv1))"
    and id: "NewID ''mem'' raw = Some i" "i \<notin> mem_id ` set (db_memberships (sv_db sv1))"
  shows "\<exists>m m2 sv2 p p2. r = writeJSON 201 (MembershipBody m) \<and>
    handleJoinByCode (Some (Link base (am_InviteCode m))) client raw t friend sv1 = (writeJSON 200 (MembershipBody m2), sv2) \<and>
    am_GroupID m2 = am_GroupID m \<and> am_Role m = RoleOwner \<and> am_Role m2 = RoleMember \<and> am_InviteCode m2 = [] \<and>
    adapterAddress (am_VirtualIP m) (am_Subnet m) = Inr p \<and> adapterAddress (am_VirtualIP m2) (am_Subnet m2) = Inr p2 \<and>
    pfx_addr p \<noteq> pfx_addr p2"
proof -
  obtain g m db' where new: "CreateGroup draws memRaw g (dev_id owner) now (sv_db sv) = (Inr m, db')"
    and g: "G_Subnet g = DefaultSubnet" and r: "r = writeJSON 201 (MembershipBody (toMembership m))" and sv1: "sv1 = sv\<lparr>sv_db := db'\<rparr>"
    using create by (rule handleCreateGroup_201)
  obtain row where inv': "store_inv db'" and row: "row \<in> set (db_groups db')" "grp_id row = G_ID g" "grp_subnet row = G_Subnet g"
      "grp_invite_code row = M_InviteCode m" "M_InviteCode m \<noteq> []" "list_all code_char (M_InviteCode m)"
    and m: "M_Role m = RoleOwner" "M_GroupID m = G_ID g" "M_Subnet m = G_Subnet g" "host_text (G_Subnet g) (M_VirtualIP m)"
    and ms: "\<exists>row. db_memberships db' = db_memberships (sv_db sv) @ [row] \<and> is_place (G_ID g) (dev_id owner) row \<and> active row \<and>
       mem_virtual_ip row = Some (M_VirtualIP m)" "\<forall>x\<in>set (db_memberships (sv_db sv)). mem_group_id x \<noteq> G_ID g"
    and devices: "db_devices db' = db_devices (sv_db sv)"
    using CreateGroup_Inr [OF inv good new] by blast
  have gid: "G_ID (to_group row) = G_ID g" "G_Subnet (to_group row) = ''10.69.0.0/24''"
    using row g by (simp_all add: to_group_def DefaultSubnet_def)
  have empty: "place (G_ID g) (dev_id friend) db' = None" and one: "MemberCount (G_ID g) db' = 1"
    and held: "M_VirtualIP m \<in> others_hold (G_ID g) (dev_id friend) db'"
  proof -
    obtain x where x: "db_memberships db' = db_memberships (sv_db sv) @ [x]" "mem_group_id x = G_ID g" "mem_device_id x = dev_id owner"
      "active x" "mem_virtual_ip x = Some (M_VirtualIP m)"
      using ms(1) by (auto simp: is_place_def)
    show "place (G_ID g) (dev_id friend) db' = None"
      using ms(2) x friend(1) by (auto simp: place_def is_place_def find_eq_None)
    show "MemberCount (G_ID g) db' = 1"
      using ms(2) x by (simp add: MemberCount_def filter_empty_conv)
    show "M_VirtualIP m \<in> others_hold (G_ID g) (dev_id friend) db'"
      using x friend(1) by (auto simp: others_hold_def is_place_def)
  qed
  obtain m2 db2 where join: "AddMembership raw (to_group row) (dev_id friend) t db' = (Inr m2, db2)"
    using join_new_succeeds [OF id(1), of db' "to_group row" "dev_id friend" "0x0a450000" 24 t] id(2) empty one imageI [OF row(1), of grp_id]
      row(2) friend(2) devices toy_subnet by (auto simp: sv1 gid)
  have m2: "M_VirtualIP m2 \<notin> others_hold (G_ID g) (dev_id friend) db'" "host_text (G_Subnet g) (M_VirtualIP m2)"
    "M_Role m2 = RoleMember" "M_GroupID m2 = G_ID g" "M_Subnet m2 = G_Subnet g"
    using joined_new [OF join] empty row by (simp_all add: to_group_def)
  obtain w bits where w: "M_VirtualIP m = ipv4_String w" "adapterAddress (M_VirtualIP m) (G_Subnet g) = Inr \<lparr>pfx_addr = Addr4 w, pfx_bits = bits\<rparr>"
    using adapterAddress_host [OF m(4)] by blast
  obtain w2 bits2 where w2: "M_VirtualIP m2 = ipv4_String w2"
    "adapterAddress (M_VirtualIP m2) (G_Subnet g) = Inr \<lparr>pfx_addr = Addr4 w2, pfx_bits = bits2\<rparr>"
    using adapterAddress_host [OF m2(2)] by blast
  have "w \<noteq> w2" using held m2(1) w(1) w2(1) by auto
  obtain l where "allow client t (sv_joins sv1) = (True, l)" using attempt by (cases "allow client t (sv_joins sv1)") auto
  then have "handleJoinByCode (Some (Link base (M_InviteCode m))) client raw t friend sv1 =
      (writeJSON 200 (MembershipBody (toMembership m2)), sv1\<lparr>sv_joins := l, sv_db := db2\<rparr>)"
    using Parse_Link [OF row(6,5) base] row(5) code_lookup [OF inv' row(1)] row(4) join
    by (simp add: handleJoinByCode_def Let_def sv1)
  then show ?thesis
    using w w2 m m2 \<open>w \<noteq> w2\<close> by (intro exI conjI) (assumption | simp add: r toMembership_def)+
qed

theorem invited_friend_gets_online_witness:
  "\<exists>m m2 sv1 sv2. handleCreateGroup (Some (''LAN'', [], [])) (Some [1, 2, 3, 4, 5]) toy_draws (Some [1, 2, 3, 4, 5]) 0 (toy_device ''ann'') toy_pair =
       (writeJSON 201 (MembershipBody m), sv1) \<and>
     handleJoinByCode (Some (Link ''https://lan.example'' (am_InviteCode m))) ''a'' (Some [1, 2, 3, 4, 6]) 9 (toy_device ''bob'') sv1 =
       (writeJSON 200 (MembershipBody m2), sv2) \<and> am_GroupID m2 = am_GroupID m"
proof -
  obtain row sv1 b where one: "handleCreateGroup (Some (''LAN'', [], [])) (Some [1, 2, 3, 4, 5]) toy_draws (Some [1, 2, 3, 4, 5]) 0 (toy_device ''ann'') toy_pair =
      (writeJSON 201 b, sv1)" and sv1: "db_memberships (sv_db sv1) = [row]" "mem_id row = ''mem_'' @ base32 [1, 2, 3, 4, 5]" "sv_joins sv1 = sv_joins toy_pair"
    by (rule toy_pair_create)
  have id: "NewID ''mem'' (Some [1, 2, 3, 4, 6]) = Some (''mem_'' @ base32 [1, 2, 3, 4, 6])" by (simp add: NewID_def)
  have fresh: "''mem_'' @ base32 [1, 2, 3, 4, 6] \<notin> mem_id ` set (db_memberships (sv_db sv1))"
    using base32_inject [of "[1, 2, 3, 4, 5]" 1 "[1, 2, 3, 4, 6]"] by (simp add: sv1)
  have good: "good_draws toy_draws" by (simp add: good_draws_def toy_draws_def inviteCodeBytes_def)
  have known: "dev_id (toy_device ''bob'') \<noteq> dev_id (toy_device ''ann'')"
    "dev_id (toy_device ''bob'') \<in> dev_id ` set (db_devices (sv_db toy_pair))"
    by (simp_all add: toy_device_def toy_pair_def NewServer_def)
  have "fst (allow ''a'' 9 (sv_joins sv1))"
    by (simp add: sv1(3) toy_pair_def NewServer_def allow_iff newRateLimiter_def attempts_of_def)
  from invited_friend_gets_online [OF toy_pair_inv good one _ known _ _ this id fresh, of "''https://lan.example''"]
  show ?thesis using one by (auto simp: plain_def)
qed

end
